theory Spec2Isabelle
  imports Complex_Main "HOL-Library.Word" "HOL-Library.Monad_Syntax"
begin

unbundle bit_operations_syntax

section \<open>Data model of common/encode_lavc.c\<close>

text \<open>
  The encode session of mpv (\<^verbatim>\<open>struct encode_lavc_context\<close>) drives libavformat and
  libavcodec.  The model below follows the C file function by function.  Conventions:
  \<^item> C strings are \<open>string\<close> (byte lists without the terminating NUL); a nullable
    \<^verbatim>\<open>char *\<close> is a \<open>string option\<close>.
  \<^item> \<^verbatim>\<open>int\<close> values that are only assigned constants or compared (return codes, the
    header latch, stream indices, rationals) are \<open>int\<close>; the counters that the code
    adds to are words of their C width (\<^verbatim>\<open>long long\<close> byte counters, \<^verbatim>\<open>int\<close> packet size,
    \<^verbatim>\<open>int64_t\<close> duration, \<^verbatim>\<open>unsigned\<close> frame counter).
  \<^item> \<^verbatim>\<open>float\<close> and \<^verbatim>\<open>double\<close> values are idealised as \<open>real\<close>: rounding, infinities and
    NaN are not modelled.
  \<^item> Pointers owned by the session are options; a pointer to a stream of the muxer is
    its position in the muxer's stream array, a pointer to a codec context is an address
    in \<open>codec_mem\<close>.  An operation returns \<open>None\<close> where the C code dereferences a null or
    dangling pointer (undefined behaviour).
  \<^item> Functions of libavformat, libavcodec, libavutil and of other parts of mpv are not
    part of the file.  Their results are taken from a record \<open>extern\<close> of arbitrary
    functions, so every theorem holds whatever these functions return; the same holds for
    the constants of their headers.  Every call with an effect outside the session is
    appended to \<open>io_calls\<close>, every message to \<open>mp_log\<close>.  In \<open>extern\<close>, \<open>av_dict_get\<close> is
    the lookup of one key (no previous entry, no flags) and returns the value of the entry
    found; \<open>av_tokens\<close> is the list of tokens that the successive calls of
    \<^verbatim>\<open>av_get_token\<close> cut from a comma-separated string; \<open>default_encoder\<close> is
    \<^verbatim>\<open>avcodec_find_encoder(av_guess_codec(...))\<close>; \<open>snprintf_status\<close> formats the numbers of
    the status line; a codec's parameters (\<^verbatim>\<open>codecpar\<close>) are reduced to their media type;
    \<open>rate_limit x\<close> is the \<^verbatim>\<open>int\<close> that the floating-point expression \<^verbatim>\<open>x * 1001 + 2\<close> is
    converted to when it is passed to \<^verbatim>\<open>av_d2q\<close>.
  \<^item> Memory allocation (\<^verbatim>\<open>avformat_new_stream\<close>, \<^verbatim>\<open>avcodec_alloc_context3\<close>, \<^verbatim>\<open>talloc\<close>) is
    assumed to succeed, as the C code assumes.  The mutex is not modelled, and a session
    pointer is never null.
\<close>

datatype AVMediaType =
    AVMEDIA_TYPE_UNKNOWN
  | AVMEDIA_TYPE_VIDEO
  | AVMEDIA_TYPE_AUDIO
  | AVMEDIA_TYPE_DATA
  | AVMEDIA_TYPE_SUBTITLE
  | AVMEDIA_TYPE_ATTACHMENT

datatype msglevel = MSGL_ERR | MSGL_WARN | MSGL_INFO | MSGL_V | MSGL_TRACE

datatype fmt_arg = Str string | Num int | Dbl real

text \<open>A logged message: its level, its format string and the arguments of the format.\<close>

type_synonym log_entry = "msglevel \<times> string \<times> fmt_arg list"

text \<open>An \<^verbatim>\<open>AVDictionary\<close> is its array of key/value entries; \<^verbatim>\<open>NULL\<close> is the empty array.\<close>

type_synonym AVDictionary = "(string \<times> string) list"

type_synonym stream_handle = nat

type_synonym AVIOContext = nat

record AVRational =
  num :: int
  den :: int

record AVCodec =
  codec_name :: string
  codec_long_name :: string
  codec_mtype :: AVMediaType
  capabilities :: "32 word"
  supported_framerates :: "AVRational list option"
  pix_fmts :: "int list option"

record AVCodecContext =
  codec_type :: AVMediaType
  cc_time_base :: AVRational
  cc_flags :: "32 word"
  stats_in :: "string option"
  stats_out :: "string option"
  strict_std_compliance :: int
  colorspace :: int
  color_range :: int

record AVStream =
  st_index :: int
  st_time_base :: AVRational
  codecpar_codec_type :: AVMediaType

record AVPacket =
  stream_index :: int
  pkt_size :: "32 word"
  duration :: "64 word"
  pts :: "64 word"
  dts :: "64 word"

record AVOutputFormat =
  of_name :: string
  of_long_name :: string
  of_flags :: "32 word"
  video_codec :: int
  audio_codec :: int

record AVFormatContext =
  oformat :: AVOutputFormat
  url :: string
  pb :: "AVIOContext option"
  streams :: "AVStream list"
  av_metadata :: AVDictionary

record encode_opts =
  file_name :: string
  format :: "string option"
  fopts :: "string list option"
  fps :: real
  vcodec :: "string option"
  vopts :: "string list option"
  acodec :: "string option"
  aopts :: "string list option"
  voffset :: real
  aoffset :: real
  autofps :: bool
  opt_video_first :: bool
  opt_audio_first :: bool
  copy_metadata :: bool
  set_metadata :: "(string \<times> string) list option"
  remove_metadata :: "string list option"

datatype ext_call =
    AvioOpen string
  | AvformatWriteHeader
  | AvWriteTrailer
  | AvInterleavedWriteFrame AVPacket
  | AvioClose AVIOContext
  | StreamOpen string
  | OpenOutputStream string
  | StreamReadComplete stream_handle
  | StreamWriteBuffer stream_handle string
  | FreeStream stream_handle
  | MpMsgForceStderr

record extern =
  AV_DICT_APPEND :: int
  AVFMT_NOFILE :: "32 word"
  AVFMT_GLOBALHEADER :: "32 word"
  AV_CODEC_FLAG_PASS2 :: "32 word"
  AV_CODEC_CAP_EXPERIMENTAL :: "32 word"
  FF_COMPLIANCE_EXPERIMENTAL :: int
  AV_CODEC_ID_NONE :: int
  AV_PIX_FMT_NONE :: int
  MP_NOPTS_VALUE :: real
  av_dict_set :: "AVDictionary \<Rightarrow> string \<Rightarrow> string option \<Rightarrow> int \<Rightarrow> int \<times> AVDictionary"
  av_dict_get :: "AVDictionary \<Rightarrow> string \<Rightarrow> string option"
  av_d2q :: "real \<Rightarrow> int \<Rightarrow> AVRational"
  rate_limit :: "real \<Rightarrow> int"
  av_find_nearest_q_idx :: "AVRational \<Rightarrow> AVRational list \<Rightarrow> nat"
  avio_open :: "string \<Rightarrow> int \<times> AVIOContext option"
  avio_size :: "AVIOContext \<Rightarrow> 64 word"
  avformat_write_header :: "AVFormatContext \<Rightarrow> AVDictionary \<Rightarrow> int \<times> AVDictionary"
  av_interleaved_write_frame :: "AVFormatContext \<Rightarrow> AVPacket \<Rightarrow> int"
  stream_open :: "string \<Rightarrow> stream_handle option"
  open_output_stream :: "string \<Rightarrow> stream_handle option"
  stream_read_complete :: "stream_handle \<Rightarrow> string option"
  avcodec_alloc_context3 :: "AVCodec \<Rightarrow> AVCodecContext"
  avcodec_open2 :: "AVCodecContext \<Rightarrow> AVCodec \<Rightarrow> AVDictionary \<Rightarrow> int \<times> AVCodecContext \<times> AVDictionary"
  avcodec_parameters_from_context :: "AVMediaType \<Rightarrow> AVCodecContext \<Rightarrow> int \<times> AVMediaType"
  mp_time_sec :: real
  mp_csp_to_avcol_spc :: "int \<Rightarrow> int"
  mp_csp_levels_to_avcol_range :: "int \<Rightarrow> int"
  avcol_spc_to_mp_csp :: "int \<Rightarrow> int"
  avcol_range_to_mp_csp_levels :: "int \<Rightarrow> int"
  snprintf_status :: "string \<Rightarrow> real list \<Rightarrow> string"
  av_tokens :: "string \<Rightarrow> string list"
  av_guess_format :: "string option \<Rightarrow> string \<Rightarrow> AVOutputFormat option"
  avcodec_find_encoder_by_name :: "string \<Rightarrow> AVCodec option"
  default_encoder :: "AVOutputFormat \<Rightarrow> string \<Rightarrow> AVMediaType \<Rightarrow> AVCodec option"
  mp_tags_set_str :: "(string \<times> string) list \<Rightarrow> string \<Rightarrow> string \<Rightarrow> (string \<times> string) list"
  mp_tags_remove_str :: "(string \<times> string) list \<Rightarrow> string \<Rightarrow> (string \<times> string) list"

record encode_lavc_context =
  options :: encode_opts
  mp_log :: "log_entry list"
  metadata :: "(string \<times> string) list option"
  vo_fps :: real
  avc :: "AVFormatContext option"
  vst :: "nat option"
  ast :: "nat option"
  vcc :: "nat option"
  acc :: "nat option"
  timebase :: AVRational
  vc :: "AVCodec option"
  ac :: "AVCodec option"
  foptions :: AVDictionary
  aoptions :: AVDictionary
  voptions :: AVDictionary
  header_written :: int
  audio_pts_offset :: real
  last_video_in_pts :: real
  last_audio_in_pts :: real
  samples_since_last_pts :: "64 word"
  discontinuity_pts_offset :: real
  abytes :: "64 word"
  vbytes :: "64 word"
  twopass_bytebuffer_a :: "stream_handle option"
  twopass_bytebuffer_v :: "stream_handle option"
  t0 :: real
  frames :: "32 word"
  audioseconds :: real
  expect_video :: bool
  expect_audio :: bool
  video_first :: bool
  audio_first :: bool
  failed :: bool
  finished :: bool
  codec_mem :: "AVCodecContext option list"
  io_calls :: "ext_call list"

section \<open>Option dictionaries\<close>

text \<open>\<^verbatim>\<open>strchr\<close>: the offset of the first occurrence of a character, if there is one.\<close>

definition strchr :: "string \<Rightarrow> char \<Rightarrow> nat option" where
  "strchr s c = (if c \<in> set s then Some (length (takeWhile (\<lambda>x. x \<noteq> c) s)) else None)"

text \<open>The test \<^verbatim>\<open>val[0] == '+' || val[0] == '-'\<close>; the first byte of an empty string is NUL.\<close>

definition has_sign :: "string \<Rightarrow> bool" where
  "has_sign val = (case val of [] \<Rightarrow> False | c # _ \<Rightarrow> c = CHR ''+'' \<or> c = CHR ''-'')"

text \<open>
  \<^verbatim>\<open>snprintf(valuebuf, sizeof(valuebuf), "%.1s(%s)*QP2LAMBDA", ...)\<close> into a buffer of 1024
  bytes: at most 1023 bytes of the formatted text are kept.
\<close>

definition qscale_value :: "string \<Rightarrow> string" where
  "qscale_value val =
     take 1023 (take 1 (if has_sign val then val else [])
                @ ''('' @ (if has_sign val then drop 1 val else val) @ '')*QP2LAMBDA'')"

definition set_to_avdictionary ::
  "extern \<Rightarrow> log_entry list \<Rightarrow> AVDictionary \<Rightarrow> string option \<Rightarrow> string
     \<Rightarrow> int \<times> AVDictionary \<times> log_entry list" where
  "set_to_avdictionary E lg dict key val =
     (case (case key of
              Some k \<Rightarrow> Some (k, val)
            | None \<Rightarrow>
                (case strchr val CHR ''='' of
                   None \<Rightarrow> None
                 | Some n \<Rightarrow> if n \<ge> 1024 then None else Some (take n val, drop (Suc n) val))) of
        None \<Rightarrow>
          (0, dict, lg @ [(MSGL_WARN, ''option '%s' does not contain an equals sign\<newline>'', [Str val])])
      | Some (k, v) \<Rightarrow>
          (let (k', v') = (if k = ''qscale'' then (''global_quality'', qscale_value v) else (k, v));
               lg' = lg @ [(MSGL_V, ''setting value '%s' for key '%s'\<newline>'', [Str v', Str k'])];
               (r, dict') = av_dict_set E dict k' (if v' = [] then None else Some v')
                              (if has_sign v' then AV_DICT_APPEND E else 0)
           in (if r \<ge> 0 then 1 else 0, dict', lg')))"

text \<open>
  \<^verbatim>\<open>value_has_flag\<close>: scan a flag expression such as \<^verbatim>\<open>+pass1-qscale\<close>; the last
  occurrence of the flag decides, with the sign in front of it.
\<close>

function value_has_flag_loop :: "string \<Rightarrow> string \<Rightarrow> bool \<Rightarrow> bool \<Rightarrow> bool" where
  "value_has_flag_loop [] flag state ret = ret"
| "value_has_flag_loop (c # cs) flag state ret =
     (let l = length (takeWhile (\<lambda>x. x \<noteq> CHR ''+'' \<and> x \<noteq> CHR ''-'') (c # cs))
      in if l = 0 then value_has_flag_loop cs flag (c = CHR ''+'') ret
         else value_has_flag_loop (drop l (c # cs)) flag state
                (if l = length flag \<and> take l (c # cs) = flag then state else ret))"
  by pat_completeness auto
termination
  by (relation "measure (\<lambda>(v, f, s, r). length v)") auto

definition value_has_flag :: "string \<Rightarrow> string \<Rightarrow> bool" where
  "value_has_flag val flag = value_has_flag_loop val flag True False"

section \<open>Logging, external calls, memory\<close>

definition mp_msg ::
  "msglevel \<Rightarrow> string \<Rightarrow> fmt_arg list \<Rightarrow> encode_lavc_context \<Rightarrow> encode_lavc_context" where
  "mp_msg lev fmt args ctx = ctx\<lparr>mp_log := mp_log ctx @ [(lev, fmt, args)]\<rparr>"

definition ext :: "ext_call \<Rightarrow> encode_lavc_context \<Rightarrow> encode_lavc_context" where
  "ext c ctx = ctx\<lparr>io_calls := io_calls ctx @ [c]\<rparr>"

definition codec_at :: "encode_lavc_context \<Rightarrow> nat \<Rightarrow> AVCodecContext option" where
  "codec_at ctx p = (if p < length (codec_mem ctx) then codec_mem ctx ! p else None)"

definition stream_at :: "AVFormatContext \<Rightarrow> nat \<Rightarrow> AVStream option" where
  "stream_at a i = (if i < length (streams a) then Some (streams a ! i) else None)"

text \<open>
  The contract of \<^verbatim>\<open>avformat_new_stream\<close> that the file relies on: the new stream is added
  at the end of the muxer's stream array, its index is its position there, and its media
  type is still unknown.
\<close>

definition fresh_stream :: "nat \<Rightarrow> AVStream" where
  "fresh_stream n =
     \<lparr>st_index = int n, st_time_base = \<lparr>num = 0, den = 0\<rparr>,
      codecpar_codec_type = AVMEDIA_TYPE_UNKNOWN\<rparr>"

definition avformat_new_stream :: "AVFormatContext \<Rightarrow> AVFormatContext \<times> nat" where
  "avformat_new_stream a =
     (a\<lparr>streams := streams a @ [fresh_stream (length (streams a))]\<rparr>, length (streams a))"

definition new_stream :: "encode_lavc_context \<Rightarrow> (encode_lavc_context \<times> nat) option" where
  "new_stream ctx =
     do { a \<leftarrow> avc ctx;
          let (a', i) = avformat_new_stream a;
          Some (ctx\<lparr>avc := Some a'\<rparr>, i) }"

section \<open>The guard of the public operations\<close>

text \<open>\<^verbatim>\<open>CHECK_FAIL\<close> and \<^verbatim>\<open>CHECK_FAIL_UNLOCK\<close>: the test, and the message logged before bailing out.\<close>

definition CHECK_FAIL :: "encode_lavc_context \<Rightarrow> bool" where
  "CHECK_FAIL ctx = (failed ctx \<or> finished ctx)"

definition bail_out :: "encode_lavc_context \<Rightarrow> encode_lavc_context" where
  "bail_out ctx =
     mp_msg MSGL_ERR ''Called a function on a %s encoding context. Bailing out.\<newline>''
       [Str (if failed ctx then ''failed'' else ''finished'')] ctx"

definition encode_lavc_available :: "encode_lavc_context \<Rightarrow> int \<times> encode_lavc_context" where
  "encode_lavc_available ctx =
     (if CHECK_FAIL ctx then (0, bail_out ctx)
      else (if avc ctx \<noteq> None then 1 else 0, ctx))"

definition encode_lavc_oformat_flags :: "encode_lavc_context \<Rightarrow> 32 word \<times> encode_lavc_context" where
  "encode_lavc_oformat_flags ctx =
     (if CHECK_FAIL ctx then (0, bail_out ctx)
      else (case avc ctx of Some a \<Rightarrow> of_flags (oformat a) | None \<Rightarrow> 0, ctx))"

section \<open>Finish and fail\<close>

text \<open>
  Lines 404 to 409 and 414 to 419, and again lines 783 to 787 and 790 to 794: the
  statistics that a codec has put out go to its channel, when there are both.
\<close>

definition flush_stats ::
  "stream_handle option \<Rightarrow> AVCodecContext \<Rightarrow> encode_lavc_context \<Rightarrow> encode_lavc_context" where
  "flush_stats bytebuf cc c =
     (case bytebuf of
        None \<Rightarrow> c
      | Some s \<Rightarrow>
          (case stats_out cc of
             None \<Rightarrow> c
           | Some stats \<Rightarrow> ext (StreamWriteBuffer s stats) c))"

text \<open>Lines 403 to 411: the video codec context is flushed and freed.\<close>

definition free_vcc :: "encode_lavc_context \<Rightarrow> encode_lavc_context option" where
  "free_vcc c =
     (case vcc c of
        None \<Rightarrow> Some c
      | Some p \<Rightarrow> do {
          cc \<leftarrow> codec_at c p;
          Some ((flush_stats (twopass_bytebuffer_v c) cc c)
                  \<lparr>vcc := None, codec_mem := (codec_mem c)[p := None]\<rparr>) })"

text \<open>Lines 413 to 421: the same for the audio codec context.\<close>

definition free_acc :: "encode_lavc_context \<Rightarrow> encode_lavc_context option" where
  "free_acc c =
     (case acc c of
        None \<Rightarrow> Some c
      | Some p \<Rightarrow> do {
          cc \<leftarrow> codec_at c p;
          Some ((flush_stats (twopass_bytebuffer_a c) cc c)
                  \<lparr>acc := None, codec_mem := (codec_mem c)[p := None]\<rparr>) })"

text \<open>Lines 429 to 437: the statistics channels are closed.\<close>

definition close_twopass :: "encode_lavc_context \<Rightarrow> encode_lavc_context" where
  "close_twopass c =
     (let c1 = (case twopass_bytebuffer_v c of
                  None \<Rightarrow> c
                | Some s \<Rightarrow> (ext (FreeStream s) c)\<lparr>twopass_bytebuffer_v := None\<rparr>)
      in case twopass_bytebuffer_a c1 of
           None \<Rightarrow> c1
         | Some s \<Rightarrow> (ext (FreeStream s) c1)\<lparr>twopass_bytebuffer_a := None\<rparr>)"

text \<open>Lines 439 to 451: the sizes are logged, the output is closed, the muxer is freed.\<close>

definition close_output ::
  "extern \<Rightarrow> AVFormatContext \<Rightarrow> encode_lavc_context \<Rightarrow> encode_lavc_context" where
  "close_output E a c =
     (let c1 = mp_msg MSGL_INFO ''vo-lavc: encoded %lld bytes\<newline>'' [Num (sint (vbytes c))] c;
          c2 = mp_msg MSGL_INFO ''ao-lavc: encoded %lld bytes\<newline>'' [Num (sint (abytes c))] c1;
          c3 = (case pb a of
                  None \<Rightarrow> c2
                | Some p \<Rightarrow>
                    ext (AvioClose p)
                      (mp_msg MSGL_INFO ''muxing overhead %lld bytes\<newline>''
                         [Num (sint (avio_size E p - vbytes c - abytes c))] c2))
      in c3\<lparr>avc := None\<rparr>)"

definition encode_lavc_finish :: "extern \<Rightarrow> encode_lavc_context \<Rightarrow> encode_lavc_context option" where
  "encode_lavc_finish E ctx =
     (if finished ctx then Some ctx
      else do {
        ctx' \<leftarrow>
          (case avc ctx of
             None \<Rightarrow> Some ctx
           | Some a \<Rightarrow> do {
               c2 \<leftarrow> free_vcc (if header_written ctx > 0 then ext AvWriteTrailer ctx else ctx);
               c3 \<leftarrow> free_acc c2;
               Some (close_output E a (close_twopass (c3\<lparr>vst := None, ast := None\<rparr>))) });
        Some (ctx'\<lparr>finished := True\<rparr>) })"

definition encode_lavc_fail ::
  "extern \<Rightarrow> encode_lavc_context \<Rightarrow> string \<Rightarrow> fmt_arg list \<Rightarrow> encode_lavc_context option" where
  "encode_lavc_fail E ctx fmt args =
     (let c = mp_msg MSGL_ERR fmt args ctx
      in if failed c then Some c else encode_lavc_finish E (c\<lparr>failed := True\<rparr>))"

text \<open>
  \<^verbatim>\<open>encode_lavc_free\<close>: the state in which the session's memory is released; the session
  does not exist afterwards.
\<close>

definition encode_lavc_free :: "extern \<Rightarrow> encode_lavc_context \<Rightarrow> encode_lavc_context option" where
  "encode_lavc_free E ctx =
     (if \<not> finished ctx
      then encode_lavc_fail E ctx ''called encode_lavc_free without encode_lavc_finish\<newline>'' []
      else Some ctx)"

section \<open>Writing the header\<close>

text \<open>
  Lines 319 to 334: the message of the failure when an expected stream is missing and its
  codec was wanted.
\<close>

definition expected_stream_missing ::
  "extern \<Rightarrow> AVFormatContext \<Rightarrow> encode_lavc_context \<Rightarrow> string option" where
  "expected_stream_missing E a ctx =
     (if expect_video ctx \<and> vcc ctx = None \<and>
         (video_codec (oformat a) \<noteq> AV_CODEC_ID_NONE E \<or> vcodec (options ctx) \<noteq> None)
      then Some ''no video stream succeeded - invalid codec?\<newline>''
      else if expect_audio ctx \<and> acc ctx = None \<and>
         (audio_codec (oformat a) \<noteq> AV_CODEC_ID_NONE E \<or> acodec (options ctx) \<noteq> None)
      then Some ''no audio stream succeeded - invalid codec?\<newline>''
      else None)"

text \<open>
  Lines 338 to 348: the output file is opened unless the format needs none; the result is
  the code of \<^verbatim>\<open>avio_open\<close> (0 when it is not called).
\<close>

definition open_output ::
  "extern \<Rightarrow> AVFormatContext \<Rightarrow> encode_lavc_context \<Rightarrow> int \<times> encode_lavc_context" where
  "open_output E a c =
     (if of_flags (oformat a) AND AVFMT_NOFILE E = 0
      then (fst (avio_open E (url a)),
            (ext (AvioOpen (url a)) (mp_msg MSGL_INFO ''Opening output file: %s\<newline>'' [Str (url a)] c))
              \<lparr>avc := Some (a\<lparr>pb := snd (avio_open E (url a))\<rparr>)\<rparr>)
      else (0, c))"

text \<open>Lines 355 to 360: the session's metadata is copied into the muxer's dictionary.\<close>

definition copy_metadata_to_muxer ::
  "extern \<Rightarrow> (string \<times> string) list option \<Rightarrow> AVFormatContext \<Rightarrow> AVFormatContext" where
  "copy_metadata_to_muxer E md a =
     (case md of
        None \<Rightarrow> a
      | Some kvs \<Rightarrow>
          a\<lparr>av_metadata :=
               fold (\<lambda>kv d. snd (av_dict_set E d (fst kv) (Some (snd kv)) 0)) kvs (av_metadata a)\<rparr>)"

text \<open>The loops that warn about every entry left in an option dictionary.\<close>

definition warn_unused ::
  "string \<Rightarrow> AVDictionary \<Rightarrow> encode_lavc_context \<Rightarrow> encode_lavc_context" where
  "warn_unused fmt d c = c\<lparr>mp_log := mp_log c @ map (\<lambda>de. (MSGL_WARN, fmt, [Str (fst de)])) d\<rparr>"

text \<open>Lines 350 to 373 of \<^verbatim>\<open>encode_lavc_start\<close>: metadata, header, unused options.\<close>

definition start_write_header ::
  "extern \<Rightarrow> encode_lavc_context \<Rightarrow> (int \<times> encode_lavc_context) option" where
  "start_write_header E ctx =
     do {
       a \<leftarrow> avc ctx;
       let c2 = mp_msg MSGL_INFO ''Opening muxer: %s [%s]\<newline>''
                  [Str (of_long_name (oformat a)), Str (of_name (oformat a))]
                  (ctx\<lparr>t0 := mp_time_sec E\<rparr>);
       let a' = copy_metadata_to_muxer E (metadata c2) a;
       let hdr = avformat_write_header E a' (foptions c2);
       let c3 = (ext AvformatWriteHeader c2)\<lparr>avc := Some a', foptions := snd hdr\<rparr>;
       if fst hdr < 0
       then do { c4 \<leftarrow> encode_lavc_fail E c3 ''could not write header\<newline>'' []; Some (0, c4) }
       else Some (1, (warn_unused ''ofopts: key '%s' not found.\<newline>'' (foptions c3) c3)
                     \<lparr>foptions := [], header_written := 1\<rparr>)
     }"

definition encode_lavc_start ::
  "extern \<Rightarrow> encode_lavc_context \<Rightarrow> (int \<times> encode_lavc_context) option" where
  "encode_lavc_start E ctx =
     (if header_written ctx < 0 then Some (0, ctx)
      else if header_written ctx > 0 then Some (1, ctx)
      else if CHECK_FAIL ctx then Some (0, bail_out ctx)
      else do {
        a \<leftarrow> avc ctx;
        (case expected_stream_missing E a ctx of
           Some msg \<Rightarrow> do { c \<leftarrow> encode_lavc_fail E ctx msg []; Some (0, c) }
         | None \<Rightarrow>
             (let oo = open_output E a (ctx\<lparr>header_written := - 1\<rparr>)
              in if fst oo < 0
                 then do { c \<leftarrow> encode_lavc_fail E (snd oo) ''could not open '%s'\<newline>'' [Str (url a)];
                           Some (0, c) }
                 else start_write_header E (snd oo))) })"

section \<open>Hints from the producers\<close>

definition encode_lavc_set_video_fps :: "encode_lavc_context \<Rightarrow> real \<Rightarrow> encode_lavc_context" where
  "encode_lavc_set_video_fps ctx f = ctx\<lparr>vo_fps := f\<rparr>"

definition encode_lavc_set_audio_pts :: "encode_lavc_context \<Rightarrow> real \<Rightarrow> encode_lavc_context" where
  "encode_lavc_set_audio_pts ctx p = ctx\<lparr>last_audio_in_pts := p, samples_since_last_pts := 0\<rparr>"

section \<open>Two-pass statistics\<close>

text \<open>
  \<^verbatim>\<open>encode_2pass_prepare\<close>.  The C function receives pointers to the slot's option
  dictionary (\<open>dict\<close>) and statistics channel (\<open>bytebuf\<close>); the model receives their values
  and returns the new ones, which the caller stores back.  The entry \<^verbatim>\<open>de\<close> is looked up
  once, at the top, as in the source (line 483), and \<open>twopass_flags\<close> is the expression
  \<^verbatim>\<open>de ? de->value : ""\<close> of lines 487 and 509.
\<close>

definition twopass_flags :: "extern \<Rightarrow> encode_lavc_context \<Rightarrow> string" where
  "twopass_flags E ctx =
     (case av_dict_get E (voptions ctx) ''flags'' of Some v \<Rightarrow> v | None \<Rightarrow> [])"

text \<open>Line 485: the name of the log file, in a buffer of 1024 bytes.\<close>

definition twopass_log_name :: "AVFormatContext \<Rightarrow> string \<Rightarrow> string" where
  "twopass_log_name a prefix = take 1023 (url a @ ''-'' @ prefix @ ''-pass1.log'')"

text \<open>Lines 488 to 506: pass 2 reads the statistics of pass 1.\<close>

definition prepare_pass2 ::
  "extern \<Rightarrow> AVFormatContext \<Rightarrow> encode_lavc_context \<Rightarrow> AVDictionary \<Rightarrow> nat \<Rightarrow> string
     \<Rightarrow> (encode_lavc_context \<times> AVDictionary \<times> stream_handle option) option" where
  "prepare_pass2 E a ctx dict codec prefix =
     (case stream_open E (twopass_log_name a prefix) of
        None \<Rightarrow> do {
          let c = mp_msg MSGL_WARN
                    ''%s: could not open '%s', disabling 2-pass encoding at pass 2\<newline>''
                    [Str prefix, Str (twopass_log_name a prefix)]
                    (ext (StreamOpen (twopass_log_name a prefix)) ctx);
          cc \<leftarrow> codec_at c codec;
          let st = set_to_avdictionary E (mp_log c) dict (Some ''flags'') ''-pass2'';
          Some (c\<lparr>codec_mem := (codec_mem c)
                     [codec := Some (cc\<lparr>cc_flags := cc_flags cc AND NOT (AV_CODEC_FLAG_PASS2 E)\<rparr>)],
                  mp_log := snd (snd st)\<rparr>,
                fst (snd st), None) }
      | Some s \<Rightarrow> do {
          let c = ext (StreamReadComplete s) (ext (StreamOpen (twopass_log_name a prefix)) ctx);
          c' \<leftarrow>
            (case stream_read_complete E s of
               None \<Rightarrow>
                 Some (mp_msg MSGL_WARN
                         ''%s: could not read '%s', disabling 2-pass encoding at pass 1\<newline>''
                         [Str prefix, Str (url a)] c)
             | Some content \<Rightarrow> do {
                 cc \<leftarrow> codec_at c codec;
                 Some (c\<lparr>codec_mem := (codec_mem c)[codec := Some (cc\<lparr>stats_in := Some content\<rparr>)]\<rparr>) });
          Some (ext (FreeStream s) c', dict, None) })"

text \<open>Lines 510 to 516: pass 1 writes its statistics.\<close>

definition prepare_pass1 ::
  "extern \<Rightarrow> AVFormatContext \<Rightarrow> encode_lavc_context \<Rightarrow> AVDictionary \<Rightarrow> string
     \<Rightarrow> encode_lavc_context \<times> AVDictionary \<times> stream_handle option" where
  "prepare_pass1 E a ctx dict prefix =
     (case open_output_stream E (twopass_log_name a prefix) of
        None \<Rightarrow>
          (let c = mp_msg MSGL_WARN
                     ''%s: could not open '%s', disabling 2-pass encoding at pass 1\<newline>''
                     [Str prefix, Str (url a)]
                     (ext (OpenOutputStream (twopass_log_name a prefix)) ctx);
               st = set_to_avdictionary E (mp_log c) dict (Some ''flags'') ''-pass1''
           in (c\<lparr>mp_log := snd (snd st)\<rparr>, fst (snd st), None))
      | Some s \<Rightarrow> (ext (OpenOutputStream (twopass_log_name a prefix)) ctx, dict, Some s))"

definition encode_2pass_prepare ::
  "extern \<Rightarrow> encode_lavc_context \<Rightarrow> AVDictionary \<Rightarrow> nat \<Rightarrow> stream_handle option \<Rightarrow> string
     \<Rightarrow> (encode_lavc_context \<times> AVDictionary \<times> stream_handle option) option" where
  "encode_2pass_prepare E ctx dict codec bytebuf prefix =
     (case bytebuf of
        Some s \<Rightarrow> Some (ctx, dict, bytebuf)
      | None \<Rightarrow> do {
          a \<leftarrow> avc ctx;
          let fl = twopass_flags E ctx;
          p2 \<leftarrow> (if value_has_flag fl ''pass2''
                 then prepare_pass2 E a ctx dict codec prefix
                 else Some (ctx, dict, None));
          Some (if value_has_flag fl ''pass1''
                then prepare_pass1 E a (fst p2) (fst (snd p2)) prefix
                else p2) })"

section \<open>Stream allocation\<close>

text \<open>The loops over \<^verbatim>\<open>options->vopts\<close> and \<^verbatim>\<open>options->aopts\<close>; \<open>warn\<close> is the format of the warning.\<close>

fun set_option_list ::
  "extern \<Rightarrow> string \<Rightarrow> string list \<Rightarrow> log_entry list \<Rightarrow> AVDictionary
     \<Rightarrow> AVDictionary \<times> log_entry list" where
  "set_option_list E warn [] lg d = (d, lg)"
| "set_option_list E warn (p # ps) lg d =
     (let (r, d', lg') = set_to_avdictionary E lg d None p
      in set_option_list E warn ps
           (if r = 0 then lg' @ [(MSGL_WARN, warn, [Str p])] else lg') d')"

text \<open>
  Lines 619 to 631 and 654 to 666: the option dictionary of a slot, from the option
  strings, with the flags added for a quality setting and for global headers.
\<close>

definition slot_options ::
  "extern \<Rightarrow> string \<Rightarrow> string list option \<Rightarrow> AVFormatContext \<Rightarrow> log_entry list
     \<Rightarrow> AVDictionary \<times> log_entry list" where
  "slot_options E warn opts a lg =
     (let s1 = (case opts of None \<Rightarrow> ([], lg) | Some ps \<Rightarrow> set_option_list E warn ps lg []);
          s2 = (case av_dict_get E (fst s1) ''global_quality'' of
                  None \<Rightarrow> s1
                | Some q \<Rightarrow> snd (set_to_avdictionary E (snd s1) (fst s1) (Some ''flags'') ''+qscale''))
      in if of_flags (oformat a) AND AVFMT_GLOBALHEADER E \<noteq> 0
         then snd (set_to_avdictionary E (snd s2) (fst s2) (Some ''flags'') ''+global_header'')
         else s2)"

text \<open>
  An entry of the array \<^verbatim>\<open>supported_framerates\<close>, which ends with the rational 0/0; the
  list holds the entries before that end mark.
\<close>

definition framerate_at :: "AVRational list \<Rightarrow> nat \<Rightarrow> AVRational option" where
  "framerate_at fr i =
     (if i < length fr then Some (fr ! i)
      else if i = length fr then Some \<lparr>num = 0, den = 0\<rparr>
      else None)"

text \<open>Lines 574 to 594: the frame rate, with the message that goes with it.\<close>

definition guess_rate :: "extern \<Rightarrow> encode_lavc_context \<Rightarrow> AVRational \<times> log_entry list" where
  "guess_rate E ctx =
     (if fps (options ctx) > 0
      then (av_d2q E (fps (options ctx)) (rate_limit E (fps (options ctx))), [])
      else if autofps (options ctx) \<and> vo_fps ctx > 0
      then (av_d2q E (vo_fps ctx) (rate_limit E (vo_fps ctx)),
            [(MSGL_INFO,
              ''option --ofps not specified but --oautofps is active, using guess of %u/%u\<newline>'',
              [Num (num (av_d2q E (vo_fps ctx) (rate_limit E (vo_fps ctx)))),
               Num (den (av_d2q E (vo_fps ctx) (rate_limit E (vo_fps ctx))))])])
      else (\<lparr>num = 24000, den = 1\<rparr>,
            [(MSGL_INFO,
              ''option --ofps not specified and fps could not be inferred, using guess of %u/%u\<newline>'',
              [Num 24000, Num 1])]))"

text \<open>Lines 596 to 598: the rate is replaced by the nearest one that the video encoder supports.\<close>

definition snap_rate :: "extern \<Rightarrow> encode_lavc_context \<Rightarrow> AVRational \<Rightarrow> AVRational option" where
  "snap_rate E ctx r =
     (case vc ctx of
        None \<Rightarrow> Some r
      | Some v \<Rightarrow>
          (case supported_framerates v of
             None \<Rightarrow> Some r
           | Some fr \<Rightarrow> framerate_at fr (av_find_nearest_q_idx E r fr)))"

text \<open>Lines 571 to 602: the shared timebase is computed when its denominator is 0.\<close>

definition negotiate_timebase ::
  "extern \<Rightarrow> encode_lavc_context \<Rightarrow> encode_lavc_context option" where
  "negotiate_timebase E ctx =
     (if den (timebase ctx) = 0
      then do {
        r \<leftarrow> snap_rate E ctx (fst (guess_rate E ctx));
        Some (ctx\<lparr>mp_log := mp_log ctx @ snd (guess_rate E ctx),
                  timebase := \<lparr>num = den r, den = num r\<rparr>\<rparr>) }
      else Some ctx)"

text \<open>
  Lines 532 to 569: the conditions under which \<^verbatim>\<open>encode_lavc_alloc_stream\<close> gets as far as
  line 571.  The guard has passed, the header latch is 0, the media type is video or audio,
  and the slot of that type has no codec context.
\<close>

definition reaches_negotiation :: "encode_lavc_context \<Rightarrow> AVMediaType \<Rightarrow> bool" where
  "reaches_negotiation ctx mt =
     (\<not> CHECK_FAIL ctx \<and> header_written ctx = 0 \<and>
      (mt = AVMEDIA_TYPE_VIDEO \<and> vcc ctx = None \<or> mt = AVMEDIA_TYPE_AUDIO \<and> acc ctx = None))"

text \<open>Lines 605 to 638: the video case of the second switch.\<close>

definition alloc_video ::
  "extern \<Rightarrow> encode_lavc_context
     \<Rightarrow> ((int \<times> nat option \<times> nat option) \<times> encode_lavc_context) option" where
  "alloc_video E ctx =
     (case vc ctx of
        None \<Rightarrow> do {
          a \<leftarrow> avc ctx;
          if video_codec (oformat a) \<noteq> AV_CODEC_ID_NONE E \<or> vcodec (options ctx) \<noteq> None
          then do { c \<leftarrow> encode_lavc_fail E ctx ''vo-lavc: encoder not found\<newline>'' [];
                    Some ((- 1, None, None), c) }
          else Some ((- 1, None, None), ctx) }
      | Some v \<Rightarrow> do {
          a \<leftarrow> avc ctx;
          i \<leftarrow> vst ctx;
          st \<leftarrow> stream_at a i;
          let p = length (codec_mem ctx);
          let cc = (avcodec_alloc_context3 E v)\<lparr>cc_time_base := timebase ctx\<rparr>;
          let so = slot_options E ''vo-lavc: could not set option %s\<newline>'' (vopts (options ctx)) a
                     (mp_log ctx);
          let c2 = ctx\<lparr>vcc := Some p, codec_mem := codec_mem ctx @ [Some cc],
                       avc := Some (a\<lparr>streams := (streams a)[i := st\<lparr>st_time_base := timebase ctx\<rparr>]\<rparr>),
                       voptions := fst so, mp_log := snd so\<rparr>;
          tp \<leftarrow> encode_2pass_prepare E c2 (voptions c2) p (twopass_bytebuffer_v c2) ''vo-lavc'';
          let c4 = (fst tp)\<lparr>voptions := fst (snd tp), twopass_bytebuffer_v := snd (snd tp)\<rparr>;
          Some ((0, vst c4, vcc c4), c4) })"

text \<open>Lines 640 to 674: the audio case of the second switch.\<close>

definition alloc_audio ::
  "extern \<Rightarrow> encode_lavc_context
     \<Rightarrow> ((int \<times> nat option \<times> nat option) \<times> encode_lavc_context) option" where
  "alloc_audio E ctx =
     (case ac ctx of
        None \<Rightarrow> do {
          a \<leftarrow> avc ctx;
          if audio_codec (oformat a) \<noteq> AV_CODEC_ID_NONE E \<or> acodec (options ctx) \<noteq> None
          then do { c \<leftarrow> encode_lavc_fail E ctx ''ao-lavc: encoder not found\<newline>'' [];
                    Some ((- 1, None, None), c) }
          else Some ((- 1, None, None), ctx) }
      | Some v \<Rightarrow> do {
          a \<leftarrow> avc ctx;
          i \<leftarrow> ast ctx;
          st \<leftarrow> stream_at a i;
          let p = length (codec_mem ctx);
          let cc = (avcodec_alloc_context3 E v)\<lparr>cc_time_base := timebase ctx\<rparr>;
          let so = slot_options E ''ao-lavc: could not set option %s\<newline>'' (aopts (options ctx)) a
                     (mp_log ctx);
          let c2 = ctx\<lparr>acc := Some p, codec_mem := codec_mem ctx @ [Some cc],
                       avc := Some (a\<lparr>streams := (streams a)[i := st\<lparr>st_time_base := timebase ctx\<rparr>]\<rparr>),
                       aoptions := fst so, mp_log := snd so\<rparr>;
          tp \<leftarrow> encode_2pass_prepare E c2 (aoptions c2) p (twopass_bytebuffer_a c2) ''ao-lavc'';
          let c4 = (fst tp)\<lparr>aoptions := fst (snd tp), twopass_bytebuffer_a := snd (snd tp)\<rparr>;
          Some ((0, ast c4, acc c4), c4) })"

text \<open>
  Lines 537 to 550: when the muxer has no stream yet and the other media type must come
  first, a stream is created for it in advance.
\<close>

definition prealloc_other ::
  "encode_lavc_context \<Rightarrow> AVMediaType \<Rightarrow> encode_lavc_context option" where
  "prealloc_other ctx mt =
     do {
       a \<leftarrow> avc ctx;
       if length (streams a) = 0 \<and> mt = AVMEDIA_TYPE_VIDEO \<and> audio_first ctx
       then do {
         n \<leftarrow> new_stream (mp_msg MSGL_INFO ''vo-lavc: preallocated audio stream for later use\<newline>'' [] ctx);
         Some ((fst n)\<lparr>ast := Some (snd n)\<rparr>) }
       else if length (streams a) = 0 \<and> mt = AVMEDIA_TYPE_AUDIO \<and> video_first ctx
       then do {
         n \<leftarrow> new_stream (mp_msg MSGL_INFO ''ao-lavc: preallocated video stream for later use\<newline>'' [] ctx);
         Some ((fst n)\<lparr>vst := Some (snd n)\<rparr>) }
       else Some ctx
     }"

text \<open>Lines 557 to 558 and 563 to 564: the stream of the slot is created unless it exists.\<close>

definition ensure_vst :: "encode_lavc_context \<Rightarrow> encode_lavc_context option" where
  "ensure_vst ctx =
     (if vst ctx = None
      then do { n \<leftarrow> new_stream ctx; Some ((fst n)\<lparr>vst := Some (snd n)\<rparr>) }
      else Some ctx)"

definition ensure_ast :: "encode_lavc_context \<Rightarrow> encode_lavc_context option" where
  "ensure_ast ctx =
     (if ast ctx = None
      then do { n \<leftarrow> new_stream ctx; Some ((fst n)\<lparr>ast := Some (snd n)\<rparr>) }
      else Some ctx)"

text \<open>
  \<^verbatim>\<open>encode_lavc_alloc_stream\<close>: the result is the return code with the two output
  parameters \<^verbatim>\<open>*stream_out\<close> and \<^verbatim>\<open>*codec_out\<close>.
\<close>

definition encode_lavc_alloc_stream ::
  "extern \<Rightarrow> encode_lavc_context \<Rightarrow> AVMediaType
     \<Rightarrow> ((int \<times> nat option \<times> nat option) \<times> encode_lavc_context) option" where
  "encode_lavc_alloc_stream E ctx mt =
     (if CHECK_FAIL ctx then Some ((- 1, None, None), bail_out ctx)
      else if header_written ctx \<noteq> 0 then Some ((- 1, None, None), ctx)
      else do {
        c2 \<leftarrow> prealloc_other ctx mt;
        (case mt of
           AVMEDIA_TYPE_VIDEO \<Rightarrow>
             if vcc c2 \<noteq> None then Some ((- 1, None, None), c2)
             else do {
               c3 \<leftarrow> ensure_vst c2;
               c4 \<leftarrow> negotiate_timebase E c3;
               alloc_video E c4 }
         | AVMEDIA_TYPE_AUDIO \<Rightarrow>
             if acc c2 \<noteq> None then Some ((- 1, None, None), c2)
             else do {
               c3 \<leftarrow> ensure_ast c2;
               c4 \<leftarrow> negotiate_timebase E c3;
               alloc_audio E c4 }
         | _ \<Rightarrow> do {
             c \<leftarrow> encode_lavc_fail E c2 ''requested invalid stream type\<newline>'' [];
             Some ((- 1, None, None), c) }) })"

section \<open>Opening a codec\<close>

text \<open>
  Lines 694 to 713 and 731 to 750: an experimental codec is allowed, with a warning;
  \<open>kind\<close> is \<^verbatim>\<open>VIDEO\<close> or \<^verbatim>\<open>AUDIO\<close>.  Of the long text of the message only the banner line
  is kept.
\<close>

definition allow_experimental ::
  "extern \<Rightarrow> string \<Rightarrow> AVCodec \<Rightarrow> nat \<Rightarrow> AVCodecContext \<Rightarrow> encode_lavc_context \<Rightarrow> encode_lavc_context" where
  "allow_experimental E kind v codec cc c =
     (if capabilities v AND AV_CODEC_CAP_EXPERIMENTAL E \<noteq> 0
      then (mp_msg MSGL_WARN (''**** Experimental '' @ kind @ '' codec selected! ****'') [Str (codec_name v)] c)
             \<lparr>codec_mem := (codec_mem c)
                [codec := Some (cc\<lparr>strict_std_compliance := FF_COMPLIANCE_EXPERIMENTAL E\<rparr>)]\<rparr>
      else c)"

text \<open>
  Lines 716 to 717 and 753 to 754: after a successful \<^verbatim>\<open>avcodec_open2\<close> the parameters of
  the codec context are copied to the stream \<open>i\<close> of the slot.
\<close>

definition copy_parameters ::
  "extern \<Rightarrow> int \<Rightarrow> nat option \<Rightarrow> AVCodecContext \<Rightarrow> encode_lavc_context
     \<Rightarrow> (int \<times> encode_lavc_context) option" where
  "copy_parameters E r slot cc c =
     (if r \<ge> 0
      then do {
        a \<leftarrow> avc c;
        i \<leftarrow> slot;
        st \<leftarrow> stream_at a i;
        let pr = avcodec_parameters_from_context E (codecpar_codec_type st) cc;
        Some (fst pr, c\<lparr>avc := Some (a\<lparr>streams := (streams a)
                                         [i := st\<lparr>codecpar_codec_type := snd pr\<rparr>]\<rparr>)\<rparr>) }
      else Some (r, c))"

text \<open>
  Lines 694 to 717 and 731 to 754, which differ in the names only: the encoder \<open>v\<close> is
  opened on the codec context at \<open>codec\<close> with the option dictionary \<open>opts\<close>; the result
  is the return code with what the library left in the dictionary.
\<close>

definition open_encoder ::
  "extern \<Rightarrow> string \<Rightarrow> AVCodec \<Rightarrow> nat \<Rightarrow> AVDictionary \<Rightarrow> nat option \<Rightarrow> encode_lavc_context
     \<Rightarrow> ((int \<times> AVDictionary) \<times> encode_lavc_context) option" where
  "open_encoder E kind v codec opts slot ctx =
     do {
       cc \<leftarrow> codec_at ctx codec;
       let c2 = allow_experimental E kind v codec cc ctx;
       cc1 \<leftarrow> codec_at c2 codec;
       let op = avcodec_open2 E cc1 v opts;
       rc \<leftarrow> copy_parameters E (fst op) slot (fst (snd op))
              (c2\<lparr>codec_mem := (codec_mem c2)[codec := Some (fst (snd op))]\<rparr>);
       Some ((fst rc, snd (snd op)), snd rc)
     }"

text \<open>Lines 691 to 726: the video case.\<close>

definition open_video_codec ::
  "extern \<Rightarrow> encode_lavc_context \<Rightarrow> nat \<Rightarrow> (int \<times> encode_lavc_context) option" where
  "open_video_codec E ctx codec =
     do {
       v \<leftarrow> vc ctx;
       oe \<leftarrow> open_encoder E ''VIDEO'' v codec (voptions ctx) (vst ctx)
              (mp_msg MSGL_INFO ''Opening video encoder: %s [%s]\<newline>''
                 [Str (codec_long_name v), Str (codec_name v)] ctx);
       Some (fst (fst oe),
             (warn_unused ''ovcopts: key '%s' not found.\<newline>'' (snd (fst oe)) (snd oe))
               \<lparr>voptions := []\<rparr>)
     }"

text \<open>Lines 727 to 763: the audio case.\<close>

definition open_audio_codec ::
  "extern \<Rightarrow> encode_lavc_context \<Rightarrow> nat \<Rightarrow> (int \<times> encode_lavc_context) option" where
  "open_audio_codec E ctx codec =
     do {
       v \<leftarrow> ac ctx;
       oe \<leftarrow> open_encoder E ''AUDIO'' v codec (aoptions ctx) (ast ctx)
              (mp_msg MSGL_INFO ''Opening audio encoder: %s [%s]\<newline>''
                 [Str (codec_long_name v), Str (codec_name v)] ctx);
       Some (fst (fst oe),
             (warn_unused ''oacopts: key '%s' not found.\<newline>'' (snd (fst oe)) (snd oe))
               \<lparr>aoptions := []\<rparr>)
     }"

definition encode_lavc_open_codec ::
  "extern \<Rightarrow> encode_lavc_context \<Rightarrow> nat \<Rightarrow> (int \<times> encode_lavc_context) option" where
  "encode_lavc_open_codec E ctx codec =
     (if CHECK_FAIL ctx then Some (- 1, bail_out ctx)
      else do {
        cc \<leftarrow> codec_at ctx codec;
        rc \<leftarrow> (case codec_type cc of
                 AVMEDIA_TYPE_VIDEO \<Rightarrow> open_video_codec E ctx codec
               | AVMEDIA_TYPE_AUDIO \<Rightarrow> open_audio_codec E ctx codec
               | _ \<Rightarrow> Some (- 1, ctx));
        if fst rc < 0
        then do {
          c' \<leftarrow> encode_lavc_fail E (snd rc) ''unable to open encoder (see above for the cause)\<newline>'' [];
          Some (fst rc, c') }
        else Some (fst rc, snd rc) })"

section \<open>Writing statistics and frames\<close>

definition encode_lavc_write_stats ::
  "encode_lavc_context \<Rightarrow> nat \<Rightarrow> encode_lavc_context option" where
  "encode_lavc_write_stats ctx codec =
     (if CHECK_FAIL ctx then Some (bail_out ctx)
      else do {
        cc \<leftarrow> codec_at ctx codec;
        Some (case codec_type cc of
                AVMEDIA_TYPE_VIDEO \<Rightarrow> flush_stats (twopass_bytebuffer_v ctx) cc ctx
              | AVMEDIA_TYPE_AUDIO \<Rightarrow> flush_stats (twopass_bytebuffer_a ctx) cc ctx
              | _ \<Rightarrow> ctx) })"

text \<open>
  The accounting of \<^verbatim>\<open>encode_lavc_write_frame\<close> (the switch of lines 830 to 843).  The byte
  counter is a \<^verbatim>\<open>long long\<close> to which the \<^verbatim>\<open>int\<close> size is added after sign extension.
\<close>

definition account_frame ::
  "AVStream \<Rightarrow> AVPacket \<Rightarrow> encode_lavc_context \<Rightarrow> encode_lavc_context" where
  "account_frame stream packet ctx =
     (case codecpar_codec_type stream of
        AVMEDIA_TYPE_VIDEO \<Rightarrow>
          ctx\<lparr>vbytes := vbytes ctx + scast (pkt_size packet), frames := frames ctx + 1\<rparr>
      | AVMEDIA_TYPE_AUDIO \<Rightarrow>
          ctx\<lparr>abytes := abytes ctx + scast (pkt_size packet),
              audioseconds := audioseconds ctx
                 + real_of_int (sint (duration packet))
                   * real_of_int (num (st_time_base stream))
                   / real_of_int (den (st_time_base stream))\<rparr>
      | _ \<Rightarrow> ctx)"

text \<open>Lines 816 to 827: the trace message of \<^verbatim>\<open>encode_lavc_write_frame\<close>.\<close>

definition trace_frame ::
  "AVStream \<Rightarrow> AVPacket \<Rightarrow> encode_lavc_context \<Rightarrow> encode_lavc_context" where
  "trace_frame stream packet ctx =
     mp_msg MSGL_TRACE ''write frame: stream %d ptsi %d (%f) dtsi %d (%f) size %d\<newline>''
       [Num (stream_index packet),
        Num (sint (ucast (pts packet) :: 32 word)),
        Dbl (real_of_int (sint (pts packet)) * real_of_int (num (st_time_base stream))
             / real_of_int (den (st_time_base stream))),
        Num (sint (ucast (dts packet) :: 32 word)),
        Dbl (real_of_int (sint (dts packet)) * real_of_int (num (st_time_base stream))
             / real_of_int (den (st_time_base stream))),
        Num (sint (pkt_size packet))] ctx"

definition encode_lavc_write_frame ::
  "extern \<Rightarrow> encode_lavc_context \<Rightarrow> AVStream \<Rightarrow> AVPacket \<Rightarrow> (int \<times> encode_lavc_context) option" where
  "encode_lavc_write_frame E ctx stream packet =
     (if CHECK_FAIL ctx then Some (- 1, bail_out ctx)
      else if st_index stream \<noteq> stream_index packet
      then Some (- 1, mp_msg MSGL_ERR ''Called encode_lavc_write_frame on the wrong stream\<newline>'' [] ctx)
      else if header_written ctx \<le> 0 then Some (- 1, ctx)
      else do {
        let c2 = account_frame stream packet (trace_frame stream packet ctx);
        a \<leftarrow> avc c2;
        let r = av_interleaved_write_frame E a packet;
        Some (r, ext (AvInterleavedWriteFrame packet) c2) })"

section \<open>The remaining public operations\<close>

definition encode_lavc_supports_pixfmt ::
  "extern \<Rightarrow> encode_lavc_context \<Rightarrow> int \<Rightarrow> int \<times> encode_lavc_context" where
  "encode_lavc_supports_pixfmt E ctx pix_fmt =
     (if CHECK_FAIL ctx then (0, bail_out ctx)
      else (case vc ctx of
              None \<Rightarrow> (0, ctx)
            | Some v \<Rightarrow>
                if pix_fmt = AV_PIX_FMT_NONE E then (0, ctx)
                else (case pix_fmts v of
                        None \<Rightarrow> (1, ctx)
                      | Some ps \<Rightarrow> (if pix_fmt \<in> set ps then 1 else 0, ctx))))"

definition encode_lavc_discontinuity :: "extern \<Rightarrow> encode_lavc_context \<Rightarrow> encode_lavc_context" where
  "encode_lavc_discontinuity E ctx =
     (if CHECK_FAIL ctx then bail_out ctx
      else ctx\<lparr>audio_pts_offset := MP_NOPTS_VALUE E,
               last_video_in_pts := MP_NOPTS_VALUE E,
               discontinuity_pts_offset := MP_NOPTS_VALUE E\<rparr>)"

definition encode_lavc_getoffset ::
  "encode_lavc_context \<Rightarrow> nat \<Rightarrow> (real \<times> encode_lavc_context) option" where
  "encode_lavc_getoffset ctx codec =
     (if CHECK_FAIL ctx then Some (0, bail_out ctx)
      else do {
        cc \<leftarrow> codec_at ctx codec;
        Some (case codec_type cc of
                AVMEDIA_TYPE_VIDEO \<Rightarrow> voffset (options ctx)
              | AVMEDIA_TYPE_AUDIO \<Rightarrow> aoffset (options ctx)
              | _ \<Rightarrow> 0, ctx) })"

text \<open>
  \<^verbatim>\<open>encode_lavc_getstatus\<close>: the result is the return code with the text written to the
  caller's buffer of \<open>bufsize\<close> bytes (\<open>None\<close> when the buffer is not written).
\<close>

definition encode_lavc_getstatus ::
  "extern \<Rightarrow> encode_lavc_context \<Rightarrow> nat \<Rightarrow> real
     \<Rightarrow> ((int \<times> string option) \<times> encode_lavc_context) option" where
  "encode_lavc_getstatus E ctx bufsize relative_position =
     (let now = mp_time_sec E;
          f = max 0.0001 relative_position
      in if CHECK_FAIL ctx then Some ((- 1, None), bail_out ctx)
         else do {
           a \<leftarrow> avc ctx;
           let minutes = (now - t0 ctx) / 60 * (1 - f) / f;
           let megabytes = (case pb a of
                              Some p \<Rightarrow> real_of_int (sint (avio_size E p)) / 1048576 / f
                            | None \<Rightarrow> 0);
           let fps = real (unat (frames ctx)) / (now - t0 ctx);
           let x = audioseconds ctx / (now - t0 ctx);
           let text = (if frames ctx \<noteq> 0
                       then snprintf_status E ''{%.1fmin %.1ffps %.1fMB}'' [minutes, fps, megabytes]
                       else if audioseconds ctx \<noteq> 0
                       then snprintf_status E ''{%.1fmin %.2fx %.1fMB}'' [minutes, x, megabytes]
                       else snprintf_status E ''{%.1fmin %.1fMB}'' [minutes, megabytes]);
           if bufsize = 0 then None
           else Some ((0, Some (take (bufsize - 1) text)), ctx) })"

definition encode_lavc_expect_stream ::
  "encode_lavc_context \<Rightarrow> AVMediaType \<Rightarrow> encode_lavc_context" where
  "encode_lavc_expect_stream ctx mt =
     (if CHECK_FAIL ctx then bail_out ctx
      else (case mt of
              AVMEDIA_TYPE_VIDEO \<Rightarrow> ctx\<lparr>expect_video := True\<rparr>
            | AVMEDIA_TYPE_AUDIO \<Rightarrow> ctx\<lparr>expect_audio := True\<rparr>
            | _ \<Rightarrow> ctx))"

definition encode_lavc_didfail :: "encode_lavc_context \<Rightarrow> bool" where
  "encode_lavc_didfail ctx = failed ctx"

definition encode_lavc_set_csp ::
  "extern \<Rightarrow> encode_lavc_context \<Rightarrow> nat \<Rightarrow> int \<Rightarrow> (bool \<times> encode_lavc_context) option" where
  "encode_lavc_set_csp E ctx codec csp =
     (if CHECK_FAIL ctx then Some (False, bail_out ctx)
      else do {
        cc \<leftarrow> codec_at ctx codec;
        if header_written ctx \<noteq> 0
        then Some (False,
                   if colorspace cc \<noteq> mp_csp_to_avcol_spc E csp
                   then mp_msg MSGL_WARN ''can not change color space during encoding\<newline>'' [] ctx
                   else ctx)
        else Some (True, ctx\<lparr>codec_mem := (codec_mem ctx)
                               [codec := Some (cc\<lparr>colorspace := mp_csp_to_avcol_spc E csp\<rparr>)]\<rparr>) })"

definition encode_lavc_set_csp_levels ::
  "extern \<Rightarrow> encode_lavc_context \<Rightarrow> nat \<Rightarrow> int \<Rightarrow> (bool \<times> encode_lavc_context) option" where
  "encode_lavc_set_csp_levels E ctx codec lev =
     (if CHECK_FAIL ctx then Some (False, bail_out ctx)
      else do {
        cc \<leftarrow> codec_at ctx codec;
        if header_written ctx \<noteq> 0
        then Some (False,
                   if color_range cc \<noteq> mp_csp_levels_to_avcol_range E lev
                   then mp_msg MSGL_WARN ''can not change color space during encoding\<newline>'' [] ctx
                   else ctx)
        else Some (True, ctx\<lparr>codec_mem := (codec_mem ctx)
                               [codec := Some (cc\<lparr>color_range := mp_csp_levels_to_avcol_range E lev\<rparr>)]\<rparr>) })"

definition encode_lavc_get_csp ::
  "extern \<Rightarrow> encode_lavc_context \<Rightarrow> nat \<Rightarrow> (int \<times> encode_lavc_context) option" where
  "encode_lavc_get_csp E ctx codec =
     (if CHECK_FAIL ctx then Some (0, bail_out ctx)
      else do { cc \<leftarrow> codec_at ctx codec; Some (avcol_spc_to_mp_csp E (colorspace cc), ctx) })"

definition encode_lavc_get_csp_levels ::
  "extern \<Rightarrow> encode_lavc_context \<Rightarrow> nat \<Rightarrow> (int \<times> encode_lavc_context) option" where
  "encode_lavc_get_csp_levels E ctx codec =
     (if CHECK_FAIL ctx then Some (0, bail_out ctx)
      else do { cc \<leftarrow> codec_at ctx codec; Some (avcol_range_to_mp_csp_levels E (color_range cc), ctx) })"

section \<open>Creating the session\<close>

text \<open>\<^verbatim>\<open>talloc_zero\<close>: every field is zero.\<close>

definition zero_context :: encode_lavc_context where
  "zero_context =
     \<lparr> options = \<lparr> file_name = [], format = None, fopts = None, fps = 0, vcodec = None,
                    vopts = None, acodec = None, aopts = None, voffset = 0, aoffset = 0,
                    autofps = False, opt_video_first = False, opt_audio_first = False,
                    copy_metadata = False, set_metadata = None, remove_metadata = None \<rparr>,
       mp_log = [], metadata = None, vo_fps = 0, avc = None, vst = None, ast = None,
       vcc = None, acc = None, timebase = \<lparr>num = 0, den = 0\<rparr>, vc = None, ac = None,
       foptions = [], aoptions = [], voptions = [], header_written = 0,
       audio_pts_offset = 0, last_video_in_pts = 0, last_audio_in_pts = 0,
       samples_since_last_pts = 0, discontinuity_pts_offset = 0, abytes = 0, vbytes = 0,
       twopass_bytebuffer_a = None, twopass_bytebuffer_v = None, t0 = 0, frames = 0,
       audioseconds = 0, expect_video = False, expect_audio = False, video_first = False,
       audio_first = False, failed = False, finished = False, codec_mem = [], io_calls = [] \<rparr>"

text \<open>
  The loops of \<^verbatim>\<open>encode_lavc_init\<close> over the tokens of a comma-separated list: the first
  token that the lookup accepts wins.
\<close>

fun first_found :: "(string \<Rightarrow> 'a option) \<Rightarrow> string list \<Rightarrow> 'a option" where
  "first_found f [] = None"
| "first_found f (tok # toks) = (case f tok of Some x \<Rightarrow> Some x | None \<Rightarrow> first_found f toks)"

definition find_encoder :: "extern \<Rightarrow> AVMediaType \<Rightarrow> string \<Rightarrow> AVCodec option" where
  "find_encoder E mt tok =
     (case avcodec_find_encoder_by_name E tok of
        None \<Rightarrow> None
      | Some c \<Rightarrow> if codec_mtype c \<noteq> mt then None else Some c)"

text \<open>
  The steps of \<^verbatim>\<open>encode_lavc_init\<close>: the file name (lines 164 to 170), the zeroed context
  after \<^verbatim>\<open>encode_lavc_discontinuity\<close> with its options (lines 172 to 183), the output format
  (lines 187 to 200), the muxer options (lines 209 to 216) and the encoder of a media type
  (lines 218 to 254).
\<close>

definition init_filename :: "encode_opts \<Rightarrow> string" where
  "init_filename opts = (if file_name opts = ''-'' then ''pipe:1'' else file_name opts)"

definition init_context :: "extern \<Rightarrow> encode_opts \<Rightarrow> encode_lavc_context" where
  "init_context E opts =
     (encode_lavc_discontinuity E
        (if init_filename opts = ''/dev/stdout'' \<or> init_filename opts = ''pipe:''
            \<or> init_filename opts = ''pipe:1''
         then ext MpMsgForceStderr zero_context else zero_context))\<lparr>options := opts\<rparr>"

definition init_format :: "extern \<Rightarrow> encode_opts \<Rightarrow> AVOutputFormat option" where
  "init_format E opts =
     (case format opts of
        Some f \<Rightarrow> if f = [] then None
                  else first_found (\<lambda>tok. av_guess_format E (Some tok) (init_filename opts))
                         (av_tokens E f)
      | None \<Rightarrow> av_guess_format E None (init_filename opts))"

definition init_foptions ::
  "extern \<Rightarrow> encode_opts \<Rightarrow> log_entry list \<Rightarrow> AVDictionary \<times> log_entry list" where
  "init_foptions E opts lg =
     (case fopts opts of
        None \<Rightarrow> ([], lg)
      | Some ps \<Rightarrow> set_option_list E ''could not set option %s\<newline>'' ps lg [])"

definition init_encoder ::
  "extern \<Rightarrow> AVMediaType \<Rightarrow> string option \<Rightarrow> AVOutputFormat \<Rightarrow> string \<Rightarrow> AVCodec option" where
  "init_encoder E mt names f filename =
     (case names of
        Some n \<Rightarrow> if n = [] then None else first_found (find_encoder E mt) (av_tokens E n)
      | None \<Rightarrow> default_encoder E f filename mt)"

text \<open>
  \<^verbatim>\<open>encode_lavc_init\<close>; the result is \<open>None\<close> where the C function returns \<^verbatim>\<open>NULL\<close> (no
  format, or neither an audio nor a video encoder).
\<close>

definition encode_lavc_init :: "extern \<Rightarrow> encode_opts \<Rightarrow> encode_lavc_context option" where
  "encode_lavc_init E opts =
     (case init_format E opts of
        None \<Rightarrow> None
      | Some f \<Rightarrow>
          if init_encoder E AVMEDIA_TYPE_VIDEO (vcodec opts) f (init_filename opts) = None \<and>
             init_encoder E AVMEDIA_TYPE_AUDIO (acodec opts) f (init_filename opts) = None
          then None
          else Some ((init_context E opts)
                 \<lparr> avc := Some \<lparr>oformat = f, url = init_filename opts, pb = None, streams = [],
                                av_metadata = []\<rparr>,
                   foptions := fst (init_foptions E opts (mp_log (init_context E opts))),
                   mp_log := snd (init_foptions E opts (mp_log (init_context E opts))),
                   vc := init_encoder E AVMEDIA_TYPE_VIDEO (vcodec opts) f (init_filename opts),
                   ac := init_encoder E AVMEDIA_TYPE_AUDIO (acodec opts) f (init_filename opts),
                   abytes := 0, vbytes := 0, frames := 0,
                   video_first := (opt_video_first opts \<or> video_first (init_context E opts)),
                   audio_first := (opt_audio_first opts \<or> audio_first (init_context E opts)) \<rparr>))"

definition encode_lavc_set_metadata ::
  "extern \<Rightarrow> encode_lavc_context \<Rightarrow> (string \<times> string) list \<Rightarrow> encode_lavc_context" where
  "encode_lavc_set_metadata E ctx md =
     (let m0 = (if copy_metadata (options ctx) then md else []);
          kvs = (case set_metadata (options ctx) of None \<Rightarrow> [] | Some l \<Rightarrow> l);
          ks = (case remove_metadata (options ctx) of None \<Rightarrow> [] | Some l \<Rightarrow> l);
          m1 = fold (\<lambda>kv m. mp_tags_set_str E m (fst kv) (snd kv)) kvs m0;
          m2 = fold (\<lambda>k m. mp_tags_remove_str E m k) ks m1
      in ctx\<lparr>metadata := Some m2,
             mp_log := mp_log ctx
               @ map (\<lambda>kv. (MSGL_V, ''setting metadata value '%s' for key '%s'\<newline>'',
                             [Str (fst kv), Str (snd kv)])) kvs
               @ map (\<lambda>k. (MSGL_V, ''removing metadata key '%s'\<newline>'', [Str k])) ks\<rparr>)"

section \<open>Sequences of operations\<close>

text \<open>
  The public operations on an existing session, with their arguments, and what they
  return.  A codec context is named by its address, a stream is passed by value.
\<close>

datatype operation =
    Start
  | AllocStream AVMediaType
  | OpenCodec nat
  | WriteFrame AVStream AVPacket
  | WriteStats nat
  | GetStatus nat real
  | Discontinuity
  | ExpectStream AVMediaType
  | SetCsp nat int
  | SetCspLevels nat int
  | GetCsp nat
  | GetCspLevels nat
  | Available
  | OformatFlags
  | SupportsPixfmt int
  | GetOffset nat
  | DidFail
  | SetVideoFps real
  | SetAudioPts real
  | SetMetadata "(string \<times> string) list"
  | Finish
  | Fail string "fmt_arg list"

datatype result =
    RVoid
  | RInt int
  | RBool bool
  | RReal real
  | RFlags "32 word"
  | RAlloc int "nat option" "nat option"
  | RStatus int "string option"

fun exec ::
  "extern \<Rightarrow> operation \<Rightarrow> encode_lavc_context \<Rightarrow> (result \<times> encode_lavc_context) option" where
  "exec E Start c = map_option (\<lambda>(r, c'). (RInt r, c')) (encode_lavc_start E c)"
| "exec E (AllocStream mt) c =
     map_option (\<lambda>((r, s, k), c'). (RAlloc r s k, c')) (encode_lavc_alloc_stream E c mt)"
| "exec E (OpenCodec p) c = map_option (\<lambda>(r, c'). (RInt r, c')) (encode_lavc_open_codec E c p)"
| "exec E (WriteFrame st pkt) c =
     map_option (\<lambda>(r, c'). (RInt r, c')) (encode_lavc_write_frame E c st pkt)"
| "exec E (WriteStats p) c = map_option (\<lambda>c'. (RVoid, c')) (encode_lavc_write_stats c p)"
| "exec E (GetStatus n f) c =
     map_option (\<lambda>((r, b), c'). (RStatus r b, c')) (encode_lavc_getstatus E c n f)"
| "exec E Discontinuity c = Some (RVoid, encode_lavc_discontinuity E c)"
| "exec E (ExpectStream mt) c = Some (RVoid, encode_lavc_expect_stream c mt)"
| "exec E (SetCsp p v) c = map_option (\<lambda>(r, c'). (RBool r, c')) (encode_lavc_set_csp E c p v)"
| "exec E (SetCspLevels p v) c =
     map_option (\<lambda>(r, c'). (RBool r, c')) (encode_lavc_set_csp_levels E c p v)"
| "exec E (GetCsp p) c = map_option (\<lambda>(r, c'). (RInt r, c')) (encode_lavc_get_csp E c p)"
| "exec E (GetCspLevels p) c =
     map_option (\<lambda>(r, c'). (RInt r, c')) (encode_lavc_get_csp_levels E c p)"
| "exec E Available c = Some (case encode_lavc_available c of (r, c') \<Rightarrow> (RInt r, c'))"
| "exec E OformatFlags c = Some (case encode_lavc_oformat_flags c of (r, c') \<Rightarrow> (RFlags r, c'))"
| "exec E (SupportsPixfmt f) c =
     Some (case encode_lavc_supports_pixfmt E c f of (r, c') \<Rightarrow> (RInt r, c'))"
| "exec E (GetOffset p) c = map_option (\<lambda>(r, c'). (RReal r, c')) (encode_lavc_getoffset c p)"
| "exec E DidFail c = Some (RBool (encode_lavc_didfail c), c)"
| "exec E (SetVideoFps f) c = Some (RVoid, encode_lavc_set_video_fps c f)"
| "exec E (SetAudioPts p) c = Some (RVoid, encode_lavc_set_audio_pts c p)"
| "exec E (SetMetadata md) c = Some (RVoid, encode_lavc_set_metadata E c md)"
| "exec E Finish c = map_option (\<lambda>c'. (RVoid, c')) (encode_lavc_finish E c)"
| "exec E (Fail fmt args) c = map_option (\<lambda>c'. (RVoid, c')) (encode_lavc_fail E c fmt args)"

text \<open>
  A sequence of calls; each call comes with the behaviour of the outside world during
  that call.
\<close>

fun run ::
  "(extern \<times> operation) list \<Rightarrow> encode_lavc_context \<Rightarrow> encode_lavc_context option" where
  "run [] c = Some c"
| "run (x # xs) c =
     (case exec (fst x) (snd x) c of None \<Rightarrow> None | Some rc \<Rightarrow> run xs (snd rc))"

text \<open>The sessions that \<^verbatim>\<open>encode_lavc_init\<close> returns, after any sequence of operations.\<close>

inductive reachable :: "encode_lavc_context \<Rightarrow> bool" where
  reachable_init: "encode_lavc_init E opts = Some c \<Longrightarrow> reachable c"
| reachable_step: "reachable c \<Longrightarrow> exec E x c = Some (r, c') \<Longrightarrow> reachable c'"

section \<open>A concrete outside world\<close>

text \<open>
  An instance of the external functions, used to run the model on concrete sessions: the
  dictionary is an association list with exact keys, every I/O call succeeds, the file
  \<^verbatim>\<open>out.mp3\<close> selects an audio-only format and every other name a format with video and
  audio.  Here \<open>av_d2q\<close> gives the integer part of the rate over 1; for the rates 25 and
  48000 and for a positive rate below \<open>2 ^ - 62\<close>, the only ones used below, that is the
  rational that the library computes (\<open>25/1\<close>, \<open>48000/1\<close> and \<open>0/1\<close>).
\<close>

definition dict_get :: "AVDictionary \<Rightarrow> string \<Rightarrow> string option" where
  "dict_get d key = map_of d key"

definition dict_set :: "AVDictionary \<Rightarrow> string \<Rightarrow> string option \<Rightarrow> int \<Rightarrow> int \<times> AVDictionary" where
  "dict_set d key val fl =
     (case val of
        None \<Rightarrow> (0, filter (\<lambda>e. fst e \<noteq> key) d)
      | Some v \<Rightarrow>
          (0, filter (\<lambda>e. fst e \<noteq> key) d
              @ [(key, (if fl = 32 then (case map_of d key of Some old \<Rightarrow> old | None \<Rightarrow> []) else []) @ v)]))"

definition video_encoder :: AVCodec where
  "video_encoder =
     \<lparr> codec_name = ''libx264'', codec_long_name = ''H.264'', codec_mtype = AVMEDIA_TYPE_VIDEO,
       capabilities = 0, supported_framerates = None, pix_fmts = None \<rparr>"

definition audio_encoder :: AVCodec where
  "audio_encoder =
     \<lparr> codec_name = ''aac'', codec_long_name = ''AAC'', codec_mtype = AVMEDIA_TYPE_AUDIO,
       capabilities = 0, supported_framerates = None, pix_fmts = None \<rparr>"

definition plain_extern :: extern where
  "plain_extern =
     \<lparr> AV_DICT_APPEND = 32, AVFMT_NOFILE = 1, AVFMT_GLOBALHEADER = 64,
       AV_CODEC_FLAG_PASS2 = 1024, AV_CODEC_CAP_EXPERIMENTAL = 512,
       FF_COMPLIANCE_EXPERIMENTAL = - 2, AV_CODEC_ID_NONE = 0, AV_PIX_FMT_NONE = - 1,
       MP_NOPTS_VALUE = - (2 ^ 63),
       av_dict_set = dict_set, av_dict_get = dict_get,
       av_d2q = (\<lambda>d m. \<lparr>num = \<lfloor>d\<rfloor>, den = 1\<rparr>),
       rate_limit = (\<lambda>x. \<lfloor>x * 1001 + 2\<rfloor>),
       av_find_nearest_q_idx = (\<lambda>q qs. 0),
       avio_open = (\<lambda>u. (0, Some 0)),
       avio_size = (\<lambda>p. 0),
       avformat_write_header = (\<lambda>a d. (0, [])),
       av_interleaved_write_frame = (\<lambda>a p. 0),
       stream_open = (\<lambda>p. Some 1),
       open_output_stream = (\<lambda>p. Some 2),
       stream_read_complete = (\<lambda>s. Some []),
       avcodec_alloc_context3 =
         (\<lambda>c. \<lparr> codec_type = codec_mtype c, cc_time_base = \<lparr>num = 0, den = 1\<rparr>, cc_flags = 0,
                stats_in = None, stats_out = None, strict_std_compliance = 0,
                colorspace = 2, color_range = 0 \<rparr>),
       avcodec_open2 = (\<lambda>cc c d. (0, cc, [])),
       avcodec_parameters_from_context = (\<lambda>par cc. (0, codec_type cc)),
       mp_time_sec = 0,
       mp_csp_to_avcol_spc = (\<lambda>c. c),
       mp_csp_levels_to_avcol_range = (\<lambda>c. c),
       avcol_spc_to_mp_csp = (\<lambda>c. c),
       avcol_range_to_mp_csp_levels = (\<lambda>c. c),
       snprintf_status = (\<lambda>f xs. f),
       av_tokens = (\<lambda>s. [s]),
       av_guess_format =
         (\<lambda>n f. if f = ''out.mp3''
                then Some \<lparr> of_name = ''mp3'', of_long_name = ''MP3'', of_flags = 0,
                            video_codec = 0, audio_codec = 1 \<rparr>
                else Some \<lparr> of_name = ''matroska'', of_long_name = ''Matroska'', of_flags = 64,
                            video_codec = 2, audio_codec = 1 \<rparr>),
       avcodec_find_encoder_by_name = (\<lambda>n. None),
       default_encoder =
         (\<lambda>f u mt. if mt = AVMEDIA_TYPE_VIDEO \<and> video_codec f \<noteq> 0 then Some video_encoder
                   else if mt = AVMEDIA_TYPE_AUDIO \<and> audio_codec f \<noteq> 0 then Some audio_encoder
                   else None),
       mp_tags_set_str = (\<lambda>m k v. m @ [(k, v)]),
       mp_tags_remove_str = (\<lambda>m k. filter (\<lambda>e. fst e \<noteq> k) m) \<rparr>"

definition plain_opts :: "string \<Rightarrow> encode_opts" where
  "plain_opts f =
     \<lparr> file_name = f, format = None, fopts = None, fps = 0, vcodec = None, vopts = None,
       acodec = None, aopts = None, voffset = 0, aoffset = 0, autofps = False,
       opt_video_first = False, opt_audio_first = False, copy_metadata = True,
       set_metadata = None, remove_metadata = None \<rparr>"

section \<open>Invariants of a session\<close>

text \<open>
  The pointers of a session fit together: a session that is not finished has its muxer,
  the codec contexts of the slots are allocated and distinct, and the streams of the slots
  are streams of the muxer.
\<close>

definition wf_mem :: "encode_lavc_context \<Rightarrow> bool" where
  "wf_mem c =
     ((\<not> finished c \<longrightarrow> avc c \<noteq> None) \<and>
      (\<forall>p. vcc c = Some p \<longrightarrow> codec_at c p \<noteq> None) \<and>
      (\<forall>p. acc c = Some p \<longrightarrow> codec_at c p \<noteq> None) \<and>
      (vcc c \<noteq> None \<longrightarrow> vcc c \<noteq> acc c) \<and>
      (\<forall>a i. avc c = Some a \<longrightarrow> vst c = Some i \<longrightarrow> i < length (streams a)) \<and>
      (\<forall>a i. avc c = Some a \<longrightarrow> ast c = Some i \<longrightarrow> i < length (streams a)))"

text \<open>
  In addition a failed session is finished, and once the muxer has a stream, one of the
  two media types has been asked for: its encoder is missing or its slot is filled.
\<close>

definition wf :: "encode_lavc_context \<Rightarrow> bool" where
  "wf c =
     ((failed c \<longrightarrow> finished c) \<and> wf_mem c \<and>
      (\<forall>a. avc c = Some a \<longrightarrow> streams a \<noteq> [] \<longrightarrow>
           vc c = None \<or> vcc c \<noteq> None \<or> ac c = None \<or> acc c \<noteq> None))"

text \<open>
  What lasts from a state \<open>c\<close> to a later state \<open>c'\<close>: the configuration, the two latches,
  the header latch once it has left 0 or a latch is set, the timebase once its denominator
  has left 0, and, once the session is finished, the counters, the slots and the list of
  external calls.
\<close>

definition lasting :: "encode_lavc_context \<Rightarrow> encode_lavc_context \<Rightarrow> bool" where
  "lasting c c' =
     (vc c' = vc c \<and> ac c' = ac c \<and> video_first c' = video_first c \<and>
      audio_first c' = audio_first c \<and> options c' = options c \<and>
      (failed c \<longrightarrow> failed c') \<and> (finished c \<longrightarrow> finished c') \<and>
      (header_written c \<noteq> 0 \<or> failed c \<or> finished c \<longrightarrow> header_written c' = header_written c) \<and>
      (den (timebase c) \<noteq> 0 \<longrightarrow> timebase c' = timebase c) \<and>
      (finished c \<longrightarrow>
         timebase c' = timebase c \<and>
         vbytes c' = vbytes c \<and> abytes c' = abytes c \<and> frames c' = frames c \<and>
         audioseconds c' = audioseconds c \<and> avc c' = avc c \<and> vst c' = vst c \<and>
         ast c' = ast c \<and> vcc c' = vcc c \<and> acc c' = acc c \<and> codec_mem c' = codec_mem c \<and>
         io_calls c' = io_calls c))"

text \<open>
  The two ways in which an operation on a running session ends, apart from a change of the
  slots or of the counters.  \<open>torn_down\<close>: the session has failed and is finished, and
  everything is released (the slots when there was a muxer).  \<open>kept\<close>: the latches, the
  timebase, the counters, the configuration and the slots are the same, and the codec
  memory and the streams of the muxer keep their shape.  The header latch is left out of
  both, the timebase out of the first.
\<close>

definition torn_down :: "encode_lavc_context \<Rightarrow> encode_lavc_context \<Rightarrow> bool" where
  "torn_down c c' =
     (finished c' \<and> failed c' \<and>
      vbytes c' = vbytes c \<and> abytes c' = abytes c \<and> frames c' = frames c \<and>
      audioseconds c' = audioseconds c \<and> vc c' = vc c \<and> ac c' = ac c \<and>
      video_first c' = video_first c \<and> audio_first c' = audio_first c \<and>
      options c' = options c \<and> avc c' = None \<and>
      (avc c \<noteq> None \<longrightarrow> vst c' = None \<and> ast c' = None \<and> vcc c' = None \<and> acc c' = None))"

definition kept :: "encode_lavc_context \<Rightarrow> encode_lavc_context \<Rightarrow> bool" where
  "kept c c' =
     (failed c' = failed c \<and> finished c' = finished c \<and> timebase c' = timebase c \<and>
      vbytes c' = vbytes c \<and> abytes c' = abytes c \<and> frames c' = frames c \<and>
      audioseconds c' = audioseconds c \<and> vc c' = vc c \<and> ac c' = ac c \<and>
      video_first c' = video_first c \<and> audio_first c' = audio_first c \<and>
      options c' = options c \<and>
      vst c' = vst c \<and> ast c' = ast c \<and> vcc c' = vcc c \<and> acc c' = acc c \<and>
      length (codec_mem c') = length (codec_mem c) \<and>
      (\<forall>q. codec_at c q \<noteq> None \<longrightarrow> codec_at c' q \<noteq> None) \<and>
      (avc c = None \<longrightarrow> avc c' = None) \<and>
      (\<forall>a. avc c = Some a \<longrightarrow> (\<exists>a'. avc c' = Some a' \<and> length (streams a') = length (streams a))))"

text \<open>
  The steps of a stream allocation before the slot is filled: the latches, the counters,
  the configuration, the codec contexts and the external calls are the same, a timebase
  with a denominator other than 0 is the same, and the pointers still fit together.
\<close>

definition preparing :: "encode_lavc_context \<Rightarrow> encode_lavc_context \<Rightarrow> bool" where
  "preparing c c' =
     (failed c' = failed c \<and> finished c' = finished c \<and>
      header_written c' = header_written c \<and>
      vbytes c' = vbytes c \<and> abytes c' = abytes c \<and> frames c' = frames c \<and>
      audioseconds c' = audioseconds c \<and> vc c' = vc c \<and> ac c' = ac c \<and>
      video_first c' = video_first c \<and> audio_first c' = audio_first c \<and>
      options c' = options c \<and>
      vcc c' = vcc c \<and> acc c' = acc c \<and> codec_mem c' = codec_mem c \<and>
      (avc c' = None) = (avc c = None) \<and>
      (den (timebase c) \<noteq> 0 \<longrightarrow> timebase c' = timebase c) \<and>
      (wf_mem c \<longrightarrow> wf_mem c'))"

text \<open>The time bases of the allocated codec contexts are the same in \<open>c'\<close> as in \<open>c\<close>.\<close>

definition same_time_bases :: "encode_lavc_context \<Rightarrow> encode_lavc_context \<Rightarrow> bool" where
  "same_time_bases c c' =
     (\<forall>q cc. codec_at c q = Some cc \<longrightarrow>
        (\<exists>cc'. codec_at c' q = Some cc' \<and> cc_time_base cc' = cc_time_base cc))"

text \<open>
  The slot of a media type is filled from a state \<open>c\<close>: there is an encoder, the stream of
  the slot is a stream of the muxer, a new codec context is allocated, both get the timebase of \<open>c\<close>, and the
  other slot, the latches, the header latch, the timebase, the counters and the
  configuration are the same.
\<close>

definition filled_video :: "encode_lavc_context \<Rightarrow> encode_lavc_context \<Rightarrow> bool" where
  "filled_video c c' =
     (\<exists>a i. vc c \<noteq> None \<and> avc c = Some a \<and> vst c = Some i \<and> i < length (streams a) \<and>
        vcc c' = Some (length (codec_mem c)) \<and> vst c' = Some i \<and>
        ast c' = ast c \<and> acc c' = acc c \<and>
        avc c' = Some (a\<lparr>streams := (streams a)[i := (streams a ! i)\<lparr>st_time_base := timebase c\<rparr>]\<rparr>) \<and>
        length (codec_mem c') = Suc (length (codec_mem c)) \<and>
        (\<forall>q. codec_at c q \<noteq> None \<longrightarrow> codec_at c' q \<noteq> None) \<and>
        (\<exists>cc. codec_at c' (length (codec_mem c)) = Some cc \<and> cc_time_base cc = timebase c) \<and>
        failed c' = failed c \<and> finished c' = finished c \<and>
        header_written c' = header_written c \<and> timebase c' = timebase c \<and>
        vbytes c' = vbytes c \<and> abytes c' = abytes c \<and> frames c' = frames c \<and>
        audioseconds c' = audioseconds c \<and> vc c' = vc c \<and> ac c' = ac c \<and>
        video_first c' = video_first c \<and> audio_first c' = audio_first c \<and>
        options c' = options c)"

definition filled_audio :: "encode_lavc_context \<Rightarrow> encode_lavc_context \<Rightarrow> bool" where
  "filled_audio c c' =
     (\<exists>a i. ac c \<noteq> None \<and> avc c = Some a \<and> ast c = Some i \<and> i < length (streams a) \<and>
        acc c' = Some (length (codec_mem c)) \<and> ast c' = Some i \<and>
        vst c' = vst c \<and> vcc c' = vcc c \<and>
        avc c' = Some (a\<lparr>streams := (streams a)[i := (streams a ! i)\<lparr>st_time_base := timebase c\<rparr>]\<rparr>) \<and>
        length (codec_mem c') = Suc (length (codec_mem c)) \<and>
        (\<forall>q. codec_at c q \<noteq> None \<longrightarrow> codec_at c' q \<noteq> None) \<and>
        (\<exists>cc. codec_at c' (length (codec_mem c)) = Some cc \<and> cc_time_base cc = timebase c) \<and>
        failed c' = failed c \<and> finished c' = finished c \<and>
        header_written c' = header_written c \<and> timebase c' = timebase c \<and>
        vbytes c' = vbytes c \<and> abytes c' = abytes c \<and> frames c' = frames c \<and>
        audioseconds c' = audioseconds c \<and> vc c' = vc c \<and> ac c' = ac c \<and>
        video_first c' = video_first c \<and> audio_first c' = audio_first c \<and>
        options c' = options c)"

section \<open>Concrete sessions\<close>

text \<open>
  The session that \<^verbatim>\<open>encode_lavc_init\<close> returns for the options \<open>opts\<close> in the concrete
  outside world, after the calls \<open>ops\<close>.
\<close>

definition session :: "encode_opts \<Rightarrow> (extern \<times> operation) list \<Rightarrow> encode_lavc_context option" where
  "session opts ops = Option.bind (encode_lavc_init plain_extern opts) (run ops)"

text \<open>
  Five such sessions: a new one, one with a video slot, one with both slots, one with both
  slots, both codecs open and the header written at 48000 frames per second, and a new one
  with the option that puts the video stream first.
\<close>

definition fresh_session :: encode_lavc_context where
  "fresh_session = the (session (plain_opts ''out.mkv'') [])"

definition video_allocated :: encode_lavc_context where
  "video_allocated =
     the (session (plain_opts ''out.mkv'') [(plain_extern, AllocStream AVMEDIA_TYPE_VIDEO)])"

definition both_allocated :: encode_lavc_context where
  "both_allocated =
     the (session (plain_opts ''out.mkv'')
            [(plain_extern, AllocStream AVMEDIA_TYPE_VIDEO),
             (plain_extern, Discontinuity),
             (plain_extern, AllocStream AVMEDIA_TYPE_AUDIO)])"

definition started_session :: encode_lavc_context where
  "started_session =
     the (session ((plain_opts ''out.mkv'')\<lparr>fps := 48000\<rparr>)
            [(plain_extern, AllocStream AVMEDIA_TYPE_VIDEO),
             (plain_extern, AllocStream AVMEDIA_TYPE_AUDIO),
             (plain_extern, OpenCodec 0),
             (plain_extern, OpenCodec 1),
             (plain_extern, Start)])"

definition video_first_session :: encode_lavc_context where
  "video_first_session = the (session ((plain_opts ''out.mkv'')\<lparr>opt_video_first := True\<rparr>) [])"

text \<open>An outside world in which every write of a packet fails.\<close>

definition failing_writes :: extern where
  "failing_writes = plain_extern\<lparr>av_interleaved_write_frame := (\<lambda>a p. - 1)\<rparr>"

text \<open>The video stream and the audio stream of \<open>started_session\<close>, and a packet.\<close>

definition video_stream :: AVStream where
  "video_stream =
     \<lparr>st_index = 0, st_time_base = \<lparr>num = 1, den = 48000\<rparr>,
      codecpar_codec_type = AVMEDIA_TYPE_VIDEO\<rparr>"

definition audio_stream :: AVStream where
  "audio_stream =
     \<lparr>st_index = 1, st_time_base = \<lparr>num = 1, den = 48000\<rparr>,
      codecpar_codec_type = AVMEDIA_TYPE_AUDIO\<rparr>"

definition packet :: "int \<Rightarrow> 32 word \<Rightarrow> 64 word \<Rightarrow> AVPacket" where
  "packet i n d = \<lparr>stream_index = i, pkt_size = n, duration = d, pts = 0, dts = 0\<rparr>"

section \<open>The answers of a failed session\<close>

text \<open>
  The operations that begin with the guard, and the value that each of them is expected to
  return on a session that has failed: the value that the guard returns, and for
  \<^verbatim>\<open>encode_lavc_start\<close>, whose tests of the header latch come before the guard, 1 when the
  header has been written and 0 otherwise.
\<close>

fun guarded :: "operation \<Rightarrow> bool" where
  "guarded DidFail = False"
| "guarded (SetVideoFps f) = False"
| "guarded (SetAudioPts p) = False"
| "guarded (SetMetadata md) = False"
| "guarded Finish = False"
| "guarded (Fail f a) = False"
| "guarded x = True"

fun failure_sentinel :: "operation \<Rightarrow> encode_lavc_context \<Rightarrow> result" where
  "failure_sentinel Start c = RInt (if header_written c > 0 then 1 else 0)"
| "failure_sentinel (AllocStream mt) c = RAlloc (- 1) None None"
| "failure_sentinel (OpenCodec p) c = RInt (- 1)"
| "failure_sentinel (WriteFrame st pkt) c = RInt (- 1)"
| "failure_sentinel (WriteStats p) c = RVoid"
| "failure_sentinel (GetStatus n f) c = RStatus (- 1) None"
| "failure_sentinel Discontinuity c = RVoid"
| "failure_sentinel (ExpectStream mt) c = RVoid"
| "failure_sentinel (SetCsp p v) c = RBool False"
| "failure_sentinel (SetCspLevels p v) c = RBool False"
| "failure_sentinel (GetCsp p) c = RInt 0"
| "failure_sentinel (GetCspLevels p) c = RInt 0"
| "failure_sentinel Available c = RInt 0"
| "failure_sentinel OformatFlags c = RFlags 0"
| "failure_sentinel (SupportsPixfmt f) c = RInt 0"
| "failure_sentinel (GetOffset p) c = RReal 0"
| "failure_sentinel x c = RVoid"

section \<open>Option strings\<close>

lemma strchr_append: "c \<notin> set k \<Longrightarrow> strchr (k @ c # rest) c = Some (length k)"
  by (induction k) (auto simp: strchr_def)

lemma qscale_value_fits:
  "length v \<le> 1011 \<Longrightarrow>
   qscale_value v =
     (if has_sign v then take 1 v @ ''('' @ drop 1 v @ '')*QP2LAMBDA''
      else ''('' @ v @ '')*QP2LAMBDA'')"
  by (cases v) (auto simp: qscale_value_def has_sign_def)

lemma has_sign_replicate: "has_sign (replicate n c) = (0 < n \<and> (c = CHR ''+'' \<or> c = CHR ''-''))"
  by (cases n) (auto simp: has_sign_def)

lemma has_sign_moved:
  "has_sign (if has_sign v then take 1 v @ ''('' @ drop 1 v @ '')*QP2LAMBDA''
             else ''('' @ v @ '')*QP2LAMBDA'') = has_sign v"
  by (cases v) (auto simp: has_sign_def)

section \<open>Footprint of finish and fail\<close>

lemma flush_stats_sel [simp]:
  "failed (flush_stats b cc c) = failed c"
  "finished (flush_stats b cc c) = finished c"
  "header_written (flush_stats b cc c) = header_written c"
  "timebase (flush_stats b cc c) = timebase c"
  "vbytes (flush_stats b cc c) = vbytes c"
  "abytes (flush_stats b cc c) = abytes c"
  "frames (flush_stats b cc c) = frames c"
  "audioseconds (flush_stats b cc c) = audioseconds c"
  "vc (flush_stats b cc c) = vc c"
  "ac (flush_stats b cc c) = ac c"
  "video_first (flush_stats b cc c) = video_first c"
  "audio_first (flush_stats b cc c) = audio_first c"
  "options (flush_stats b cc c) = options c"
  "avc (flush_stats b cc c) = avc c"
  "vst (flush_stats b cc c) = vst c"
  "ast (flush_stats b cc c) = ast c"
  "vcc (flush_stats b cc c) = vcc c"
  "acc (flush_stats b cc c) = acc c"
  "codec_mem (flush_stats b cc c) = codec_mem c"
  by (simp_all add: flush_stats_def ext_def split: option.splits)

lemma close_twopass_sel [simp]:
  "failed (close_twopass c) = failed c"
  "finished (close_twopass c) = finished c"
  "header_written (close_twopass c) = header_written c"
  "timebase (close_twopass c) = timebase c"
  "vbytes (close_twopass c) = vbytes c"
  "abytes (close_twopass c) = abytes c"
  "frames (close_twopass c) = frames c"
  "audioseconds (close_twopass c) = audioseconds c"
  "vc (close_twopass c) = vc c"
  "ac (close_twopass c) = ac c"
  "video_first (close_twopass c) = video_first c"
  "audio_first (close_twopass c) = audio_first c"
  "options (close_twopass c) = options c"
  "avc (close_twopass c) = avc c"
  "vst (close_twopass c) = vst c"
  "ast (close_twopass c) = ast c"
  "vcc (close_twopass c) = vcc c"
  "acc (close_twopass c) = acc c"
  "codec_mem (close_twopass c) = codec_mem c"
  by (simp_all add: close_twopass_def ext_def Let_def split: option.splits)

lemma close_output_sel [simp]:
  "failed (close_output E a c) = failed c"
  "finished (close_output E a c) = finished c"
  "header_written (close_output E a c) = header_written c"
  "timebase (close_output E a c) = timebase c"
  "vbytes (close_output E a c) = vbytes c"
  "abytes (close_output E a c) = abytes c"
  "frames (close_output E a c) = frames c"
  "audioseconds (close_output E a c) = audioseconds c"
  "vc (close_output E a c) = vc c"
  "ac (close_output E a c) = ac c"
  "video_first (close_output E a c) = video_first c"
  "audio_first (close_output E a c) = audio_first c"
  "options (close_output E a c) = options c"
  "vst (close_output E a c) = vst c"
  "ast (close_output E a c) = ast c"
  "vcc (close_output E a c) = vcc c"
  "acc (close_output E a c) = acc c"
  "codec_mem (close_output E a c) = codec_mem c"
  by (simp_all add: close_output_def ext_def mp_msg_def Let_def split: option.splits)

lemma close_output_avc [simp]: "avc (close_output E a c) = None"
  by (simp add: close_output_def Let_def)

lemma free_vcc_sel:
  assumes "free_vcc c = Some c'"
  shows "failed c' = failed c \<and> finished c' = finished c \<and> header_written c' = header_written c \<and>
         timebase c' = timebase c \<and> vbytes c' = vbytes c \<and> abytes c' = abytes c \<and>
         frames c' = frames c \<and> audioseconds c' = audioseconds c \<and> vc c' = vc c \<and> ac c' = ac c \<and>
         video_first c' = video_first c \<and> audio_first c' = audio_first c \<and> options c' = options c \<and>
         avc c' = avc c \<and> vst c' = vst c \<and> ast c' = ast c \<and> acc c' = acc c \<and> vcc c' = None \<and>
         codec_mem c' = (case vcc c of None \<Rightarrow> codec_mem c | Some p \<Rightarrow> (codec_mem c)[p := None])"
  using assms by (auto simp: free_vcc_def bind_eq_Some_conv split: option.splits)

lemma free_acc_sel:
  assumes "free_acc c = Some c'"
  shows "failed c' = failed c \<and> finished c' = finished c \<and> header_written c' = header_written c \<and>
         timebase c' = timebase c \<and> vbytes c' = vbytes c \<and> abytes c' = abytes c \<and>
         frames c' = frames c \<and> audioseconds c' = audioseconds c \<and> vc c' = vc c \<and> ac c' = ac c \<and>
         video_first c' = video_first c \<and> audio_first c' = audio_first c \<and> options c' = options c \<and>
         avc c' = avc c \<and> vst c' = vst c \<and> ast c' = ast c \<and> vcc c' = vcc c \<and> acc c' = None \<and>
         codec_mem c' = (case acc c of None \<Rightarrow> codec_mem c | Some p \<Rightarrow> (codec_mem c)[p := None])"
  using assms by (auto simp: free_acc_def bind_eq_Some_conv split: option.splits)

text \<open>What \<^verbatim>\<open>encode_lavc_finish\<close> does to a session that is not finished yet.\<close>

lemma finish_sel:
  assumes "encode_lavc_finish E c = Some c'" and "\<not> finished c"
  shows "finished c' \<and> failed c' = failed c \<and> header_written c' = header_written c \<and>
         timebase c' = timebase c \<and> vbytes c' = vbytes c \<and> abytes c' = abytes c \<and>
         frames c' = frames c \<and> audioseconds c' = audioseconds c \<and> vc c' = vc c \<and> ac c' = ac c \<and>
         video_first c' = video_first c \<and> audio_first c' = audio_first c \<and> options c' = options c \<and>
         avc c' = None \<and>
         (avc c \<noteq> None \<longrightarrow> vst c' = None \<and> ast c' = None \<and> vcc c' = None \<and> acc c' = None) \<and>
         (avc c = None \<longrightarrow> vst c' = vst c \<and> ast c' = ast c \<and> vcc c' = vcc c \<and> acc c' = acc c)"
proof (cases "avc c")
  case None
  with assms show ?thesis by (auto simp: encode_lavc_finish_def)
next
  case (Some a)
  with assms obtain c2 c3 where
    c2: "free_vcc (if header_written c > 0 then ext AvWriteTrailer c else c) = Some c2"
    and c3: "free_acc c2 = Some c3"
    and c': "c' = (close_output E a (close_twopass (c3\<lparr>vst := None, ast := None\<rparr>)))\<lparr>finished := True\<rparr>"
    by (auto simp: encode_lavc_finish_def bind_eq_Some_conv)
  from free_vcc_sel[OF c2] free_acc_sel[OF c3] Some show ?thesis
    by (simp add: c' ext_def)
qed

lemma finish_finished: "finished c \<Longrightarrow> encode_lavc_finish E c = Some c"
  by (simp add: encode_lavc_finish_def)


lemma fail_failed: "failed c \<Longrightarrow> encode_lavc_fail E c f a = Some (mp_msg MSGL_ERR f a c)"
  by (simp add: encode_lavc_fail_def mp_msg_def Let_def)

lemma fail_finished:
  "\<not> failed c \<Longrightarrow> finished c \<Longrightarrow>
   encode_lavc_fail E c f a = Some ((mp_msg MSGL_ERR f a c)\<lparr>failed := True\<rparr>)"
  by (simp add: encode_lavc_fail_def mp_msg_def Let_def encode_lavc_finish_def)

lemma fail_running:
  "\<not> failed c \<Longrightarrow> \<not> finished c \<Longrightarrow>
   encode_lavc_fail E c f a = encode_lavc_finish E ((mp_msg MSGL_ERR f a c)\<lparr>failed := True\<rparr>)"
  by (simp add: encode_lavc_fail_def mp_msg_def Let_def)

text \<open>What \<^verbatim>\<open>encode_lavc_fail\<close> does to a session that is neither failed nor finished.\<close>

lemma fail_sel:
  assumes "encode_lavc_fail E c f a = Some c'" and "\<not> failed c" and "\<not> finished c"
  shows "finished c' \<and> failed c' \<and> header_written c' = header_written c \<and>
         timebase c' = timebase c \<and> vbytes c' = vbytes c \<and> abytes c' = abytes c \<and>
         frames c' = frames c \<and> audioseconds c' = audioseconds c \<and> vc c' = vc c \<and> ac c' = ac c \<and>
         video_first c' = video_first c \<and> audio_first c' = audio_first c \<and> options c' = options c \<and>
         avc c' = None \<and>
         (avc c \<noteq> None \<longrightarrow> vst c' = None \<and> ast c' = None \<and> vcc c' = None \<and> acc c' = None)"
proof -
  from assms have "encode_lavc_finish E ((mp_msg MSGL_ERR f a c)\<lparr>failed := True\<rparr>) = Some c'"
    by (simp add: fail_running)
  from finish_sel[OF this] assms(3) show ?thesis
    by (simp add: mp_msg_def)
qed

lemma wf_mem_aux [simp]:
  "wf_mem (mp_log_update f1 c) = wf_mem c"
  "wf_mem (metadata_update f2 c) = wf_mem c"
  "wf_mem (vo_fps_update f3 c) = wf_mem c"
  "wf_mem (foptions_update f4 c) = wf_mem c"
  "wf_mem (aoptions_update f5 c) = wf_mem c"
  "wf_mem (voptions_update f6 c) = wf_mem c"
  "wf_mem (audio_pts_offset_update f7 c) = wf_mem c"
  "wf_mem (last_video_in_pts_update f8 c) = wf_mem c"
  "wf_mem (last_audio_in_pts_update f9 c) = wf_mem c"
  "wf_mem (samples_since_last_pts_update f10 c) = wf_mem c"
  "wf_mem (discontinuity_pts_offset_update f11 c) = wf_mem c"
  "wf_mem (twopass_bytebuffer_a_update f12 c) = wf_mem c"
  "wf_mem (twopass_bytebuffer_v_update f13 c) = wf_mem c"
  "wf_mem (t0_update f14 c) = wf_mem c"
  "wf_mem (expect_video_update f15 c) = wf_mem c"
  "wf_mem (expect_audio_update f16 c) = wf_mem c"
  "wf_mem (io_calls_update f17 c) = wf_mem c"
  "wf_mem (header_written_update f18 c) = wf_mem c"
  "wf_mem (timebase_update f19 c) = wf_mem c"
  "wf_mem (vbytes_update f20 c) = wf_mem c"
  "wf_mem (abytes_update f21 c) = wf_mem c"
  "wf_mem (frames_update f22 c) = wf_mem c"
  "wf_mem (audioseconds_update f23 c) = wf_mem c"
  "wf_mem (failed_update f24 c) = wf_mem c"
  by (simp_all add: wf_mem_def codec_at_def)

lemma wf_mem_log [simp]:
  "wf_mem (mp_msg l f a c) = wf_mem c"
  "wf_mem (ext e c) = wf_mem c"
  "wf_mem (bail_out c) = wf_mem c"
  "wf_mem (warn_unused fm d c) = wf_mem c"
  by (simp_all add: mp_msg_def ext_def bail_out_def warn_unused_def)

lemma wf_mem_released:
  "finished c \<Longrightarrow> avc c = None \<Longrightarrow> vcc c = None \<Longrightarrow> acc c = None \<Longrightarrow> wf_mem c"
  by (simp add: wf_mem_def)

lemma wf_mem_finish:
  assumes "wf_mem c" and "encode_lavc_finish E c = Some c'"
  shows "wf_mem c'"
proof (cases "finished c")
  case True
  with assms show ?thesis by (simp add: finish_finished)
next
  case False
  with assms(1) have "avc c \<noteq> None" by (simp add: wf_mem_def)
  with finish_sel[OF assms(2) False] show ?thesis
    by (intro wf_mem_released) simp_all
qed

lemma wf_mem_fail:
  assumes "wf_mem c" and "encode_lavc_fail E c f a = Some c'"
  shows "wf_mem c'"
proof (cases "finished c")
  case True
  with assms show ?thesis
    by (cases "failed c") (auto simp: fail_failed fail_finished)
next
  case nfin: False
  show ?thesis
  proof (cases "failed c")
    case True
    with assms show ?thesis by (auto simp: fail_failed)
  next
    case False
    from assms(1) nfin have "avc c \<noteq> None" by (simp add: wf_mem_def)
    with fail_sel[OF assms(2) False nfin] show ?thesis
      by (intro wf_mem_released) simp_all
  qed
qed

text \<open>On such a session \<^verbatim>\<open>encode_lavc_finish\<close> and \<^verbatim>\<open>encode_lavc_fail\<close> return.\<close>

lemma free_vcc_returns:
  "wf_mem c \<Longrightarrow> \<exists>c'. free_vcc c = Some c'"
  by (cases "vcc c") (auto simp: free_vcc_def wf_mem_def)

lemma free_acc_returns:
  "\<forall>p. acc c = Some p \<longrightarrow> codec_at c p \<noteq> None \<Longrightarrow> \<exists>c'. free_acc c = Some c'"
  by (cases "acc c") (auto simp: free_acc_def)

lemma finish_returns:
  assumes "wf_mem c"
  shows "\<exists>c'. encode_lavc_finish E c = Some c'"
proof (cases "finished c \<or> avc c = None")
  case True
  then show ?thesis by (auto simp: encode_lavc_finish_def)
next
  case False
  then obtain a where a: "avc c = Some a" and nf: "\<not> finished c" by auto
  let ?c1 = "if header_written c > 0 then ext AvWriteTrailer c else c"
  from assms have "wf_mem ?c1" by simp
  from free_vcc_returns[OF this] obtain c2 where c2: "free_vcc ?c1 = Some c2" ..
  have "\<forall>p. acc c2 = Some p \<longrightarrow> codec_at c2 p \<noteq> None"
  proof (intro allI impI)
    fix p assume p: "acc c2 = Some p"
    with free_vcc_sel[OF c2] have ap: "acc c = Some p" by (simp add: ext_def split: if_splits)
    with assms have v: "codec_at c p \<noteq> None" and d: "vcc c \<noteq> Some p"
      by (auto simp: wf_mem_def)
    from free_vcc_sel[OF c2] have
      "codec_mem c2 = (case vcc c of None \<Rightarrow> codec_mem c | Some q \<Rightarrow> (codec_mem c)[q := None])"
      by (cases "vcc c") (simp_all add: ext_def split: if_splits)
    with v d show "codec_at c2 p \<noteq> None"
      by (auto simp: codec_at_def split: option.splits if_splits)
  qed
  from free_acc_returns[OF this] obtain c3 where "free_acc c2 = Some c3" ..
  with a nf c2 show ?thesis by (simp add: encode_lavc_finish_def)
qed

lemma fail_returns:
  assumes "wf_mem c"
  shows "\<exists>c'. encode_lavc_fail E c f a = Some c'"
proof (cases "failed c")
  case True
  then show ?thesis by (simp add: fail_failed)
next
  case False
  from assms have "wf_mem ((mp_msg MSGL_ERR f a c)\<lparr>failed := True\<rparr>)"
    by simp
  from finish_returns[OF this] False show ?thesis
    by (simp add: encode_lavc_fail_def Let_def mp_msg_def)
qed

section \<open>What lasts\<close>

lemma lasting_refl [simp]: "lasting c c"
  by (simp add: lasting_def)

lemma lasting_trans: "lasting c c1 \<Longrightarrow> lasting c1 c2 \<Longrightarrow> lasting c c2"
  unfolding lasting_def by (elim conjE, intro conjI impI) auto

lemma lasting_aux [simp]:
  "lasting c (mp_log_update f1 c') = lasting c c'"
  "lasting c (metadata_update f2 c') = lasting c c'"
  "lasting c (vo_fps_update f3 c') = lasting c c'"
  "lasting c (foptions_update f4 c') = lasting c c'"
  "lasting c (aoptions_update f5 c') = lasting c c'"
  "lasting c (voptions_update f6 c') = lasting c c'"
  "lasting c (audio_pts_offset_update f7 c') = lasting c c'"
  "lasting c (last_video_in_pts_update f8 c') = lasting c c'"
  "lasting c (last_audio_in_pts_update f9 c') = lasting c c'"
  "lasting c (samples_since_last_pts_update f10 c') = lasting c c'"
  "lasting c (discontinuity_pts_offset_update f11 c') = lasting c c'"
  "lasting c (twopass_bytebuffer_a_update f12 c') = lasting c c'"
  "lasting c (twopass_bytebuffer_v_update f13 c') = lasting c c'"
  "lasting c (t0_update f14 c') = lasting c c'"
  "lasting c (expect_video_update f15 c') = lasting c c'"
  "lasting c (expect_audio_update f16 c') = lasting c c'"
  by (simp_all add: lasting_def)

lemma lasting_log [simp]:
  "lasting c (mp_msg l f a c') = lasting c c'"
  "lasting c (bail_out c') = lasting c c'"
  "lasting c (warn_unused fm d c') = lasting c c'"
  by (simp_all add: mp_msg_def bail_out_def warn_unused_def)

text \<open>While no latch is set, only the configuration and the latches have to last.\<close>

lemma lastingI:
  assumes "\<not> finished c" and "\<not> failed c"
    and "vc c' = vc c" and "ac c' = ac c" and "video_first c' = video_first c"
    and "audio_first c' = audio_first c" and "options c' = options c"
    and "header_written c \<noteq> 0 \<longrightarrow> header_written c' = header_written c"
    and "den (timebase c) \<noteq> 0 \<longrightarrow> timebase c' = timebase c"
  shows "lasting c c'"
  using assms by (simp add: lasting_def)

lemma lasting_running [simp]:
  "\<not> finished c \<Longrightarrow> lasting c (io_calls_update f1 c') = lasting c c'"
  "\<not> finished c \<Longrightarrow> lasting c (codec_mem_update f2 c') = lasting c c'"
  "\<not> finished c \<Longrightarrow> lasting c (ext e c') = lasting c c'"
  "\<not> finished c \<Longrightarrow> lasting c (flush_stats b cc c') = lasting c c'"
  "\<not> finished c \<Longrightarrow> lasting c (account_frame st pk c') = lasting c c'"
  by (simp_all add: lasting_def ext_def flush_stats_def account_frame_def
        split: option.splits AVMediaType.splits)

lemma lasting_finish:
  assumes "encode_lavc_finish E c = Some c'"
  shows "lasting c c'"
proof (cases "finished c")
  case True
  with assms show ?thesis by (simp add: finish_finished)
next
  case False
  from finish_sel[OF assms False] have
    "finished c'" "failed c' = failed c" "header_written c' = header_written c"
    "timebase c' = timebase c" "vc c' = vc c" "ac c' = ac c"
    "video_first c' = video_first c" "audio_first c' = audio_first c" "options c' = options c"
    by simp_all
  with False show ?thesis
    by (simp add: lasting_def)
qed

lemma lasting_fail:
  assumes "encode_lavc_fail E c f a = Some c'"
  shows "lasting c c'"
proof (cases "failed c")
  case True
  with assms show ?thesis by (auto simp: fail_failed)
next
  case nf: False
  show ?thesis
  proof (cases "finished c")
    case True
    with nf assms have "c' = (mp_msg MSGL_ERR f a c)\<lparr>failed := True\<rparr>"
      by (simp add: fail_finished)
    then show ?thesis by (simp add: lasting_def mp_msg_def)
  next
    case False
    from fail_sel[OF assms nf False] have
      "finished c'" "failed c'" "header_written c' = header_written c"
      "timebase c' = timebase c" "vc c' = vc c" "ac c' = ac c"
      "video_first c' = video_first c" "audio_first c' = audio_first c" "options c' = options c"
      by simp_all
    with False show ?thesis
      by (simp add: lasting_def)
  qed
qed

section \<open>The guarded operations\<close>

lemma lasting_guarded:
  "lasting c (snd (encode_lavc_available c))"
  "lasting c (snd (encode_lavc_oformat_flags c))"
  "lasting c (snd (encode_lavc_supports_pixfmt E c pf))"
  "lasting c (encode_lavc_discontinuity E c)"
  "lasting c (encode_lavc_expect_stream c mt)"
  by (simp_all add: encode_lavc_available_def encode_lavc_oformat_flags_def
        encode_lavc_supports_pixfmt_def encode_lavc_discontinuity_def
        encode_lavc_expect_stream_def
      split: option.splits AVMediaType.splits)

lemma lasting_hints:
  "lasting c (encode_lavc_set_video_fps c fp)"
  "lasting c (encode_lavc_set_audio_pts c pt)"
  "lasting c (encode_lavc_set_metadata E c md)"
  by (simp_all add: encode_lavc_set_video_fps_def encode_lavc_set_audio_pts_def
        encode_lavc_set_metadata_def Let_def)

lemma lasting_getoffset: "encode_lavc_getoffset c p = Some (r, c') \<Longrightarrow> lasting c c'"
  by (auto simp: encode_lavc_getoffset_def bind_eq_Some_conv split: if_splits)

lemma lasting_get_csp: "encode_lavc_get_csp E c p = Some (r, c') \<Longrightarrow> lasting c c'"
  by (auto simp: encode_lavc_get_csp_def bind_eq_Some_conv split: if_splits)

lemma lasting_get_csp_levels: "encode_lavc_get_csp_levels E c p = Some (r, c') \<Longrightarrow> lasting c c'"
  by (auto simp: encode_lavc_get_csp_levels_def bind_eq_Some_conv split: if_splits)

lemma lasting_set_csp: "encode_lavc_set_csp E c p v = Some (r, c') \<Longrightarrow> lasting c c'"
  by (auto simp: encode_lavc_set_csp_def bind_eq_Some_conv CHECK_FAIL_def split: if_splits)

lemma lasting_set_csp_levels: "encode_lavc_set_csp_levels E c p v = Some (r, c') \<Longrightarrow> lasting c c'"
  by (auto simp: encode_lavc_set_csp_levels_def bind_eq_Some_conv CHECK_FAIL_def split: if_splits)

lemma lasting_write_stats:
  assumes "encode_lavc_write_stats c p = Some c'"
  shows "lasting c c'"
proof (cases "CHECK_FAIL c")
  case True
  with assms show ?thesis by (auto simp: encode_lavc_write_stats_def)
next
  case False
  with assms obtain cc where
    c': "c' = (case codec_type cc of
                 AVMEDIA_TYPE_VIDEO \<Rightarrow> flush_stats (twopass_bytebuffer_v c) cc c
               | AVMEDIA_TYPE_AUDIO \<Rightarrow> flush_stats (twopass_bytebuffer_a c) cc c
               | _ \<Rightarrow> c)"
    by (auto simp: encode_lavc_write_stats_def bind_eq_Some_conv)
  from False have "\<not> finished c" by (simp add: CHECK_FAIL_def)
  then show ?thesis unfolding c'
    by (cases "codec_type cc") simp_all
qed

lemma lasting_getstatus: "encode_lavc_getstatus E c n f = Some (r, c') \<Longrightarrow> lasting c c'"
  by (auto simp: encode_lavc_getstatus_def bind_eq_Some_conv Let_def split: if_splits)

lemma lasting_write_frame: "encode_lavc_write_frame E c st pk = Some (r, c') \<Longrightarrow> lasting c c'"
  by (auto simp: encode_lavc_write_frame_def trace_frame_def bind_eq_Some_conv Let_def
           CHECK_FAIL_def split: if_splits)

section \<open>Codec memory and the two outcomes of an operation\<close>

lemma codec_at_upd [simp]:
  "codec_at (options_update f0 c) = codec_at c"
  "codec_at (mp_log_update f1 c) = codec_at c"
  "codec_at (metadata_update f2 c) = codec_at c"
  "codec_at (vo_fps_update f3 c) = codec_at c"
  "codec_at (avc_update f4 c) = codec_at c"
  "codec_at (vst_update f5 c) = codec_at c"
  "codec_at (ast_update f6 c) = codec_at c"
  "codec_at (vcc_update f7 c) = codec_at c"
  "codec_at (acc_update f8 c) = codec_at c"
  "codec_at (timebase_update f9 c) = codec_at c"
  "codec_at (vc_update f10 c) = codec_at c"
  "codec_at (ac_update f11 c) = codec_at c"
  "codec_at (foptions_update f12 c) = codec_at c"
  "codec_at (aoptions_update f13 c) = codec_at c"
  "codec_at (voptions_update f14 c) = codec_at c"
  "codec_at (header_written_update f15 c) = codec_at c"
  "codec_at (audio_pts_offset_update f16 c) = codec_at c"
  "codec_at (last_video_in_pts_update f17 c) = codec_at c"
  "codec_at (last_audio_in_pts_update f18 c) = codec_at c"
  "codec_at (samples_since_last_pts_update f19 c) = codec_at c"
  "codec_at (discontinuity_pts_offset_update f20 c) = codec_at c"
  "codec_at (abytes_update f21 c) = codec_at c"
  "codec_at (vbytes_update f22 c) = codec_at c"
  "codec_at (twopass_bytebuffer_a_update f23 c) = codec_at c"
  "codec_at (twopass_bytebuffer_v_update f24 c) = codec_at c"
  "codec_at (t0_update f25 c) = codec_at c"
  "codec_at (frames_update f26 c) = codec_at c"
  "codec_at (audioseconds_update f27 c) = codec_at c"
  "codec_at (expect_video_update f28 c) = codec_at c"
  "codec_at (expect_audio_update f29 c) = codec_at c"
  "codec_at (video_first_update f30 c) = codec_at c"
  "codec_at (audio_first_update f31 c) = codec_at c"
  "codec_at (failed_update f32 c) = codec_at c"
  "codec_at (finished_update f33 c) = codec_at c"
  "codec_at (io_calls_update f34 c) = codec_at c"
  by (simp_all add: codec_at_def fun_eq_iff)

lemma codec_at_log [simp]:
  "codec_at (mp_msg l f a c) = codec_at c"
  "codec_at (ext e c) = codec_at c"
  "codec_at (bail_out c) = codec_at c"
  "codec_at (warn_unused fm d c) = codec_at c"
  by (simp_all add: mp_msg_def ext_def bail_out_def warn_unused_def)

lemma codec_at_mem_upd:
  "codec_at (c\<lparr>codec_mem := (codec_mem c)[p := x]\<rparr>) q =
     (if q = p \<and> p < length (codec_mem c) then x else codec_at c q)"
  by (simp add: codec_at_def nth_list_update)

lemma codec_at_mem_app:
  "codec_at (c\<lparr>codec_mem := codec_mem c @ [x]\<rparr>) q =
     (if q = length (codec_mem c) then x else codec_at c q)"
  by (simp add: codec_at_def nth_append)

lemma codec_at_Some_length: "codec_at c q = Some cc \<Longrightarrow> q < length (codec_mem c)"
  by (simp add: codec_at_def split: if_splits)

lemma kept_refl [simp]: "kept c c"
  by (cases "avc c") (simp_all add: kept_def)

lemma kept_aux [simp]:
  "kept c (mp_log_update f1 c') = kept c c'"
  "kept c (metadata_update f2 c') = kept c c'"
  "kept c (vo_fps_update f3 c') = kept c c'"
  "kept c (foptions_update f4 c') = kept c c'"
  "kept c (aoptions_update f5 c') = kept c c'"
  "kept c (voptions_update f6 c') = kept c c'"
  "kept c (audio_pts_offset_update f7 c') = kept c c'"
  "kept c (last_video_in_pts_update f8 c') = kept c c'"
  "kept c (last_audio_in_pts_update f9 c') = kept c c'"
  "kept c (samples_since_last_pts_update f10 c') = kept c c'"
  "kept c (discontinuity_pts_offset_update f11 c') = kept c c'"
  "kept c (twopass_bytebuffer_a_update f12 c') = kept c c'"
  "kept c (twopass_bytebuffer_v_update f13 c') = kept c c'"
  "kept c (t0_update f14 c') = kept c c'"
  "kept c (expect_video_update f15 c') = kept c c'"
  "kept c (expect_audio_update f16 c') = kept c c'"
  "kept c (io_calls_update f17 c') = kept c c'"
  "kept c (header_written_update f18 c') = kept c c'"
  by (simp_all add: kept_def)

lemma kept_log [simp]:
  "kept c (mp_msg l f a c') = kept c c'"
  "kept c (ext e c') = kept c c'"
  "kept c (bail_out c') = kept c c'"
  "kept c (warn_unused fm d c') = kept c c'"
  by (simp_all add: mp_msg_def ext_def bail_out_def warn_unused_def)

lemma kept_flush [simp]: "kept c (flush_stats b cc c') = kept c c'"
  by (simp add: flush_stats_def split: option.splits)

lemma nth_upd_Some [simp]:
  "q < length xs \<Longrightarrow> xs ! q \<noteq> None \<Longrightarrow> xs[p := Some x] ! q \<noteq> None"
  by (cases "p < length xs") (auto simp: nth_list_update)

lemma kept_valid: "kept c c' \<Longrightarrow> codec_at c q \<noteq> None \<Longrightarrow> codec_at c' q \<noteq> None"
  by (simp add: kept_def)

lemma kept_mem_upd [simp]:
  assumes k: "kept c c'" and l: "length m = length (codec_mem c')"
    and v: "\<forall>q<length m. codec_mem c' ! q \<noteq> None \<longrightarrow> m ! q \<noteq> None"
  shows "kept c (codec_mem_update (\<lambda>_. m) c')"
proof -
  have "codec_at (codec_mem_update (\<lambda>_. m) c') q \<noteq> None" if "codec_at c q \<noteq> None" for q
  proof -
    from kept_valid[OF k that] have "q < length (codec_mem c')" "codec_mem c' ! q \<noteq> None"
      by (auto simp: codec_at_def split: if_splits)
    with l v show ?thesis by (simp add: codec_at_def)
  qed
  with k l show ?thesis unfolding kept_def by simp
qed

lemma kept_avc_upd [simp]:
  "kept c c' \<Longrightarrow> (\<exists>a'. avc c' = Some a' \<and> length (streams a2) = length (streams a')) \<Longrightarrow>
   kept c (avc_update (\<lambda>_. Some a2) c')"
  unfolding kept_def by (cases "avc c") auto

lemma kept_sel:
  assumes "kept c c'"
  shows "failed c' = failed c" "finished c' = finished c" "timebase c' = timebase c"
    "vbytes c' = vbytes c" "abytes c' = abytes c" "frames c' = frames c"
    "audioseconds c' = audioseconds c" "vc c' = vc c" "ac c' = ac c"
    "video_first c' = video_first c" "audio_first c' = audio_first c" "options c' = options c"
    "vst c' = vst c" "ast c' = ast c" "vcc c' = vcc c" "acc c' = acc c"
    "length (codec_mem c') = length (codec_mem c)"
    "(avc c' = None) = (avc c = None)"
  using assms by (auto simp: kept_def)

lemma kept_lasting:
  assumes "kept c c'" and "\<not> finished c" and "\<not> failed c"
    and "header_written c \<noteq> 0 \<longrightarrow> header_written c' = header_written c"
  shows "lasting c c'"
  using assms(2-) kept_sel[OF assms(1)] by (intro lastingI) simp_all

lemma kept_streams:
  "kept c c' \<Longrightarrow> avc c' = Some a' \<Longrightarrow> \<exists>a. avc c = Some a \<and> length (streams a) = length (streams a')"
  by (cases "avc c") (auto simp: kept_def)

lemma kept_streams_fwd:
  "kept c c' \<Longrightarrow> avc c = Some a \<Longrightarrow> \<exists>a'. avc c' = Some a' \<and> length (streams a') = length (streams a)"
  by (simp add: kept_def)

lemma kept_trans:
  assumes k1: "kept c c1" and k2: "kept c1 c2"
  shows "kept c c2"
proof -
  have v: "\<forall>q. codec_at c q \<noteq> None \<longrightarrow> codec_at c2 q \<noteq> None"
    using kept_valid[OF k1] kept_valid[OF k2] by blast
  have n: "avc c = None \<longrightarrow> avc c2 = None"
    using kept_sel(18)[OF k1] kept_sel(18)[OF k2] by simp
  have s: "\<forall>a. avc c = Some a \<longrightarrow> (\<exists>a'. avc c2 = Some a' \<and> length (streams a') = length (streams a))"
  proof (intro allI impI)
    fix a assume "avc c = Some a"
    from kept_streams_fwd[OF k1 this] obtain a1 where a1: "avc c1 = Some a1" "length (streams a1) = length (streams a)"
      by blast
    from kept_streams_fwd[OF k2 a1(1)] a1(2)
    show "\<exists>a'. avc c2 = Some a' \<and> length (streams a') = length (streams a)" by auto
  qed
  from kept_sel(1-17)[OF k1] kept_sel(1-17)[OF k2] v n s show ?thesis
    unfolding kept_def by simp
qed

lemma kept_wf_mem:
  assumes k: "kept c c'" and w: "wf_mem c"
  shows "wf_mem c'"
  unfolding wf_mem_def
proof (intro conjI allI impI)
  show "avc c' \<noteq> None" if "\<not> finished c'"
    using that w kept_sel[OF k] by (simp add: wf_mem_def)
  show "codec_at c' p \<noteq> None" if "vcc c' = Some p" for p
    using that w kept_sel[OF k] by (intro kept_valid[OF k]) (simp add: wf_mem_def)
  show "codec_at c' p \<noteq> None" if "acc c' = Some p" for p
    using that w kept_sel[OF k] by (intro kept_valid[OF k]) (simp add: wf_mem_def)
  show "vcc c' \<noteq> acc c'" if "vcc c' \<noteq> None"
    using that w kept_sel[OF k] by (simp add: wf_mem_def)
  show "i < length (streams a')" if "avc c' = Some a'" "vst c' = Some i" for a' i
  proof -
    from kept_streams[OF k that(1)] obtain a where "avc c = Some a" "length (streams a) = length (streams a')"
      by blast
    with that w kept_sel[OF k] show ?thesis by (simp add: wf_mem_def)
  qed
  show "i < length (streams a')" if "avc c' = Some a'" "ast c' = Some i" for a' i
  proof -
    from kept_streams[OF k that(1)] obtain a where "avc c = Some a" "length (streams a) = length (streams a')"
      by blast
    with that w kept_sel[OF k] show ?thesis by (simp add: wf_mem_def)
  qed
qed

lemma kept_wf:
  assumes "kept c c'" and "wf c"
  shows "wf c'"
proof -
  from assms have m: "wf_mem c'" by (auto simp: wf_def intro: kept_wf_mem)
  note s = kept_streams[OF assms(1)]
  show ?thesis unfolding wf_def
  proof (intro conjI allI impI)
    show "finished c'" if "failed c'" using that assms kept_sel[OF assms(1)] by (simp add: wf_def)
    show "wf_mem c'" by (rule m)
    fix a' assume a': "avc c' = Some a'" and ne: "streams a' \<noteq> []"
    from s[OF a'] obtain a where a: "avc c = Some a" "length (streams a) = length (streams a')" by blast
    with ne have "streams a \<noteq> []" by auto
    with assms(2) a have "vc c = None \<or> vcc c \<noteq> None \<or> ac c = None \<or> acc c \<noteq> None"
      by (simp add: wf_def)
    with kept_sel[OF assms(1)] show "vc c' = None \<or> vcc c' \<noteq> None \<or> ac c' = None \<or> acc c' \<noteq> None"
      by simp
  qed
qed

lemma torn_down_aux [simp]:
  "torn_down (mp_log_update f1 c) c' = torn_down c c'"
  "torn_down (io_calls_update f2 c) c' = torn_down c c'"
  "torn_down (foptions_update f3 c) c' = torn_down c c'"
  "torn_down (voptions_update f4 c) c' = torn_down c c'"
  "torn_down (aoptions_update f5 c) c' = torn_down c c'"
  "torn_down (t0_update f6 c) c' = torn_down c c'"
  "torn_down (header_written_update f7 c) c' = torn_down c c'"
  "torn_down (codec_mem_update f8 c) c' = torn_down c c'"
  "torn_down (timebase_update f9 c) c' = torn_down c c'"
  by (simp_all add: torn_down_def)

lemma torn_down_log [simp]:
  "torn_down (mp_msg l f a c) c' = torn_down c c'"
  "torn_down (ext e c) c' = torn_down c c'"
  "torn_down (warn_unused fm d c) c' = torn_down c c'"
  by (simp_all add: mp_msg_def ext_def warn_unused_def)

lemma fail_torn_down:
  assumes "encode_lavc_fail E c f a = Some c'" and "\<not> failed c" and "\<not> finished c"
  shows "torn_down c c' \<and> header_written c' = header_written c \<and> timebase c' = timebase c"
  using fail_sel[OF assms] by (simp add: torn_down_def)

lemma torn_down_kept: "kept c c1 \<Longrightarrow> torn_down c1 c' \<Longrightarrow> torn_down c c'"
  by (auto simp: torn_down_def kept_def)

lemma torn_down_lasting:
  assumes "torn_down c c'" and "\<not> finished c" and "\<not> failed c"
    and "header_written c \<noteq> 0 \<longrightarrow> header_written c' = header_written c"
    and "den (timebase c) \<noteq> 0 \<longrightarrow> timebase c' = timebase c"
  shows "lasting c c'"
  using assms by (intro lastingI) (simp_all add: torn_down_def)

lemma torn_down_wf:
  assumes "torn_down c c'" and "avc c \<noteq> None"
  shows "wf c'"
  using assms by (simp add: torn_down_def wf_def wf_mem_def)

section \<open>Footprint of start\<close>

lemma copy_metadata_sel [simp]:
  "streams (copy_metadata_to_muxer E md a) = streams a"
  "pb (copy_metadata_to_muxer E md a) = pb a"
  "oformat (copy_metadata_to_muxer E md a) = oformat a"
  "url (copy_metadata_to_muxer E md a) = url a"
  by (simp_all add: copy_metadata_to_muxer_def split: option.splits)

lemma open_output_kept:
  "avc c = Some a \<Longrightarrow> kept c (snd (open_output E a c))"
  unfolding kept_def by (simp add: open_output_def mp_msg_def ext_def)

lemma open_output_sel [simp]:
  "failed (snd (open_output E a c)) = failed c"
  "finished (snd (open_output E a c)) = finished c"
  "header_written (snd (open_output E a c)) = header_written c"
  by (simp_all add: open_output_def mp_msg_def ext_def)

lemma open_output_avc:
  "avc c = Some a \<Longrightarrow> \<exists>a'. avc (snd (open_output E a c)) = Some a' \<and> streams a' = streams a"
  by (simp add: open_output_def mp_msg_def ext_def)

text \<open>The two ways in which the writing of the header ends.\<close>

lemma start_write_header_cases:
  assumes "start_write_header E c = Some (r, c')" and "\<not> failed c" and "\<not> finished c"
  shows "r = 0 \<and> torn_down c c' \<and> header_written c' = header_written c \<and> timebase c' = timebase c \<or>
         r = 1 \<and> kept c c' \<and> header_written c' = 1"
proof -
  from assms(1) obtain a where a: "avc c = Some a"
    by (auto simp: start_write_header_def bind_eq_Some_conv)
  let ?c2 = "mp_msg MSGL_INFO ''Opening muxer: %s [%s]\<newline>''
               [Str (of_long_name (oformat a)), Str (of_name (oformat a))] (c\<lparr>t0 := mp_time_sec E\<rparr>)"
  let ?a' = "copy_metadata_to_muxer E (metadata ?c2) a"
  let ?hdr = "avformat_write_header E ?a' (foptions ?c2)"
  let ?c3 = "(ext AvformatWriteHeader ?c2)\<lparr>avc := Some ?a', foptions := snd ?hdr\<rparr>"
  have k: "kept c ?c3"
    using a by (simp add: mp_msg_def ext_def)
  show ?thesis
  proof (cases "fst ?hdr < 0")
    case True
    with assms(1) a have f: "encode_lavc_fail E ?c3 ''could not write header\<newline>'' [] = Some c'" and "r = 0"
      by (auto simp: start_write_header_def Let_def bind_eq_Some_conv)
    from fail_torn_down[OF f] assms(2,3)
    have "torn_down ?c3 c'" "header_written c' = header_written c" "timebase c' = timebase c"
      by (simp_all add: mp_msg_def ext_def)
    with torn_down_kept[OF k] \<open>r = 0\<close> show ?thesis by simp
  next
    case False
    with assms(1) a have "r = 1"
      and c': "c' = (warn_unused ''ofopts: key '%s' not found.\<newline>'' (foptions ?c3) ?c3)
                     \<lparr>foptions := [], header_written := 1\<rparr>"
      by (auto simp: start_write_header_def Let_def)
    with k show ?thesis by (simp add: warn_unused_def)
  qed
qed

text \<open>The five ways in which \<^verbatim>\<open>encode_lavc_start\<close> ends.\<close>

lemma start_cases:
  assumes "encode_lavc_start E c = Some (r, c')"
  shows "header_written c < 0 \<and> r = 0 \<and> c' = c \<or>
         header_written c > 0 \<and> r = 1 \<and> c' = c \<or>
         header_written c = 0 \<and> CHECK_FAIL c \<and> r = 0 \<and> c' = bail_out c \<or>
         header_written c = 0 \<and> \<not> CHECK_FAIL c \<and> r = 0 \<and> torn_down c c' \<and> header_written c' \<le> 0 \<and>
           timebase c' = timebase c \<or>
         header_written c = 0 \<and> \<not> CHECK_FAIL c \<and> r = 1 \<and> kept c c' \<and> header_written c' = 1"
proof -
  consider "header_written c < 0" | "header_written c > 0"
    | "header_written c = 0" "CHECK_FAIL c" | "header_written c = 0" "\<not> CHECK_FAIL c"
    by linarith
  then show ?thesis
  proof cases
    case 1 with assms show ?thesis by (simp add: encode_lavc_start_def)
  next
    case 2 with assms show ?thesis by (simp add: encode_lavc_start_def)
  next
    case 3 with assms show ?thesis by (simp add: encode_lavc_start_def)
  next
    case 4
    then have nf: "\<not> failed c" "\<not> finished c" by (simp_all add: CHECK_FAIL_def)
    from assms 4 obtain a where a: "avc c = Some a"
      by (auto simp: encode_lavc_start_def bind_eq_Some_conv)
    show ?thesis
    proof (cases "expected_stream_missing E a c")
      case (Some msg)
      with assms 4 a have f: "encode_lavc_fail E c msg [] = Some c'" and "r = 0"
        by (auto simp: encode_lavc_start_def bind_eq_Some_conv)
      from fail_torn_down[OF f nf] 4 \<open>r = 0\<close> show ?thesis by simp
    next
      case None
      let ?oo = "open_output E a (c\<lparr>header_written := - 1\<rparr>)"
      have "kept (c\<lparr>header_written := - 1\<rparr>) (snd ?oo)"
        using a by (intro open_output_kept) simp
      then have k: "kept c (snd ?oo)"
        by (simp add: kept_def)

      show ?thesis
      proof (cases "fst ?oo < 0")
        case True
        with assms 4 a None have
          f: "encode_lavc_fail E (snd ?oo) ''could not open '%s'\<newline>'' [Str (url a)] = Some c'"
          and "r = 0"
          by (auto simp: encode_lavc_start_def Let_def bind_eq_Some_conv)
        from fail_torn_down[OF f] nf kept_sel(3)[OF k]
        have "torn_down (snd ?oo) c'" "header_written c' = - 1" "timebase c' = timebase c"
          by simp_all
        with torn_down_kept[OF k] have "torn_down c c'" "header_written c' = - 1" "timebase c' = timebase c"
          by simp_all
        with 4 \<open>r = 0\<close> show ?thesis by simp
      next
        case False
        with assms 4 a None have h: "start_write_header E (snd ?oo) = Some (r, c')"
          by (auto simp: encode_lavc_start_def Let_def)
        from start_write_header_cases[OF h] nf kept_sel(3)[OF k]
        have "r = 0 \<and> torn_down (snd ?oo) c' \<and> header_written c' = - 1 \<and> timebase c' = timebase c \<or>
              r = 1 \<and> kept (snd ?oo) c' \<and> header_written c' = 1"
          by simp
        with torn_down_kept[OF k]
        have "r = 0 \<and> torn_down c c' \<and> header_written c' = - 1 \<and> timebase c' = timebase c \<or>
              r = 1 \<and> kept (snd ?oo) c' \<and> header_written c' = 1"
          by blast
        then show ?thesis
        proof
          assume "r = 0 \<and> torn_down c c' \<and> header_written c' = - 1 \<and> timebase c' = timebase c"
          with 4 show ?thesis by simp
        next
          assume r: "r = 1 \<and> kept (snd ?oo) c' \<and> header_written c' = 1"
          have "kept c c'"
            using r by (intro kept_trans[OF k]) simp
          with r 4 show ?thesis by simp
        qed
      qed
    qed
  qed
qed

section \<open>Footprint of opening a codec\<close>

lemma lasting_start:
  assumes "encode_lavc_start E c = Some (r, c')"
  shows "lasting c c'"
  using start_cases[OF assms]
  by (elim disjE conjE)
     (simp_all add: CHECK_FAIL_def torn_down_lasting kept_lasting)

lemma wf_bail [simp]: "wf (bail_out c) = wf c"
  by (simp add: wf_def bail_out_def mp_msg_def)

lemma wf_start:
  assumes "encode_lavc_start E c = Some (r, c')" and "wf c"
  shows "wf c'"
proof -
  have "avc c \<noteq> None" if "\<not> CHECK_FAIL c"
    using that assms(2) by (simp add: wf_def wf_mem_def CHECK_FAIL_def)
  with start_cases[OF assms(1)] assms(2) show ?thesis
    by (elim disjE conjE) (simp_all add: torn_down_wf kept_wf)
qed

lemma allow_experimental_kept [simp]: "kept c c' \<Longrightarrow> kept c (allow_experimental E k v p cc c')"
  by (simp add: allow_experimental_def mp_msg_def)

lemma allow_experimental_sel [simp]:
  "header_written (allow_experimental E k v p cc c) = header_written c"
  "failed (allow_experimental E k v p cc c) = failed c"
  "finished (allow_experimental E k v p cc c) = finished c"
  "length (codec_mem (allow_experimental E k v p cc c)) = length (codec_mem c)"
  by (simp_all add: allow_experimental_def mp_msg_def)

lemma allow_experimental_valid:
  "q < length (codec_mem c) \<Longrightarrow> codec_mem c ! q \<noteq> None \<Longrightarrow>
   codec_mem (allow_experimental E k v p cc c) ! q \<noteq> None"
  by (simp add: allow_experimental_def mp_msg_def del: not_None_eq)

lemma copy_parameters_kept:
  assumes "copy_parameters E r slot cc c = Some (r', c')"
  shows "kept c c' \<and> header_written c' = header_written c"
proof (cases "r \<ge> 0")
  case True
  with assms obtain a i st where "avc c = Some a" "stream_at a i = Some st"
    and c': "c' = c\<lparr>avc := Some (a\<lparr>streams := (streams a)
               [i := st\<lparr>codecpar_codec_type :=
                        snd (avcodec_parameters_from_context E (codecpar_codec_type st) cc)\<rparr>]\<rparr>)\<rparr>"
    by (auto simp: copy_parameters_def bind_eq_Some_conv Let_def)
  then show ?thesis by simp
next
  case False
  with assms show ?thesis by (simp add: copy_parameters_def)
qed

lemma kept_left [simp]:
  "kept (mp_msg l f a c) c' = kept c c'"
  "kept (header_written_update g c) c' = kept c c'"
  by (simp_all add: kept_def mp_msg_def)

lemma open_encoder_kept:
  assumes "open_encoder E kind v p opts slot c = Some (rd, c')"
  shows "kept c c' \<and> header_written c' = header_written c"
proof -
  let ?c2 = "\<lambda>cc. allow_experimental E kind v p cc c"
  from assms obtain cc cc1 rc where
    rc: "copy_parameters E (fst (avcodec_open2 E cc1 v opts)) slot (fst (snd (avcodec_open2 E cc1 v opts)))
           ((?c2 cc)\<lparr>codec_mem := (codec_mem (?c2 cc))[p := Some (fst (snd (avcodec_open2 E cc1 v opts)))]\<rparr>)
         = Some rc"
      (is "copy_parameters E ?r slot ?cc2 ?c3 = Some rc")
    and c': "c' = snd rc"
    by (auto simp: open_encoder_def bind_eq_Some_conv Let_def)
  have k3: "kept c ?c3"
    by (simp add: allow_experimental_valid del: not_None_eq)
  from copy_parameters_kept[of E ?r slot ?cc2 ?c3 "fst rc" "snd rc"] rc
  have "kept ?c3 (snd rc)" "header_written (snd rc) = header_written c" by simp_all
  with kept_trans[OF k3] c' show ?thesis by simp
qed

lemma open_video_codec_kept:
  assumes "open_video_codec E c p = Some (r, c')"
  shows "kept c c' \<and> header_written c' = header_written c"
proof -
  from assms obtain v oe where
    "open_encoder E ''VIDEO'' v p (voptions c) (vst c)
       (mp_msg MSGL_INFO ''Opening video encoder: %s [%s]\<newline>''
          [Str (codec_long_name v), Str (codec_name v)] c) = Some oe"
    and c': "c' = (warn_unused ''ovcopts: key '%s' not found.\<newline>'' (snd (fst oe)) (snd oe))\<lparr>voptions := []\<rparr>"
    by (auto simp: open_video_codec_def bind_eq_Some_conv)
  from open_encoder_kept[of _ _ _ _ _ _ _ "fst oe" "snd oe"] this(1)
  have "kept (mp_msg MSGL_INFO ''Opening video encoder: %s [%s]\<newline>''
          [Str (codec_long_name v), Str (codec_name v)] c) (snd oe)"
    and "header_written (snd oe) = header_written c"
    by (simp_all add: mp_msg_def)
  then show ?thesis unfolding c' by (simp add: warn_unused_def)
qed

lemma open_audio_codec_kept:
  assumes "open_audio_codec E c p = Some (r, c')"
  shows "kept c c' \<and> header_written c' = header_written c"
proof -
  from assms obtain v oe where
    "open_encoder E ''AUDIO'' v p (aoptions c) (ast c)
       (mp_msg MSGL_INFO ''Opening audio encoder: %s [%s]\<newline>''
          [Str (codec_long_name v), Str (codec_name v)] c) = Some oe"
    and c': "c' = (warn_unused ''oacopts: key '%s' not found.\<newline>'' (snd (fst oe)) (snd oe))\<lparr>aoptions := []\<rparr>"
    by (auto simp: open_audio_codec_def bind_eq_Some_conv)
  from open_encoder_kept[of _ _ _ _ _ _ _ "fst oe" "snd oe"] this(1)
  have "kept (mp_msg MSGL_INFO ''Opening audio encoder: %s [%s]\<newline>''
          [Str (codec_long_name v), Str (codec_name v)] c) (snd oe)"
    and "header_written (snd oe) = header_written c"
    by (simp_all add: mp_msg_def)
  then show ?thesis unfolding c' by (simp add: warn_unused_def)
qed

text \<open>The three ways in which \<^verbatim>\<open>encode_lavc_open_codec\<close> ends.\<close>

lemma open_codec_cases:
  assumes "encode_lavc_open_codec E c p = Some (r, c')"
  shows "CHECK_FAIL c \<and> r = - 1 \<and> c' = bail_out c \<or>
         \<not> CHECK_FAIL c \<and> r < 0 \<and> torn_down c c' \<and> header_written c' = header_written c \<and>
           timebase c' = timebase c \<or>
         \<not> CHECK_FAIL c \<and> r \<ge> 0 \<and> kept c c' \<and> header_written c' = header_written c"
proof (cases "CHECK_FAIL c")
  case True
  with assms show ?thesis by (simp add: encode_lavc_open_codec_def)
next
  case False
  then have nf: "\<not> failed c" "\<not> finished c" by (simp_all add: CHECK_FAIL_def)
  from assms False obtain cc rc where cc: "codec_at c p = Some cc"
    and rc: "(case codec_type cc of
                AVMEDIA_TYPE_VIDEO \<Rightarrow> open_video_codec E c p
              | AVMEDIA_TYPE_AUDIO \<Rightarrow> open_audio_codec E c p
              | _ \<Rightarrow> Some (- 1, c)) = Some rc"
    and fin: "(if fst rc < 0
               then do {
                 c' \<leftarrow> encode_lavc_fail E (snd rc)
                        ''unable to open encoder (see above for the cause)\<newline>'' [];
                 Some (fst rc, c') }
               else Some (fst rc, snd rc)) = Some (r, c')"
    by (auto simp: encode_lavc_open_codec_def bind_eq_Some_conv)
  have k: "kept c (snd rc) \<and> header_written (snd rc) = header_written c"
    using rc open_video_codec_kept[of E c p "fst rc" "snd rc"]
      open_audio_codec_kept[of E c p "fst rc" "snd rc"]
    by (cases "codec_type cc") auto
  show ?thesis
  proof (cases "fst rc < 0")
    case True
    with fin have f: "encode_lavc_fail E (snd rc)
        ''unable to open encoder (see above for the cause)\<newline>'' [] = Some c'" and "r = fst rc"
      by (auto simp: bind_eq_Some_conv)
    from k have ks: "kept c (snd rc)" by simp
    from kept_sel(1,2)[OF ks] nf have "\<not> failed (snd rc)" "\<not> finished (snd rc)" by simp_all
    from fail_torn_down[OF f this] k torn_down_kept[OF ks, of c'] kept_sel(3)[OF ks]
      True False \<open>r = fst rc\<close>
    show ?thesis by simp
  next
    case ge: False
    with fin k False show ?thesis by auto
  qed
qed

lemma lasting_open_codec:
  assumes "encode_lavc_open_codec E c p = Some (r, c')"
  shows "lasting c c'"
  using open_codec_cases[OF assms]
  by (elim disjE conjE)
     (simp_all add: CHECK_FAIL_def torn_down_lasting kept_lasting)

lemma wf_open_codec:
  assumes "encode_lavc_open_codec E c p = Some (r, c')" and "wf c"
  shows "wf c'"
proof -
  have "avc c \<noteq> None" if "\<not> CHECK_FAIL c"
    using that assms(2) by (simp add: wf_def wf_mem_def CHECK_FAIL_def)
  with open_codec_cases[OF assms(1)] assms(2) show ?thesis
    by (elim disjE conjE) (simp_all add: torn_down_wf kept_wf)
qed

section \<open>Footprint of the preparation of a stream\<close>

lemma preparing_refl [simp]: "preparing c c"
  by (simp add: preparing_def)

lemma preparing_trans: "preparing c c1 \<Longrightarrow> preparing c1 c2 \<Longrightarrow> preparing c c2"
  unfolding preparing_def by (elim conjE, intro conjI impI) simp_all

lemma new_stream_Some:
  assumes "new_stream c = Some n"
  shows "\<exists>a. avc c = Some a \<and> snd n = length (streams a) \<and>
             fst n = c\<lparr>avc := Some (a\<lparr>streams := streams a @ [fresh_stream (length (streams a))]\<rparr>)\<rparr>"
  using assms by (auto simp: new_stream_def avformat_new_stream_def bind_eq_Some_conv)

lemma wf_mem_new_vst:
  "wf_mem c \<Longrightarrow> avc c = Some a \<Longrightarrow>
   wf_mem (c\<lparr>avc := Some (a\<lparr>streams := streams a @ [x]\<rparr>), vst := Some (length (streams a))\<rparr>)"
  by (simp add: wf_mem_def less_Suc_eq)

lemma wf_mem_new_ast:
  "wf_mem c \<Longrightarrow> avc c = Some a \<Longrightarrow>
   wf_mem (c\<lparr>avc := Some (a\<lparr>streams := streams a @ [x]\<rparr>), ast := Some (length (streams a))\<rparr>)"
  by (simp add: wf_mem_def less_Suc_eq)

lemma new_vst_preparing:
  assumes "new_stream c = Some n"
  shows "preparing c ((fst n)\<lparr>vst := Some (snd n)\<rparr>)"
proof -
  from new_stream_Some[OF assms] obtain a where a: "avc c = Some a" "snd n = length (streams a)"
    "fst n = c\<lparr>avc := Some (a\<lparr>streams := streams a @ [fresh_stream (length (streams a))]\<rparr>)\<rparr>"
    by blast
  then show ?thesis by (simp add: preparing_def wf_mem_new_vst)
qed

lemma new_ast_preparing:
  assumes "new_stream c = Some n"
  shows "preparing c ((fst n)\<lparr>ast := Some (snd n)\<rparr>)"
proof -
  from new_stream_Some[OF assms] obtain a where a: "avc c = Some a" "snd n = length (streams a)"
    "fst n = c\<lparr>avc := Some (a\<lparr>streams := streams a @ [fresh_stream (length (streams a))]\<rparr>)\<rparr>"
    by blast
  then show ?thesis by (simp add: preparing_def wf_mem_new_ast)
qed

lemma preparing_left_log [simp]: "preparing (mp_msg l f a c) c' = preparing c c'"
  by (simp add: preparing_def mp_msg_def)

lemma prealloc_preparing:
  assumes "prealloc_other c mt = Some c'"
  shows "preparing c c'"
  using assms
  by (auto simp: prealloc_other_def bind_eq_Some_conv split: if_splits
           dest: new_vst_preparing new_ast_preparing)

lemma ensure_vst_preparing: "ensure_vst c = Some c' \<Longrightarrow> preparing c c'"
  by (auto simp: ensure_vst_def bind_eq_Some_conv split: if_splits dest: new_vst_preparing)

lemma ensure_ast_preparing: "ensure_ast c = Some c' \<Longrightarrow> preparing c c'"
  by (auto simp: ensure_ast_def bind_eq_Some_conv split: if_splits dest: new_ast_preparing)

lemma negotiate_preparing: "negotiate_timebase E c = Some c' \<Longrightarrow> preparing c c'"
  by (auto simp: negotiate_timebase_def bind_eq_Some_conv preparing_def split: if_splits)

lemma preparing_lasting:
  assumes "preparing c c'" and "\<not> finished c" and "\<not> failed c"
  shows "lasting c c'"
  using assms by (intro lastingI) (simp_all add: preparing_def)


section \<open>Two-pass preparation\<close>

lemma set_option_flags_sel [simp]:
  "length (codec_mem (c\<lparr>mp_log := l\<rparr>)) = length (codec_mem c)"
  by simp

lemma prepare_pass1_kept:
  "kept c (fst (prepare_pass1 E a c d pre))"
  "header_written (fst (prepare_pass1 E a c d pre)) = header_written c"
  "avc (fst (prepare_pass1 E a c d pre)) = avc c"
  "codec_mem (fst (prepare_pass1 E a c d pre)) = codec_mem c"
  by (simp_all add: prepare_pass1_def Let_def mp_msg_def ext_def split: option.splits)

lemma same_time_bases_refl [simp]: "same_time_bases c c"
  by (simp add: same_time_bases_def)

lemma same_time_bases_trans:
  "same_time_bases c c1 \<Longrightarrow> same_time_bases c1 c2 \<Longrightarrow> same_time_bases c c2"
  unfolding same_time_bases_def by (metis (no_types, lifting))

lemma same_time_bases_codec_at:
  "codec_at c' = codec_at c1 \<Longrightarrow> same_time_bases c c' = same_time_bases c c1"
  by (simp add: same_time_bases_def)

lemma codec_upd_time_base:
  assumes "codec_at c p = Some cc" and "cc_time_base cc' = cc_time_base cc"
    and "codec_mem c1 = (codec_mem c)[p := Some cc']"
  shows "kept c (c\<lparr>codec_mem := codec_mem c1\<rparr>)" and "same_time_bases c c1"
proof -
  from assms(1) have p: "p < length (codec_mem c)" "codec_mem c ! p = Some cc"
    by (auto simp: codec_at_def split: if_splits)
  show "kept c (c\<lparr>codec_mem := codec_mem c1\<rparr>)"
    unfolding assms(3) by (simp del: not_None_eq)
  show "same_time_bases c c1"
    unfolding same_time_bases_def codec_at_def assms(3)
    using p assms(2) by (auto simp: nth_list_update)
qed

lemma kept_same_but_mem:
  assumes "kept c (c\<lparr>codec_mem := codec_mem c1\<rparr>)"
    and "c1 = c\<lparr>codec_mem := codec_mem c1, mp_log := mp_log c1, io_calls := io_calls c1\<rparr>"
  shows "kept c c1 \<and> header_written c1 = header_written c \<and> avc c1 = avc c"
proof -
  have "kept c (c\<lparr>codec_mem := codec_mem c1, mp_log := mp_log c1, io_calls := io_calls c1\<rparr>)"
    using assms(1) by simp
  moreover have "header_written (c\<lparr>codec_mem := codec_mem c1, mp_log := mp_log c1, io_calls := io_calls c1\<rparr>) = header_written c"
    "avc (c\<lparr>codec_mem := codec_mem c1, mp_log := mp_log c1, io_calls := io_calls c1\<rparr>) = avc c"
    by simp_all
  ultimately show ?thesis using assms(2) by metis
qed

lemma prepare_pass2_kept:
  assumes "prepare_pass2 E a c d p pre = Some r"
  shows "kept c (fst r) \<and> header_written (fst r) = header_written c \<and> avc (fst r) = avc c \<and>
         same_time_bases c (fst r)"
proof (cases "stream_open E (twopass_log_name a pre)")
  case None
  with assms obtain cc where cc: "codec_at c p = Some cc"
    and m: "codec_mem (fst r) = (codec_mem c)
               [p := Some (cc\<lparr>cc_flags := cc_flags cc AND NOT (AV_CODEC_FLAG_PASS2 E)\<rparr>)]"
    and r: "fst r = c\<lparr>codec_mem := codec_mem (fst r), mp_log := mp_log (fst r), io_calls := io_calls (fst r)\<rparr>"
    by (auto simp: prepare_pass2_def bind_eq_Some_conv Let_def mp_msg_def ext_def)
  from codec_upd_time_base[OF cc _ m] kept_same_but_mem[OF _ r] show ?thesis by simp
next
  case (Some s)
  show ?thesis
  proof (cases "stream_read_complete E s")
    case None
    with Some assms show ?thesis
      by (auto simp: prepare_pass2_def bind_eq_Some_conv Let_def mp_msg_def ext_def same_time_bases_def)
  next
    case (Some content)
    with \<open>stream_open E (twopass_log_name a pre) = Some s\<close> assms
    obtain cc where cc: "codec_at c p = Some cc"
      and m: "codec_mem (fst r) = (codec_mem c)[p := Some (cc\<lparr>stats_in := Some content\<rparr>)]"
      and r: "fst r = c\<lparr>codec_mem := codec_mem (fst r), mp_log := mp_log (fst r), io_calls := io_calls (fst r)\<rparr>"
      by (auto simp: prepare_pass2_def bind_eq_Some_conv Let_def ext_def)
    from codec_upd_time_base[OF cc _ m] kept_same_but_mem[OF _ r] show ?thesis by simp
  qed
qed

lemma twopass_kept:
  assumes "encode_2pass_prepare E c d p bb pre = Some r"
  shows "kept c (fst r) \<and> header_written (fst r) = header_written c \<and> avc (fst r) = avc c \<and>
         same_time_bases c (fst r)"
proof (cases bb)
  case (Some s)
  with assms show ?thesis by (auto simp: encode_2pass_prepare_def)
next
  case None
  with assms obtain a p2 where a: "avc c = Some a"
    and p2: "(if value_has_flag (twopass_flags E c) ''pass2''
              then prepare_pass2 E a c d p pre else Some (c, d, None)) = Some p2"
    and r: "r = (if value_has_flag (twopass_flags E c) ''pass1''
                 then prepare_pass1 E a (fst p2) (fst (snd p2)) pre else p2)"
    by (auto simp: encode_2pass_prepare_def bind_eq_Some_conv Let_def)
  have k2: "kept c (fst p2) \<and> header_written (fst p2) = header_written c \<and> avc (fst p2) = avc c \<and>
         same_time_bases c (fst p2)"
    using p2 prepare_pass2_kept[of E a c d p pre p2] by (auto split: if_splits)
  show ?thesis
  proof (cases "value_has_flag (twopass_flags E c) ''pass1''")
    case False
    with r k2 show ?thesis by simp
  next
    case True
    with r have r': "fst r = fst (prepare_pass1 E a (fst p2) (fst (snd p2)) pre)" by simp
    have "codec_at (fst r) = codec_at (fst p2)"
      unfolding r' by (simp add: codec_at_def fun_eq_iff prepare_pass1_kept)
    from same_time_bases_codec_at[OF this] k2 kept_trans[of c "fst p2" "fst r"] show ?thesis
      unfolding r' by (simp add: prepare_pass1_kept)
  qed
qed

section \<open>Footprint of filling a slot\<close>

lemma alloc_video_none:
  assumes "vc c = None" and "alloc_video E c = Some (r, c')" and "\<not> failed c" and "\<not> finished c"
  shows "r = (- 1, None, None) \<and>
         (c' = c \<or> torn_down c c' \<and> header_written c' = header_written c \<and> timebase c' = timebase c)"
proof -
  from assms(1,2) obtain a where a: "avc c = Some a"
    by (auto simp: alloc_video_def bind_eq_Some_conv)
  show ?thesis
  proof (cases "video_codec (oformat a) \<noteq> AV_CODEC_ID_NONE E \<or> vcodec (options c) \<noteq> None")
    case True
    with assms(1,2) a have f: "encode_lavc_fail E c ''vo-lavc: encoder not found\<newline>'' [] = Some c'"
      and "r = (- 1, None, None)"
      by (auto simp: alloc_video_def bind_eq_Some_conv)
    from fail_torn_down[OF f assms(3,4)] this(2) show ?thesis by simp
  next
    case False
    with assms(1,2) a show ?thesis by (auto simp: alloc_video_def)
  qed
qed

lemma alloc_video_some:
  assumes "vc c = Some v" and "alloc_video E c = Some (r, c')"
  shows "filled_video c c' \<and> r = (0, vst c, Some (length (codec_mem c)))"
proof -
  define so where "so = slot_options E ''vo-lavc: could not set option %s\<newline>'' (vopts (options c))"
  from assms obtain a i st where a: "avc c = Some a" and i: "vst c = Some i"
    and st: "stream_at a i = Some st"
    by (auto simp: alloc_video_def bind_eq_Some_conv)
  define c2 where "c2 = c\<lparr>vcc := Some (length (codec_mem c)),
       codec_mem := codec_mem c @ [Some ((avcodec_alloc_context3 E v)\<lparr>cc_time_base := timebase c\<rparr>)],
       avc := Some (a\<lparr>streams := (streams a)[i := st\<lparr>st_time_base := timebase c\<rparr>]\<rparr>),
       voptions := fst (so a (mp_log c)), mp_log := snd (so a (mp_log c))\<rparr>"
  from assms a i st obtain tp where
    tp: "encode_2pass_prepare E c2 (voptions c2) (length (codec_mem c)) (twopass_bytebuffer_v c2) ''vo-lavc'' = Some tp"
    and c': "c' = (fst tp)\<lparr>voptions := fst (snd tp), twopass_bytebuffer_v := snd (snd tp)\<rparr>"
    and r: "r = (0, vst c', vcc c')"
    by (auto simp: alloc_video_def bind_eq_Some_conv Let_def c2_def so_def)
  from st have il: "i < length (streams a)" and sti: "st = streams a ! i"
    by (auto simp: stream_at_def split: if_splits)
  note k = twopass_kept[OF tp]
  then have kk: "kept c2 (fst tp)" by simp
  have p: "codec_at c2 (length (codec_mem c))
             = Some ((avcodec_alloc_context3 E v)\<lparr>cc_time_base := timebase c\<rparr>)"
    by (simp add: c2_def codec_at_def)
  from k have "same_time_bases c2 (fst tp)" by simp
  with p have "\<exists>cc. codec_at (fst tp) (length (codec_mem c)) = Some cc \<and>
      cc_time_base cc = cc_time_base ((avcodec_alloc_context3 E v)\<lparr>cc_time_base := timebase c\<rparr>)"
    unfolding same_time_bases_def by blast
  then obtain cc where cc: "codec_at (fst tp) (length (codec_mem c)) = Some cc"
    "cc_time_base cc = timebase c"
    by auto
  have v: "codec_at c' q \<noteq> None" if "codec_at c q \<noteq> None" for q
  proof -
    from that have "codec_at c2 q \<noteq> None"
      by (auto simp: c2_def codec_at_def nth_append split: if_splits)
    from kept_valid[OF kk this] show ?thesis by (simp add: c')
  qed
  from kept_sel[OF kk] k have
    "vcc c' = Some (length (codec_mem c))" "vst c' = Some i" "ast c' = ast c" "acc c' = acc c"
    "avc c' = Some (a\<lparr>streams := (streams a)[i := (streams a ! i)\<lparr>st_time_base := timebase c\<rparr>]\<rparr>)"
    "length (codec_mem c') = Suc (length (codec_mem c))"
    "failed c' = failed c" "finished c' = finished c"
    "header_written c' = header_written c" "timebase c' = timebase c"
    "vbytes c' = vbytes c" "abytes c' = abytes c" "frames c' = frames c"
    "audioseconds c' = audioseconds c" "vc c' = vc c" "ac c' = ac c"
    "video_first c' = video_first c" "audio_first c' = audio_first c"
    "options c' = options c"
    by (simp_all add: c' c2_def i sti)
  with a i il cc v r assms(1) show ?thesis
    unfolding filled_video_def by (simp add: c' del: not_None_eq)
qed

lemma filled_video_wf_mem:
  assumes "filled_video c c'" and "wf_mem c"
  shows "wf_mem c'"
proof -
  from assms(1) obtain a i cc where f: "avc c = Some a" "i < length (streams a)"
    "vcc c' = Some (length (codec_mem c))" "vst c' = Some i" "ast c' = ast c" "acc c' = acc c"
    "avc c' = Some (a\<lparr>streams := (streams a)[i := (streams a ! i)\<lparr>st_time_base := timebase c\<rparr>]\<rparr>)"
    "\<forall>q. codec_at c q \<noteq> None \<longrightarrow> codec_at c' q \<noteq> None"
    "codec_at c' (length (codec_mem c)) = Some cc"
    unfolding filled_video_def by blast
  have o: "q < length (codec_mem c) \<and> codec_at c' q \<noteq> None" if "acc c = Some q" for q
  proof -
    from that assms(2) have "codec_at c q \<noteq> None" by (simp add: wf_mem_def)
    with f(8) show ?thesis by (auto simp: codec_at_def split: if_splits)
  qed
  show ?thesis unfolding wf_mem_def
  proof (intro conjI allI impI)
    show "avc c' \<noteq> None" using f by simp
    show "codec_at c' p \<noteq> None" if "vcc c' = Some p" for p using that f o by auto
    show "codec_at c' p \<noteq> None" if "acc c' = Some p" for p using that f o by auto
    show "vcc c' \<noteq> acc c'" using f o by (cases "acc c") auto
    show "j < length (streams a')" if "avc c' = Some a'" "vst c' = Some j" for a' j
      using that f assms(2) by (auto simp: wf_mem_def)
    show "j < length (streams a')" if "avc c' = Some a'" "ast c' = Some j" for a' j
      using that f assms(2) by (auto simp: wf_mem_def)
  qed
qed

lemma alloc_audio_none:
  assumes "ac c = None" and "alloc_audio E c = Some (r, c')" and "\<not> failed c" and "\<not> finished c"
  shows "r = (- 1, None, None) \<and>
         (c' = c \<or> torn_down c c' \<and> header_written c' = header_written c \<and> timebase c' = timebase c)"
proof -
  from assms(1,2) obtain a where a: "avc c = Some a"
    by (auto simp: alloc_audio_def bind_eq_Some_conv)
  show ?thesis
  proof (cases "audio_codec (oformat a) \<noteq> AV_CODEC_ID_NONE E \<or> acodec (options c) \<noteq> None")
    case True
    with assms(1,2) a have f: "encode_lavc_fail E c ''ao-lavc: encoder not found\<newline>'' [] = Some c'"
      and "r = (- 1, None, None)"
      by (auto simp: alloc_audio_def bind_eq_Some_conv)
    from fail_torn_down[OF f assms(3,4)] this(2) show ?thesis by simp
  next
    case False
    with assms(1,2) a show ?thesis by (auto simp: alloc_audio_def)
  qed
qed

lemma alloc_audio_some:
  assumes "ac c = Some v" and "alloc_audio E c = Some (r, c')"
  shows "filled_audio c c' \<and> r = (0, ast c, Some (length (codec_mem c)))"
proof -
  define so where "so = slot_options E ''ao-lavc: could not set option %s\<newline>'' (aopts (options c))"
  from assms obtain a i st where a: "avc c = Some a" and i: "ast c = Some i"
    and st: "stream_at a i = Some st"
    by (auto simp: alloc_audio_def bind_eq_Some_conv)
  define c2 where "c2 = c\<lparr>acc := Some (length (codec_mem c)),
       codec_mem := codec_mem c @ [Some ((avcodec_alloc_context3 E v)\<lparr>cc_time_base := timebase c\<rparr>)],
       avc := Some (a\<lparr>streams := (streams a)[i := st\<lparr>st_time_base := timebase c\<rparr>]\<rparr>),
       aoptions := fst (so a (mp_log c)), mp_log := snd (so a (mp_log c))\<rparr>"
  from assms a i st obtain tp where
    tp: "encode_2pass_prepare E c2 (aoptions c2) (length (codec_mem c)) (twopass_bytebuffer_a c2) ''ao-lavc'' = Some tp"
    and c': "c' = (fst tp)\<lparr>aoptions := fst (snd tp), twopass_bytebuffer_a := snd (snd tp)\<rparr>"
    and r: "r = (0, ast c', acc c')"
    by (auto simp: alloc_audio_def bind_eq_Some_conv Let_def c2_def so_def)
  from st have il: "i < length (streams a)" and sti: "st = streams a ! i"
    by (auto simp: stream_at_def split: if_splits)
  note k = twopass_kept[OF tp]
  then have kk: "kept c2 (fst tp)" by simp
  have p: "codec_at c2 (length (codec_mem c))
             = Some ((avcodec_alloc_context3 E v)\<lparr>cc_time_base := timebase c\<rparr>)"
    by (simp add: c2_def codec_at_def)
  from k have "same_time_bases c2 (fst tp)" by simp
  with p have "\<exists>cc. codec_at (fst tp) (length (codec_mem c)) = Some cc \<and>
      cc_time_base cc = cc_time_base ((avcodec_alloc_context3 E v)\<lparr>cc_time_base := timebase c\<rparr>)"
    unfolding same_time_bases_def by blast
  then obtain cc where cc: "codec_at (fst tp) (length (codec_mem c)) = Some cc"
    "cc_time_base cc = timebase c"
    by auto
  have v: "codec_at c' q \<noteq> None" if "codec_at c q \<noteq> None" for q
  proof -
    from that have "codec_at c2 q \<noteq> None"
      by (auto simp: c2_def codec_at_def nth_append split: if_splits)
    from kept_valid[OF kk this] show ?thesis by (simp add: c')
  qed
  from kept_sel[OF kk] k have
    "acc c' = Some (length (codec_mem c))" "ast c' = Some i" "vst c' = vst c" "vcc c' = vcc c"
    "avc c' = Some (a\<lparr>streams := (streams a)[i := (streams a ! i)\<lparr>st_time_base := timebase c\<rparr>]\<rparr>)"
    "length (codec_mem c') = Suc (length (codec_mem c))"
    "failed c' = failed c" "finished c' = finished c"
    "header_written c' = header_written c" "timebase c' = timebase c"
    "vbytes c' = vbytes c" "abytes c' = abytes c" "frames c' = frames c"
    "audioseconds c' = audioseconds c" "vc c' = vc c" "ac c' = ac c"
    "video_first c' = video_first c" "audio_first c' = audio_first c"
    "options c' = options c"
    by (simp_all add: c' c2_def i sti)
  with a i il cc v r assms(1) show ?thesis
    unfolding filled_audio_def by (simp add: c' del: not_None_eq)
qed

lemma filled_audio_wf_mem:
  assumes "filled_audio c c'" and "wf_mem c"
  shows "wf_mem c'"
proof -
  from assms(1) obtain a i cc where f: "avc c = Some a" "i < length (streams a)"
    "acc c' = Some (length (codec_mem c))" "ast c' = Some i" "vst c' = vst c" "vcc c' = vcc c"
    "avc c' = Some (a\<lparr>streams := (streams a)[i := (streams a ! i)\<lparr>st_time_base := timebase c\<rparr>]\<rparr>)"
    "\<forall>q. codec_at c q \<noteq> None \<longrightarrow> codec_at c' q \<noteq> None"
    "codec_at c' (length (codec_mem c)) = Some cc"
    unfolding filled_audio_def by blast
  have o: "q < length (codec_mem c) \<and> codec_at c' q \<noteq> None" if "vcc c = Some q" for q
  proof -
    from that assms(2) have "codec_at c q \<noteq> None" by (simp add: wf_mem_def)
    with f(8) show ?thesis by (auto simp: codec_at_def split: if_splits)
  qed
  show ?thesis unfolding wf_mem_def
  proof (intro conjI allI impI)
    show "avc c' \<noteq> None" using f by simp
    show "codec_at c' p \<noteq> None" if "vcc c' = Some p" for p using that f o by auto
    show "codec_at c' p \<noteq> None" if "acc c' = Some p" for p using that f o by auto
    show "vcc c' \<noteq> acc c'" using f o by (cases "vcc c") auto
    show "j < length (streams a')" if "avc c' = Some a'" "vst c' = Some j" for a' j
      using that f assms(2) by (auto simp: wf_mem_def)
    show "j < length (streams a')" if "avc c' = Some a'" "ast c' = Some j" for a' j
      using that f assms(2) by (auto simp: wf_mem_def)
  qed
qed

section \<open>Footprint of stream allocation\<close>

lemma preparing_running:
  "preparing c c' \<Longrightarrow> \<not> CHECK_FAIL c \<Longrightarrow> \<not> failed c' \<and> \<not> finished c'"
  by (simp add: preparing_def CHECK_FAIL_def)

lemma alloc_stream_running:
  assumes "encode_lavc_alloc_stream E c mt = Some (r, c')"
    and "\<not> CHECK_FAIL c" and "header_written c = 0"
  shows "\<exists>c4. preparing c c4 \<and>
          (r = (- 1, None, None) \<and> c' = c4 \<and>
             (vc c4 = None \<or> vcc c4 \<noteq> None \<or> ac c4 = None \<or> acc c4 \<noteq> None) \<or>
           r = (- 1, None, None) \<and> torn_down c4 c' \<and> header_written c' = header_written c4 \<and>
             timebase c' = timebase c4 \<or>
           mt = AVMEDIA_TYPE_VIDEO \<and> vcc c = None \<and> filled_video c4 c' \<and>
             r = (0, vst c4, Some (length (codec_mem c4))) \<or>
           mt = AVMEDIA_TYPE_AUDIO \<and> acc c = None \<and> filled_audio c4 c' \<and>
             r = (0, ast c4, Some (length (codec_mem c4))))"
proof -
  from assms obtain c2 where p: "prealloc_other c mt = Some c2"
    and rest: "(case mt of
           AVMEDIA_TYPE_VIDEO \<Rightarrow>
             if vcc c2 \<noteq> None then Some ((- 1, None, None), c2)
             else do {
               c3 \<leftarrow> ensure_vst c2;
               c4 \<leftarrow> negotiate_timebase E c3;
               alloc_video E c4 }
         | AVMEDIA_TYPE_AUDIO \<Rightarrow>
             if acc c2 \<noteq> None then Some ((- 1, None, None), c2)
             else do {
               c3 \<leftarrow> ensure_ast c2;
               c4 \<leftarrow> negotiate_timebase E c3;
               alloc_audio E c4 }
         | _ \<Rightarrow> do {
             c \<leftarrow> encode_lavc_fail E c2 ''requested invalid stream type\<newline>'' [];
             Some ((- 1, None, None), c) }) = Some (r, c')"
    by (auto simp: encode_lavc_alloc_stream_def bind_eq_Some_conv)
  have pc2: "preparing c c2" using p by (rule prealloc_preparing)
  note r2 = preparing_running[OF pc2 assms(2)]
  have other: ?thesis
    if "encode_lavc_fail E c2 ''requested invalid stream type\<newline>'' [] = Some c'"
      and "r = (- 1, None, None)"
    using fail_torn_down[OF that(1)] r2 that(2) pc2 by blast
  show ?thesis
  proof (cases mt)
    case AVMEDIA_TYPE_VIDEO
    show ?thesis
    proof (cases "vcc c2 \<noteq> None")
      case True
      with rest AVMEDIA_TYPE_VIDEO have "r = (- 1, None, None)" "c' = c2" by auto
      with pc2 True show ?thesis by blast
    next
      case False
      with rest AVMEDIA_TYPE_VIDEO obtain c3 c4 where s: "ensure_vst c2 = Some c3"
        "negotiate_timebase E c3 = Some c4" "alloc_video E c4 = Some (r, c')"
        by (auto simp: bind_eq_Some_conv)
      have pc4: "preparing c c4"
        using pc2 ensure_vst_preparing[OF s(1)] negotiate_preparing[OF s(2)]
        by (blast intro: preparing_trans)
      note r4 = preparing_running[OF pc4 assms(2)]
      from pc2 False have v: "vcc c = None" by (simp add: preparing_def)
      show ?thesis
      proof (cases "vc c4")
        case None
        from alloc_video_none[OF None s(3)] r4 None pc4 show ?thesis by blast
      next
        case (Some v')
        from alloc_video_some[OF Some s(3)] pc4 v AVMEDIA_TYPE_VIDEO show ?thesis by blast
      qed
    qed
  next
    case AVMEDIA_TYPE_AUDIO
    show ?thesis
    proof (cases "acc c2 \<noteq> None")
      case True
      with rest AVMEDIA_TYPE_AUDIO have "r = (- 1, None, None)" "c' = c2" by auto
      with pc2 True show ?thesis by blast
    next
      case False
      with rest AVMEDIA_TYPE_AUDIO obtain c3 c4 where s: "ensure_ast c2 = Some c3"
        "negotiate_timebase E c3 = Some c4" "alloc_audio E c4 = Some (r, c')"
        by (auto simp: bind_eq_Some_conv)
      have pc4: "preparing c c4"
        using pc2 ensure_ast_preparing[OF s(1)] negotiate_preparing[OF s(2)]
        by (blast intro: preparing_trans)
      note r4 = preparing_running[OF pc4 assms(2)]
      from pc2 False have v: "acc c = None" by (simp add: preparing_def)
      show ?thesis
      proof (cases "ac c4")
        case None
        from alloc_audio_none[OF None s(3)] r4 None pc4 show ?thesis by blast
      next
        case (Some v')
        from alloc_audio_some[OF Some s(3)] pc4 v AVMEDIA_TYPE_AUDIO show ?thesis by blast
      qed
    qed
  next
    case AVMEDIA_TYPE_UNKNOWN
    with rest have "encode_lavc_fail E c2 ''requested invalid stream type\<newline>'' [] = Some c'"
      "r = (- 1, None, None)"
      by (auto simp: bind_eq_Some_conv)
    then show ?thesis by (rule other)
  next
    case AVMEDIA_TYPE_DATA
    with rest have "encode_lavc_fail E c2 ''requested invalid stream type\<newline>'' [] = Some c'"
      "r = (- 1, None, None)"
      by (auto simp: bind_eq_Some_conv)
    then show ?thesis by (rule other)
  next
    case AVMEDIA_TYPE_SUBTITLE
    with rest have "encode_lavc_fail E c2 ''requested invalid stream type\<newline>'' [] = Some c'"
      "r = (- 1, None, None)"
      by (auto simp: bind_eq_Some_conv)
    then show ?thesis by (rule other)
  next
    case AVMEDIA_TYPE_ATTACHMENT
    with rest have "encode_lavc_fail E c2 ''requested invalid stream type\<newline>'' [] = Some c'"
      "r = (- 1, None, None)"
      by (auto simp: bind_eq_Some_conv)
    then show ?thesis by (rule other)
  qed
qed

lemma alloc_stream_guarded:
  "CHECK_FAIL c \<Longrightarrow> encode_lavc_alloc_stream E c mt = Some ((- 1, None, None), bail_out c)"
  "\<not> CHECK_FAIL c \<Longrightarrow> header_written c \<noteq> 0 \<Longrightarrow>
   encode_lavc_alloc_stream E c mt = Some ((- 1, None, None), c)"
  by (simp_all add: encode_lavc_alloc_stream_def)

lemma filled_video_lasting: "filled_video c c' \<Longrightarrow> \<not> finished c \<Longrightarrow> lasting c c'"
  unfolding filled_video_def lasting_def by (elim exE conjE, intro conjI impI) simp_all

lemma filled_audio_lasting: "filled_audio c c' \<Longrightarrow> \<not> finished c \<Longrightarrow> lasting c c'"
  unfolding filled_audio_def lasting_def by (elim exE conjE, intro conjI impI) simp_all

lemma lasting_alloc_stream:
  assumes "encode_lavc_alloc_stream E c mt = Some (r, c')"
  shows "lasting c c'"
proof (cases "CHECK_FAIL c \<or> header_written c \<noteq> 0")
  case True
  with assms show ?thesis by (cases "CHECK_FAIL c") (auto simp: alloc_stream_guarded)
next
  case False
  then have g: "\<not> CHECK_FAIL c" "header_written c = 0" by simp_all
  from alloc_stream_running[OF assms g] obtain c4 where p: "preparing c c4"
    and d: "c' = c4 \<or>
            torn_down c4 c' \<and> header_written c' = header_written c4 \<and> timebase c' = timebase c4 \<or>
            filled_video c4 c' \<or> filled_audio c4 c'"
    by blast
  from g have n: "\<not> finished c" "\<not> failed c" by (simp_all add: CHECK_FAIL_def)
  note l = preparing_lasting[OF p n]
  note r4 = preparing_running[OF p g(1)]
  from d show ?thesis
  proof (elim disjE)
    assume "c' = c4" with l show ?thesis by simp
  next
    assume "torn_down c4 c' \<and> header_written c' = header_written c4 \<and> timebase c' = timebase c4"
    with r4 have "lasting c4 c'" by (intro torn_down_lasting) simp_all
    with l show ?thesis by (rule lasting_trans)
  next
    assume "filled_video c4 c'"
    with r4 have "lasting c4 c'" by (simp add: filled_video_lasting)
    with l show ?thesis by (rule lasting_trans)
  next
    assume "filled_audio c4 c'"
    with r4 have "lasting c4 c'" by (simp add: filled_audio_lasting)
    with l show ?thesis by (rule lasting_trans)
  qed
qed

lemma filled_video_wf: "filled_video c c' \<Longrightarrow> wf_mem c \<Longrightarrow> failed c \<longrightarrow> finished c \<Longrightarrow> wf c'"
  unfolding wf_def using filled_video_wf_mem[of c c']
  by (auto simp: filled_video_def)

lemma filled_audio_wf: "filled_audio c c' \<Longrightarrow> wf_mem c \<Longrightarrow> failed c \<longrightarrow> finished c \<Longrightarrow> wf c'"
  unfolding wf_def using filled_audio_wf_mem[of c c']
  by (auto simp: filled_audio_def)

lemma wf_alloc_stream:
  assumes "encode_lavc_alloc_stream E c mt = Some (r, c')" and "wf c"
  shows "wf c'"
proof (cases "CHECK_FAIL c \<or> header_written c \<noteq> 0")
  case True
  with assms show ?thesis by (cases "CHECK_FAIL c") (auto simp: alloc_stream_guarded)
next
  case False
  then have g: "\<not> CHECK_FAIL c" "header_written c = 0" by simp_all
  from alloc_stream_running[OF assms(1) g] obtain c4 where p: "preparing c c4"
    and d: "c' = c4 \<and> (vc c4 = None \<or> vcc c4 \<noteq> None \<or> ac c4 = None \<or> acc c4 \<noteq> None) \<or>
            torn_down c4 c' \<or> filled_video c4 c' \<or> filled_audio c4 c'"
    by blast
  note r4 = preparing_running[OF p g(1)]
  from p assms(2) have m: "wf_mem c4" by (simp add: preparing_def wf_def)
  from g assms(2) p have a: "avc c4 \<noteq> None"
    by (simp add: CHECK_FAIL_def wf_def wf_mem_def preparing_def)
  from d show ?thesis
  proof (elim disjE)
    assume "c' = c4 \<and> (vc c4 = None \<or> vcc c4 \<noteq> None \<or> ac c4 = None \<or> acc c4 \<noteq> None)"
    with m r4 show ?thesis by (auto simp: wf_def)
  next
    assume "torn_down c4 c'" then show ?thesis using a by (rule torn_down_wf)
  next
    assume "filled_video c4 c'" with m r4 show ?thesis by (simp add: filled_video_wf)
  next
    assume "filled_audio c4 c'" with m r4 show ?thesis by (simp add: filled_audio_wf)
  qed
qed

section \<open>Invariants over sequences of operations\<close>

lemma wf_aux [simp]:
  "wf (mp_log_update f1 c) = wf c"
  "wf (metadata_update f2 c) = wf c"
  "wf (vo_fps_update f3 c) = wf c"
  "wf (foptions_update f4 c) = wf c"
  "wf (aoptions_update f5 c) = wf c"
  "wf (voptions_update f6 c) = wf c"
  "wf (audio_pts_offset_update f7 c) = wf c"
  "wf (last_video_in_pts_update f8 c) = wf c"
  "wf (last_audio_in_pts_update f9 c) = wf c"
  "wf (samples_since_last_pts_update f10 c) = wf c"
  "wf (discontinuity_pts_offset_update f11 c) = wf c"
  "wf (twopass_bytebuffer_a_update f12 c) = wf c"
  "wf (twopass_bytebuffer_v_update f13 c) = wf c"
  "wf (t0_update f14 c) = wf c"
  "wf (expect_video_update f15 c) = wf c"
  "wf (expect_audio_update f16 c) = wf c"
  "wf (io_calls_update f17 c) = wf c"
  "wf (header_written_update f18 c) = wf c"
  "wf (timebase_update f19 c) = wf c"
  "wf (vbytes_update f20 c) = wf c"
  "wf (abytes_update f21 c) = wf c"
  "wf (frames_update f22 c) = wf c"
  "wf (audioseconds_update f23 c) = wf c"
  by (simp_all add: wf_def)

lemma wf_log [simp]:
  "wf (mp_msg l f a c) = wf c"
  "wf (ext e c) = wf c"
  "wf (account_frame st pk c) = wf c"
  "wf (flush_stats b cc c) = wf c"
  by (simp_all add: mp_msg_def ext_def account_frame_def flush_stats_def
        split: AVMediaType.splits option.splits)

lemma wf_guarded:
  "wf (snd (encode_lavc_available c)) = wf c"
  "wf (snd (encode_lavc_oformat_flags c)) = wf c"
  "wf (snd (encode_lavc_supports_pixfmt E c pf)) = wf c"
  "wf (encode_lavc_discontinuity E c) = wf c"
  "wf (encode_lavc_expect_stream c mt) = wf c"
  by (simp_all add: encode_lavc_available_def encode_lavc_oformat_flags_def
        encode_lavc_supports_pixfmt_def encode_lavc_discontinuity_def
        encode_lavc_expect_stream_def split: option.splits AVMediaType.splits)

lemma wf_hints:
  "wf (encode_lavc_set_video_fps c fp) = wf c"
  "wf (encode_lavc_set_audio_pts c pt) = wf c"
  "wf (encode_lavc_set_metadata E c md) = wf c"
  by (simp_all add: encode_lavc_set_video_fps_def encode_lavc_set_audio_pts_def
        encode_lavc_set_metadata_def Let_def)

lemma wf_getoffset: "encode_lavc_getoffset c p = Some (r, c') \<Longrightarrow> wf c \<Longrightarrow> wf c'"
  by (auto simp: encode_lavc_getoffset_def bind_eq_Some_conv split: if_splits)

lemma wf_get_csp: "encode_lavc_get_csp E c p = Some (r, c') \<Longrightarrow> wf c \<Longrightarrow> wf c'"
  by (auto simp: encode_lavc_get_csp_def bind_eq_Some_conv split: if_splits)

lemma wf_get_csp_levels: "encode_lavc_get_csp_levels E c p = Some (r, c') \<Longrightarrow> wf c \<Longrightarrow> wf c'"
  by (auto simp: encode_lavc_get_csp_levels_def bind_eq_Some_conv split: if_splits)

lemma wf_codec_upd:
  assumes "wf c" and "codec_at c p = Some cc"
  shows "wf (c\<lparr>codec_mem := (codec_mem c)[p := Some x]\<rparr>)"
proof -
  have "kept c (c\<lparr>codec_mem := (codec_mem c)[p := Some x]\<rparr>)" by simp
  then show ?thesis using assms(1) by (rule kept_wf)
qed

lemma wf_set_csp: "encode_lavc_set_csp E c p v = Some (r, c') \<Longrightarrow> wf c \<Longrightarrow> wf c'"
  by (auto simp: encode_lavc_set_csp_def bind_eq_Some_conv wf_codec_upd split: if_splits)

lemma wf_set_csp_levels: "encode_lavc_set_csp_levels E c p v = Some (r, c') \<Longrightarrow> wf c \<Longrightarrow> wf c'"
  by (auto simp: encode_lavc_set_csp_levels_def bind_eq_Some_conv wf_codec_upd split: if_splits)

lemma wf_write_stats:
  assumes "encode_lavc_write_stats c p = Some c'" and "wf c"
  shows "wf c'"
proof (cases "CHECK_FAIL c")
  case True
  with assms show ?thesis by (auto simp: encode_lavc_write_stats_def)
next
  case False
  with assms obtain cc where "c' = (case codec_type cc of
                AVMEDIA_TYPE_VIDEO \<Rightarrow> flush_stats (twopass_bytebuffer_v c) cc c
              | AVMEDIA_TYPE_AUDIO \<Rightarrow> flush_stats (twopass_bytebuffer_a c) cc c
              | _ \<Rightarrow> c)"
    by (auto simp: encode_lavc_write_stats_def bind_eq_Some_conv)
  with assms(2) show ?thesis by (cases "codec_type cc") simp_all
qed

lemma wf_getstatus: "encode_lavc_getstatus E c n f = Some (r, c') \<Longrightarrow> wf c \<Longrightarrow> wf c'"
  by (auto simp: encode_lavc_getstatus_def bind_eq_Some_conv Let_def split: if_splits)

lemma wf_write_frame: "encode_lavc_write_frame E c st pk = Some (r, c') \<Longrightarrow> wf c \<Longrightarrow> wf c'"
  by (auto simp: encode_lavc_write_frame_def trace_frame_def bind_eq_Some_conv Let_def
        split: if_splits)

lemma wf_finish:
  assumes "encode_lavc_finish E c = Some c'" and "wf c"
  shows "wf c'"
proof (cases "finished c")
  case True
  with assms show ?thesis by (simp add: finish_finished)
next
  case False
  from finish_sel[OF assms(1) False] assms(2) wf_mem_finish[OF _ assms(1)]
  show ?thesis by (simp add: wf_def)
qed

lemma wf_fail:
  assumes "encode_lavc_fail E c f a = Some c'" and "wf c"
  shows "wf c'"
proof -
  from assms have m: "wf_mem c'" by (auto simp: wf_def intro: wf_mem_fail)
  show ?thesis
  proof (cases "failed c")
    case True
    with assms show ?thesis by (auto simp: fail_failed)
  next
    case False
    show ?thesis
    proof (cases "finished c")
      case True
      with False assms m show ?thesis by (auto simp: fail_finished wf_def mp_msg_def)
    next
      case f: False
      from fail_sel[OF assms(1) False f] m show ?thesis by (simp add: wf_def)
    qed
  qed
qed

lemma init_context_sel:
  "failed (init_context E opts) = False"
  "finished (init_context E opts) = False"
  "header_written (init_context E opts) = 0"
  "audioseconds (init_context E opts) = 0"
  "timebase (init_context E opts) = \<lparr>num = 0, den = 0\<rparr>"
  "vcc (init_context E opts) = None"
  "acc (init_context E opts) = None"
  "vst (init_context E opts) = None"
  "ast (init_context E opts) = None"
  "codec_mem (init_context E opts) = []"
  "options (init_context E opts) = opts"
  by (simp_all add: init_context_def encode_lavc_discontinuity_def CHECK_FAIL_def
        zero_context_def ext_def)

lemma init_fresh:
  assumes "encode_lavc_init E opts = Some c"
  shows "\<not> failed c \<and> \<not> finished c \<and> header_written c = 0 \<and> vbytes c = 0 \<and> abytes c = 0 \<and>
         frames c = 0 \<and> audioseconds c = 0 \<and> den (timebase c) = 0 \<and>
         vcc c = None \<and> acc c = None \<and> vst c = None \<and> ast c = None \<and> codec_mem c = [] \<and>
         options c = opts \<and> (\<exists>a. avc c = Some a \<and> streams a = [])"
proof -
  from assms obtain f where "c = (init_context E opts)
                 \<lparr> avc := Some \<lparr>oformat = f, url = init_filename opts, pb = None, streams = [],
                                av_metadata = []\<rparr>,
                   foptions := fst (init_foptions E opts (mp_log (init_context E opts))),
                   mp_log := snd (init_foptions E opts (mp_log (init_context E opts))),
                   vc := init_encoder E AVMEDIA_TYPE_VIDEO (vcodec opts) f (init_filename opts),
                   ac := init_encoder E AVMEDIA_TYPE_AUDIO (acodec opts) f (init_filename opts),
                   abytes := 0, vbytes := 0, frames := 0,
                   video_first := (opt_video_first opts \<or> video_first (init_context E opts)),
                   audio_first := (opt_audio_first opts \<or> audio_first (init_context E opts)) \<rparr>"
    unfolding encode_lavc_init_def by (auto split: option.splits if_splits)
  then show ?thesis by (simp add: init_context_sel)
qed

lemma wf_init:
  assumes "encode_lavc_init E opts = Some c"
  shows "wf c"
  using init_fresh[OF assms] by (auto simp: wf_def wf_mem_def)

lemma wf_exec:
  assumes "exec E x c = Some (r, c')" and "wf c"
  shows "wf c'"
proof (cases x)
  case Start
  with assms show ?thesis by (auto dest: wf_start)
next
  case (AllocStream mt)
  with assms show ?thesis by (auto dest: wf_alloc_stream)
next
  case (OpenCodec p)
  with assms show ?thesis by (auto dest: wf_open_codec)
next
  case (WriteFrame st pk)
  with assms show ?thesis by (auto dest: wf_write_frame)
next
  case (WriteStats p)
  with assms show ?thesis by (auto dest: wf_write_stats)
next
  case (GetStatus n f)
  with assms show ?thesis by (auto dest: wf_getstatus)
next
  case Discontinuity
  with assms show ?thesis by (auto simp: wf_guarded)
next
  case (ExpectStream mt)
  with assms show ?thesis by (auto simp: wf_guarded)
next
  case (SetCsp p v)
  with assms show ?thesis by (auto dest: wf_set_csp)
next
  case (SetCspLevels p v)
  with assms show ?thesis by (auto dest: wf_set_csp_levels)
next
  case (GetCsp p)
  with assms show ?thesis by (auto dest: wf_get_csp)
next
  case (GetCspLevels p)
  with assms show ?thesis by (auto dest: wf_get_csp_levels)
next
  case Available
  with assms wf_guarded(1)[of c] show ?thesis by (auto split: prod.splits)
next
  case OformatFlags
  with assms wf_guarded(2)[of c] show ?thesis by (auto split: prod.splits)
next
  case (SupportsPixfmt pf)
  with assms wf_guarded(3)[of E c pf] show ?thesis by (auto split: prod.splits)
next
  case (GetOffset p)
  with assms show ?thesis by (auto dest: wf_getoffset)
next
  case DidFail
  with assms show ?thesis by auto
next
  case (SetVideoFps f)
  with assms show ?thesis by (auto simp: wf_hints)
next
  case (SetAudioPts p)
  with assms show ?thesis by (auto simp: wf_hints)
next
  case (SetMetadata md)
  with assms show ?thesis by (auto simp: wf_hints)
next
  case Finish
  with assms show ?thesis by (auto dest: wf_finish)
next
  case (Fail f a)
  with assms show ?thesis by (auto dest: wf_fail)
qed

lemma lasting_exec:
  assumes "exec E x c = Some (r, c')"
  shows "lasting c c'"
proof (cases x)
  case Start
  with assms show ?thesis by (auto dest: lasting_start)
next
  case (AllocStream mt)
  with assms show ?thesis by (auto dest: lasting_alloc_stream)
next
  case (OpenCodec p)
  with assms show ?thesis by (auto dest: lasting_open_codec)
next
  case (WriteFrame st pk)
  with assms show ?thesis by (auto dest: lasting_write_frame)
next
  case (WriteStats p)
  with assms show ?thesis by (auto dest: lasting_write_stats)
next
  case (GetStatus n f)
  with assms show ?thesis by (auto dest: lasting_getstatus)
next
  case Discontinuity
  with assms show ?thesis by (auto simp: lasting_guarded)
next
  case (ExpectStream mt)
  with assms show ?thesis by (auto simp: lasting_guarded)
next
  case (SetCsp p v)
  with assms show ?thesis by (auto dest: lasting_set_csp)
next
  case (SetCspLevels p v)
  with assms show ?thesis by (auto dest: lasting_set_csp_levels)
next
  case (GetCsp p)
  with assms show ?thesis by (auto dest: lasting_get_csp)
next
  case (GetCspLevels p)
  with assms show ?thesis by (auto dest: lasting_get_csp_levels)
next
  case Available
  with assms lasting_guarded(1)[of c] show ?thesis by (auto split: prod.splits)
next
  case OformatFlags
  with assms lasting_guarded(2)[of c] show ?thesis by (auto split: prod.splits)
next
  case (SupportsPixfmt pf)
  with assms lasting_guarded(3)[of c E pf] show ?thesis by (auto split: prod.splits)
next
  case (GetOffset p)
  with assms show ?thesis by (auto dest: lasting_getoffset)
next
  case DidFail
  with assms show ?thesis by auto
next
  case (SetVideoFps f)
  with assms show ?thesis by (auto simp: lasting_hints)
next
  case (SetAudioPts p)
  with assms show ?thesis by (auto simp: lasting_hints)
next
  case (SetMetadata md)
  with assms show ?thesis by (auto simp: lasting_hints)
next
  case Finish
  with assms show ?thesis by (auto dest: lasting_finish)
next
  case (Fail f a)
  with assms show ?thesis by (auto dest: lasting_fail)
qed

lemma lasting_run: "run ops c = Some c' \<Longrightarrow> lasting c c'"
proof (induction ops arbitrary: c)
  case Nil
  then show ?case by simp
next
  case (Cons x xs)
  then obtain rc where e: "exec (fst x) (snd x) c = Some rc" and r: "run xs (snd rc) = Some c'"
    by (auto split: option.splits)
  from e have "lasting c (snd rc)" by (cases rc) (auto dest: lasting_exec)
  with Cons.IH[OF r] show ?case by (blast intro: lasting_trans)
qed

lemma wf_run: "run ops c = Some c' \<Longrightarrow> wf c \<Longrightarrow> wf c'"
proof (induction ops arbitrary: c)
  case Nil
  then show ?case by simp
next
  case (Cons x xs)
  then obtain rc where e: "exec (fst x) (snd x) c = Some rc" and r: "run xs (snd rc) = Some c'"
    by (auto split: option.splits)
  from e Cons.prems(2) have "wf (snd rc)" by (cases rc) (auto dest: wf_exec)
  with Cons.IH[OF r] show ?case by blast
qed

lemma reachable_wf: "reachable c \<Longrightarrow> wf c"
  by (induction rule: reachable.induct) (auto dest: wf_init wf_exec)

lemma reachable_run: "reachable c \<Longrightarrow> run ops c = Some c' \<Longrightarrow> reachable c'"
proof (induction ops arbitrary: c)
  case Nil
  then show ?case by simp
next
  case (Cons x xs)
  then obtain rc where e: "exec (fst x) (snd x) c = Some rc" and r: "run xs (snd rc) = Some c'"
    by (auto split: option.splits)
  from e Cons.prems(1) have "reachable (snd rc)" by (cases rc) (auto intro: reachable_step)
  with Cons.IH[OF _ r] show ?case by blast
qed

section \<open>Concrete sessions and the guard\<close>

lemma session_reachable: "session opts ops = Some c \<Longrightarrow> reachable c"
  by (auto simp: session_def bind_eq_Some_conv intro: reachable_init reachable_run)

lemma session_the: "session opts ops \<noteq> None \<Longrightarrow> reachable (the (session opts ops))"
  by (auto intro: session_reachable)

lemma fresh_session_reachable: "reachable fresh_session"
  unfolding fresh_session_def by (rule session_the) code_simp

lemma video_allocated_reachable: "reachable video_allocated"
  unfolding video_allocated_def by (rule session_the) code_simp

lemma started_session_reachable: "reachable started_session"
  unfolding started_session_def by (rule session_the) code_simp

lemma video_first_session_reachable: "reachable video_first_session"
  unfolding video_first_session_def by (rule session_the) code_simp

lemma start_guarded:
  "header_written c < 0 \<Longrightarrow> encode_lavc_start E c = Some (0, c)"
  "header_written c > 0 \<Longrightarrow> encode_lavc_start E c = Some (1, c)"
  "header_written c = 0 \<Longrightarrow> CHECK_FAIL c \<Longrightarrow> encode_lavc_start E c = Some (0, bail_out c)"
  by (simp_all add: encode_lavc_start_def)

lemma bail_out_sel [simp]:
  "vbytes (bail_out c) = vbytes c" "abytes (bail_out c) = abytes c"
  "frames (bail_out c) = frames c" "audioseconds (bail_out c) = audioseconds c"
  "vst (bail_out c) = vst c" "ast (bail_out c) = ast c"
  "vcc (bail_out c) = vcc c" "acc (bail_out c) = acc c"
  "avc (bail_out c) = avc c" "io_calls (bail_out c) = io_calls c"
  "header_written (bail_out c) = header_written c"
  "failed (bail_out c) = failed c" "finished (bail_out c) = finished c"
  "timebase (bail_out c) = timebase c" "codec_mem (bail_out c) = codec_mem c"
  by (simp_all add: bail_out_def mp_msg_def)

lemma fail_latches:
  assumes "encode_lavc_fail E c f a = Some c'" and "failed c \<longrightarrow> finished c"
  shows "failed c' \<and> finished c'"
proof (cases "failed c")
  case True
  with assms show ?thesis by (auto simp: fail_failed mp_msg_def)
next
  case False
  show ?thesis
  proof (cases "finished c")
    case True
    with False assms show ?thesis by (auto simp: fail_finished mp_msg_def)
  next
    case f: False
    from fail_sel[OF assms(1) False f] show ?thesis by simp
  qed
qed

lemma guarded_exec:
  assumes "CHECK_FAIL c" and "guarded x"
  shows "exec E x c = Some (failure_sentinel x c, if x = Start \<and> header_written c \<noteq> 0 then c else bail_out c)"
proof (cases x)
  case Start
  with assms show ?thesis
    by (cases "header_written c < 0"; cases "header_written c > 0")
       (auto simp: start_guarded)
next
  case (AllocStream mt)
  with assms show ?thesis by (simp add: alloc_stream_guarded)
next
  case (OpenCodec p)
  with assms show ?thesis by (simp add: encode_lavc_open_codec_def)
next
  case (WriteFrame st pk)
  with assms show ?thesis by (simp add: encode_lavc_write_frame_def)
next
  case (WriteStats p)
  with assms show ?thesis by (simp add: encode_lavc_write_stats_def)
next
  case (GetStatus n f)
  with assms show ?thesis by (simp add: encode_lavc_getstatus_def)
next
  case Discontinuity
  with assms show ?thesis by (simp add: encode_lavc_discontinuity_def)
next
  case (ExpectStream mt)
  with assms show ?thesis by (simp add: encode_lavc_expect_stream_def)
next
  case (SetCsp p v)
  with assms show ?thesis by (simp add: encode_lavc_set_csp_def)
next
  case (SetCspLevels p v)
  with assms show ?thesis by (simp add: encode_lavc_set_csp_levels_def)
next
  case (GetCsp p)
  with assms show ?thesis by (simp add: encode_lavc_get_csp_def)
next
  case (GetCspLevels p)
  with assms show ?thesis by (simp add: encode_lavc_get_csp_levels_def)
next
  case Available
  with assms show ?thesis by (simp add: encode_lavc_available_def)
next
  case OformatFlags
  with assms show ?thesis by (simp add: encode_lavc_oformat_flags_def)
next
  case (SupportsPixfmt pf)
  with assms show ?thesis by (simp add: encode_lavc_supports_pixfmt_def)
next
  case (GetOffset p)
  with assms show ?thesis by (simp add: encode_lavc_getoffset_def)
next
  case DidFail
  with assms show ?thesis by simp
next
  case (SetVideoFps f)
  with assms show ?thesis by simp
next
  case (SetAudioPts p)
  with assms show ?thesis by simp
next
  case (SetMetadata md)
  with assms show ?thesis by simp
next
  case Finish
  with assms show ?thesis by simp
next
  case (Fail f a)
  with assms show ?thesis by simp
qed

section \<open>Writing a frame\<close>

lemma write_frame_passes:
  assumes "\<not> failed c" and "\<not> finished c" and "st_index st = stream_index pk"
    and "0 < header_written c" and "avc c = Some a"
  shows "encode_lavc_write_frame E c st pk =
           Some (av_interleaved_write_frame E a pk,
                 ext (AvInterleavedWriteFrame pk) (account_frame st pk (trace_frame st pk c)))"
proof -
  have "avc (account_frame st pk (trace_frame st pk c)) = avc c"
    by (simp add: account_frame_def trace_frame_def mp_msg_def split: AVMediaType.splits)
  with assms show ?thesis
    by (simp add: encode_lavc_write_frame_def CHECK_FAIL_def Let_def)
qed

lemma account_frame_sel [simp]:
  "failed (account_frame st pk c) = failed c"
  "finished (account_frame st pk c) = finished c"
  "header_written (account_frame st pk c) = header_written c"
  "avc (account_frame st pk c) = avc c"
  "io_calls (account_frame st pk c) = io_calls c"
  "mp_log (account_frame st pk c) = mp_log c"
  by (simp_all add: account_frame_def split: AVMediaType.splits)

lemma account_frame_video:
  "codecpar_codec_type st = AVMEDIA_TYPE_VIDEO \<Longrightarrow>
   vbytes (account_frame st pk c) = vbytes c + scast (pkt_size pk) \<and>
   frames (account_frame st pk c) = frames c + 1 \<and>
   abytes (account_frame st pk c) = abytes c \<and>
   audioseconds (account_frame st pk c) = audioseconds c"
  by (simp add: account_frame_def)

lemma account_frame_audio:
  "codecpar_codec_type st = AVMEDIA_TYPE_AUDIO \<Longrightarrow>
   abytes (account_frame st pk c) = abytes c + scast (pkt_size pk) \<and>
   audioseconds (account_frame st pk c) =
     audioseconds c + real_of_int (sint (duration pk)) * real_of_int (num (st_time_base st))
                       / real_of_int (den (st_time_base st)) \<and>
   vbytes (account_frame st pk c) = vbytes c \<and>
   frames (account_frame st pk c) = frames c"
  by (simp add: account_frame_def)

lemma log_sel [simp]:
  "failed (mp_msg l f x c) = failed c" "finished (mp_msg l f x c) = finished c"
  "header_written (mp_msg l f x c) = header_written c" "avc (mp_msg l f x c) = avc c"
  "io_calls (mp_msg l f x c) = io_calls c"
  "vbytes (mp_msg l f x c) = vbytes c" "abytes (mp_msg l f x c) = abytes c"
  "frames (mp_msg l f x c) = frames c" "audioseconds (mp_msg l f x c) = audioseconds c"
  "failed (ext e c) = failed c" "finished (ext e c) = finished c"
  "header_written (ext e c) = header_written c" "avc (ext e c) = avc c"
  "io_calls (ext e c) = io_calls c @ [e]"
  "vbytes (ext e c) = vbytes c" "abytes (ext e c) = abytes c"
  "frames (ext e c) = frames c" "audioseconds (ext e c) = audioseconds c"
  "failed (trace_frame st pk c) = failed c" "finished (trace_frame st pk c) = finished c"
  "header_written (trace_frame st pk c) = header_written c" "avc (trace_frame st pk c) = avc c"
  "io_calls (trace_frame st pk c) = io_calls c"
  "vbytes (trace_frame st pk c) = vbytes c" "abytes (trace_frame st pk c) = abytes c"
  "frames (trace_frame st pk c) = frames c" "audioseconds (trace_frame st pk c) = audioseconds c"
  by (simp_all add: mp_msg_def ext_def trace_frame_def)

lemma reachable_muxer: "reachable c \<Longrightarrow> \<not> finished c \<Longrightarrow> \<exists>a. avc c = Some a"
  by (drule reachable_wf) (auto simp: wf_def wf_mem_def)

lemma write_video_frame:
  assumes "\<not> failed c" and "\<not> finished c" and "st_index st = stream_index pk"
    and "0 < header_written c" and "avc c = Some a"
    and "codecpar_codec_type st = AVMEDIA_TYPE_VIDEO"
  shows "\<exists>c'. exec E (WriteFrame st pk) c = Some (RInt (av_interleaved_write_frame E a pk), c') \<and>
           \<not> failed c' \<and> \<not> finished c' \<and> header_written c' = header_written c \<and> avc c' = avc c \<and>
           vbytes c' = vbytes c + scast (pkt_size pk) \<and> frames c' = frames c + 1"
  using assms by (simp add: write_frame_passes account_frame_video)

section \<open>A successful stream allocation\<close>

lemma alloc_stream_success:
  assumes "encode_lavc_alloc_stream E c mt = Some ((0, s, k), c')"
  shows "\<exists>a i st p cc. avc c' = Some a \<and> s = Some i \<and> stream_at a i = Some st \<and>
           st_time_base st = timebase c' \<and> k = Some p \<and> codec_at c' p = Some cc \<and>
           cc_time_base cc = timebase c' \<and>
           (den (timebase c) \<noteq> 0 \<longrightarrow> timebase c' = timebase c)"
proof -
  from assms have g: "\<not> CHECK_FAIL c" "header_written c = 0"
    by (auto simp: encode_lavc_alloc_stream_def split: if_splits)
  from alloc_stream_running[OF assms g] obtain c4 where p: "preparing c c4"
    and d: "filled_video c4 c' \<and> s = vst c4 \<and> k = Some (length (codec_mem c4)) \<or>
            filled_audio c4 c' \<and> s = ast c4 \<and> k = Some (length (codec_mem c4))"
    by auto
  from p have t: "den (timebase c) \<noteq> 0 \<longrightarrow> timebase c4 = timebase c"
    by (simp add: preparing_def)
  from d show ?thesis
  proof
    assume v: "filled_video c4 c' \<and> s = vst c4 \<and> k = Some (length (codec_mem c4))"
    then obtain a i cc where f: "avc c4 = Some a" "vst c4 = Some i" "i < length (streams a)"
      "avc c' = Some (a\<lparr>streams := (streams a)[i := (streams a ! i)\<lparr>st_time_base := timebase c4\<rparr>]\<rparr>)"
      "codec_at c' (length (codec_mem c4)) = Some cc" "cc_time_base cc = timebase c4"
      "timebase c' = timebase c4"
      unfolding filled_video_def by blast
    with v t show ?thesis by (simp add: stream_at_def)
  next
    assume v: "filled_audio c4 c' \<and> s = ast c4 \<and> k = Some (length (codec_mem c4))"
    then obtain a i cc where f: "avc c4 = Some a" "ast c4 = Some i" "i < length (streams a)"
      "avc c' = Some (a\<lparr>streams := (streams a)[i := (streams a ! i)\<lparr>st_time_base := timebase c4\<rparr>]\<rparr>)"
      "codec_at c' (length (codec_mem c4)) = Some cc" "cc_time_base cc = timebase c4"
      "timebase c' = timebase c4"
      unfolding filled_audio_def by blast
    with v t show ?thesis by (simp add: stream_at_def)
  qed
qed

section \<open>The order of the streams\<close>

lemma preparing_sel:
  assumes "preparing c c'"
  shows "vc c' = vc c" "ac c' = ac c" "vcc c' = vcc c" "acc c' = acc c"
  using assms by (simp_all add: preparing_def)

lemma filled_video_sel:
  assumes "filled_video c c'"
  shows "vc c \<noteq> None" "vc c' = vc c" "ac c' = ac c" "acc c' = acc c" "ast c' = ast c"
    "vst c' = vst c" "timebase c' = timebase c"
  using assms unfolding filled_video_def by auto

lemma filled_audio_sel:
  assumes "filled_audio c c'"
  shows "ac c \<noteq> None" "vc c' = vc c" "ac c' = ac c" "vcc c' = vcc c" "vst c' = vst c"
    "ast c' = ast c" "timebase c' = timebase c"
  using assms unfolding filled_audio_def by auto

lemma st_index_upd:
  "j < length xs \<Longrightarrow> st_index (xs[i := (xs ! i)\<lparr>st_time_base := t\<rparr>] ! j) = st_index (xs ! j)"
  by (cases "i < length xs") (auto simp: nth_list_update)

lemma filled_video_streams:
  assumes "filled_video c c'" and "avc c = Some a"
  shows "\<exists>a'. avc c' = Some a' \<and> length (streams a') = length (streams a) \<and>
           (\<forall>j<length (streams a). st_index (streams a' ! j) = st_index (streams a ! j))"
proof -
  from assms obtain i where
    "avc c' = Some (a\<lparr>streams := (streams a)[i := (streams a ! i)\<lparr>st_time_base := timebase c\<rparr>]\<rparr>)"
    unfolding filled_video_def by auto
  then show ?thesis by (simp add: st_index_upd)
qed

lemma filled_audio_streams:
  assumes "filled_audio c c'" and "avc c = Some a"
  shows "\<exists>a'. avc c' = Some a' \<and> length (streams a') = length (streams a) \<and>
           (\<forall>j<length (streams a). st_index (streams a' ! j) = st_index (streams a ! j))"
proof -
  from assms obtain i where
    "avc c' = Some (a\<lparr>streams := (streams a)[i := (streams a ! i)\<lparr>st_time_base := timebase c\<rparr>]\<rparr>)"
    unfolding filled_audio_def by auto
  then show ?thesis by (simp add: st_index_upd)
qed

lemma alloc_audio_needs_encoder:
  "alloc_audio E c = Some ((0, s, k), c') \<Longrightarrow> ac c \<noteq> None"
  by (auto simp: alloc_audio_def bind_eq_Some_conv split: option.splits if_splits)

lemma negotiate_slots:
  assumes "negotiate_timebase E c = Some c'"
  shows "avc c' = avc c \<and> vst c' = vst c \<and> ast c' = ast c \<and> vcc c' = vcc c \<and> acc c' = acc c"
  using assms by (auto simp: negotiate_timebase_def bind_eq_Some_conv split: if_splits)

lemma alloc_audio_after_prealloc:
  assumes "encode_lavc_alloc_stream E c AVMEDIA_TYPE_AUDIO = Some ((0, s, k), c1)"
    and "avc c = Some a" and "streams a = []" and "video_first c" and "vst c = None" and "ast c = None"
  shows "s = Some 1 \<and> vst c1 = Some 0 \<and> ast c1 = Some 1 \<and>
         (\<exists>a1. avc c1 = Some a1 \<and> length (streams a1) = 2 \<and>
            st_index (streams a1 ! 0) = 0 \<and> st_index (streams a1 ! 1) = 1)"
proof -
  from assms(1) have g: "\<not> CHECK_FAIL c" "header_written c = 0"
    by (auto simp: encode_lavc_alloc_stream_def split: if_splits)
  with assms(1) obtain c2 c3 c4 where p: "prealloc_other c AVMEDIA_TYPE_AUDIO = Some c2"
    and e: "ensure_ast c2 = Some c3" and n: "negotiate_timebase E c3 = Some c4"
    and al: "alloc_audio E c4 = Some ((0, s, k), c1)"
    by (auto simp: encode_lavc_alloc_stream_def bind_eq_Some_conv split: if_splits)
  from p assms(2-6) have c2: "avc c2 = Some (a\<lparr>streams := [fresh_stream 0]\<rparr>)"
    "vst c2 = Some 0" "ast c2 = None"
    by (auto simp: prealloc_other_def new_stream_def avformat_new_stream_def mp_msg_def
          bind_eq_Some_conv)
  from e c2 have c3: "avc c3 = Some (a\<lparr>streams := [fresh_stream 0, fresh_stream 1]\<rparr>)"
    "vst c3 = Some 0" "ast c3 = Some 1"
    by (auto simp: ensure_ast_def new_stream_def avformat_new_stream_def bind_eq_Some_conv)
  from negotiate_slots[OF n] c3
  have c4: "avc c4 = Some (a\<lparr>streams := [fresh_stream 0, fresh_stream 1]\<rparr>)"
    "vst c4 = Some 0" "ast c4 = Some 1"
    by simp_all
  from alloc_audio_needs_encoder[OF al] obtain v where "ac c4 = Some v" by auto
  from alloc_audio_some[OF this al] have f: "filled_audio c4 c1" and s: "s = ast c4" by simp_all
  from filled_audio_sel[OF f] c4 have "vst c1 = Some 0" "ast c1 = Some 1" by simp_all
  moreover from filled_audio_streams[OF f c4(1)] have "\<exists>a1. avc c1 = Some a1 \<and>
      length (streams a1) = 2 \<and> st_index (streams a1 ! 0) = 0 \<and> st_index (streams a1 ! 1) = 1"
    by (auto simp: fresh_stream_def)
  ultimately show ?thesis using s c4 by simp
qed

lemma alloc_audio_on_existing:
  assumes "encode_lavc_alloc_stream E c AVMEDIA_TYPE_AUDIO = Some ((0, s, k), c2)"
    and "avc c = Some a" and "streams a \<noteq> []" and "ast c = Some i"
  shows "s = Some i \<and> ast c2 = Some i \<and> vst c2 = vst c \<and>
         (\<exists>a2. avc c2 = Some a2 \<and> length (streams a2) = length (streams a) \<and>
            (\<forall>j<length (streams a). st_index (streams a2 ! j) = st_index (streams a ! j)))"
proof -
  from assms(1) have g: "\<not> CHECK_FAIL c" "header_written c = 0"
    by (auto simp: encode_lavc_alloc_stream_def split: if_splits)
  from assms(2,3) have p: "prealloc_other c AVMEDIA_TYPE_AUDIO = Some c"
    by (simp add: prealloc_other_def)
  from assms(4) have e: "ensure_ast c = Some c" by (simp add: ensure_ast_def)
  from assms(1) g p e obtain c4 where n: "negotiate_timebase E c = Some c4"
    and al: "alloc_audio E c4 = Some ((0, s, k), c2)"
    by (auto simp: encode_lavc_alloc_stream_def bind_eq_Some_conv split: if_splits)
  from negotiate_slots[OF n] assms(2,4)
  have c4: "avc c4 = Some a" "ast c4 = Some i" "vst c4 = vst c" by simp_all
  from alloc_audio_needs_encoder[OF al] obtain v where "ac c4 = Some v" by auto
  from alloc_audio_some[OF this al] have f: "filled_audio c4 c2" and s: "s = ast c4" by simp_all
  from filled_audio_sel[OF f] c4 have "ast c2 = Some i" "vst c2 = vst c" by simp_all
  with filled_audio_streams[OF f c4(1)] s c4 show ?thesis by simp
qed

lemma audio_then_video_starts_empty:
  assumes "wf c"
    and "encode_lavc_alloc_stream E c AVMEDIA_TYPE_AUDIO = Some ((0, s1, k1), c1)"
    and "encode_lavc_alloc_stream E' c1 AVMEDIA_TYPE_VIDEO = Some ((0, s2, k2), c2)"
  shows "\<exists>a. avc c = Some a \<and> streams a = [] \<and> vst c = None \<and> ast c = None"
proof -
  from assms(2) have g: "\<not> CHECK_FAIL c" "header_written c = 0"
    by (auto simp: encode_lavc_alloc_stream_def split: if_splits)
  from assms(3) have g1: "\<not> CHECK_FAIL c1" "header_written c1 = 0"
    by (auto simp: encode_lavc_alloc_stream_def split: if_splits)
  from alloc_stream_running[OF assms(2) g] obtain c4 where p: "preparing c c4"
    and f: "filled_audio c4 c1" and n: "acc c = None"
    by auto
  from alloc_stream_running[OF assms(3) g1] obtain c5 where p1: "preparing c1 c5"
    and f1: "filled_video c5 c2" and n1: "vcc c1 = None"
    by auto
  from filled_audio_sel[OF f] preparing_sel[OF p] have 1: "ac c \<noteq> None" by simp
  from filled_audio_sel[OF f] preparing_sel[OF p] n1 have 2: "vcc c = None" by simp
  from filled_video_sel[OF f1] preparing_sel[OF p1] filled_audio_sel[OF f] preparing_sel[OF p]
  have 3: "vc c \<noteq> None" by simp
  from g assms(1) obtain a where a: "avc c = Some a"
    by (auto simp: CHECK_FAIL_def wf_def wf_mem_def)
  with assms(1) n 1 2 3 have "streams a = []" by (auto simp: wf_def)
  with assms(1) a show ?thesis by (cases "vst c"; cases "ast c") (auto simp: wf_def wf_mem_def)
qed

lemma alloc_video_needs_encoder:
  "alloc_video E c = Some ((0, s, k), c') \<Longrightarrow> vc c \<noteq> None"
  by (auto simp: alloc_video_def bind_eq_Some_conv split: option.splits if_splits)

lemma alloc_video_after_prealloc:
  assumes "encode_lavc_alloc_stream E c AVMEDIA_TYPE_VIDEO = Some ((0, s, k), c1)"
    and "avc c = Some a" and "streams a = []" and "audio_first c" and "ast c = None" and "vst c = None"
  shows "s = Some 1 \<and> ast c1 = Some 0 \<and> vst c1 = Some 1 \<and>
         (\<exists>a1. avc c1 = Some a1 \<and> length (streams a1) = 2 \<and>
            st_index (streams a1 ! 0) = 0 \<and> st_index (streams a1 ! 1) = 1)"
proof -
  from assms(1) have g: "\<not> CHECK_FAIL c" "header_written c = 0"
    by (auto simp: encode_lavc_alloc_stream_def split: if_splits)
  with assms(1) obtain c2 c3 c4 where p: "prealloc_other c AVMEDIA_TYPE_VIDEO = Some c2"
    and e: "ensure_vst c2 = Some c3" and n: "negotiate_timebase E c3 = Some c4"
    and al: "alloc_video E c4 = Some ((0, s, k), c1)"
    by (auto simp: encode_lavc_alloc_stream_def bind_eq_Some_conv split: if_splits)
  from p assms(2-6) have c2: "avc c2 = Some (a\<lparr>streams := [fresh_stream 0]\<rparr>)"
    "ast c2 = Some 0" "vst c2 = None"
    by (auto simp: prealloc_other_def new_stream_def avformat_new_stream_def mp_msg_def
          bind_eq_Some_conv)
  from e c2 have c3: "avc c3 = Some (a\<lparr>streams := [fresh_stream 0, fresh_stream 1]\<rparr>)"
    "ast c3 = Some 0" "vst c3 = Some 1"
    by (auto simp: ensure_vst_def new_stream_def avformat_new_stream_def bind_eq_Some_conv)
  from negotiate_slots[OF n] c3
  have c4: "avc c4 = Some (a\<lparr>streams := [fresh_stream 0, fresh_stream 1]\<rparr>)"
    "ast c4 = Some 0" "vst c4 = Some 1"
    by simp_all
  from alloc_video_needs_encoder[OF al] obtain v where "vc c4 = Some v" by auto
  from alloc_video_some[OF this al] have f: "filled_video c4 c1" and s: "s = vst c4" by simp_all
  from filled_video_sel[OF f] c4 have "ast c1 = Some 0" "vst c1 = Some 1" by simp_all
  moreover from filled_video_streams[OF f c4(1)] have "\<exists>a1. avc c1 = Some a1 \<and>
      length (streams a1) = 2 \<and> st_index (streams a1 ! 0) = 0 \<and> st_index (streams a1 ! 1) = 1"
    by (auto simp: fresh_stream_def)
  ultimately show ?thesis using s c4 by simp
qed

lemma alloc_video_on_existing:
  assumes "encode_lavc_alloc_stream E c AVMEDIA_TYPE_VIDEO = Some ((0, s, k), c2)"
    and "avc c = Some a" and "streams a \<noteq> []" and "vst c = Some i"
  shows "s = Some i \<and> vst c2 = Some i \<and> ast c2 = ast c \<and>
         (\<exists>a2. avc c2 = Some a2 \<and> length (streams a2) = length (streams a) \<and>
            (\<forall>j<length (streams a). st_index (streams a2 ! j) = st_index (streams a ! j)))"
proof -
  from assms(1) have g: "\<not> CHECK_FAIL c" "header_written c = 0"
    by (auto simp: encode_lavc_alloc_stream_def split: if_splits)
  from assms(2,3) have p: "prealloc_other c AVMEDIA_TYPE_VIDEO = Some c"
    by (simp add: prealloc_other_def)
  from assms(4) have e: "ensure_vst c = Some c" by (simp add: ensure_vst_def)
  from assms(1) g p e obtain c4 where n: "negotiate_timebase E c = Some c4"
    and al: "alloc_video E c4 = Some ((0, s, k), c2)"
    by (auto simp: encode_lavc_alloc_stream_def bind_eq_Some_conv split: if_splits)
  from negotiate_slots[OF n] assms(2,4)
  have c4: "avc c4 = Some a" "vst c4 = Some i" "ast c4 = ast c" by simp_all
  from alloc_video_needs_encoder[OF al] obtain v where "vc c4 = Some v" by auto
  from alloc_video_some[OF this al] have f: "filled_video c4 c2" and s: "s = vst c4" by simp_all
  from filled_video_sel[OF f] c4 have "vst c2 = Some i" "ast c2 = ast c" by simp_all
  with filled_video_streams[OF f c4(1)] s c4 show ?thesis by simp
qed

lemma video_then_audio_starts_empty:
  assumes "wf c"
    and "encode_lavc_alloc_stream E c AVMEDIA_TYPE_VIDEO = Some ((0, s1, k1), c1)"
    and "encode_lavc_alloc_stream E' c1 AVMEDIA_TYPE_AUDIO = Some ((0, s2, k2), c2)"
  shows "\<exists>a. avc c = Some a \<and> streams a = [] \<and> vst c = None \<and> ast c = None"
proof -
  from assms(2) have g: "\<not> CHECK_FAIL c" "header_written c = 0"
    by (auto simp: encode_lavc_alloc_stream_def split: if_splits)
  from assms(3) have g1: "\<not> CHECK_FAIL c1" "header_written c1 = 0"
    by (auto simp: encode_lavc_alloc_stream_def split: if_splits)
  from alloc_stream_running[OF assms(2) g] obtain c4 where p: "preparing c c4"
    and f: "filled_video c4 c1" and n: "vcc c = None"
    by auto
  from alloc_stream_running[OF assms(3) g1] obtain c5 where p1: "preparing c1 c5"
    and f1: "filled_audio c5 c2" and n1: "acc c1 = None"
    by auto
  from filled_video_sel[OF f] preparing_sel[OF p] have 1: "vc c \<noteq> None" by simp
  from filled_video_sel[OF f] preparing_sel[OF p] n1 have 2: "acc c = None" by simp
  from filled_audio_sel[OF f1] preparing_sel[OF p1] filled_video_sel[OF f] preparing_sel[OF p]
  have 3: "ac c \<noteq> None" by simp
  from g assms(1) obtain a where a: "avc c = Some a"
    by (auto simp: CHECK_FAIL_def wf_def wf_mem_def)
  with assms(1) n 1 2 3 have "streams a = []" by (auto simp: wf_def)
  with assms(1) a show ?thesis by (cases "vst c"; cases "ast c") (auto simp: wf_def wf_mem_def)
qed

section \<open>Where the timebase is set\<close>

lemma new_stream_rate:
  assumes "new_stream c = Some n"
  shows "timebase (fst n) = timebase c \<and> vo_fps (fst n) = vo_fps c"
  using new_stream_Some[OF assms] by auto

lemma prealloc_rate:
  assumes "prealloc_other c mt = Some c'"
  shows "timebase c' = timebase c \<and> vo_fps c' = vo_fps c"
  using assms
  by (auto simp: prealloc_other_def bind_eq_Some_conv mp_msg_def split: if_splits
           dest!: new_stream_rate)

lemma ensure_vst_rate:
  assumes "ensure_vst c = Some c'"
  shows "timebase c' = timebase c \<and> vo_fps c' = vo_fps c"
  using assms by (auto simp: ensure_vst_def bind_eq_Some_conv split: if_splits dest!: new_stream_rate)

lemma ensure_ast_rate:
  assumes "ensure_ast c = Some c'"
  shows "timebase c' = timebase c \<and> vo_fps c' = vo_fps c"
  using assms by (auto simp: ensure_ast_def bind_eq_Some_conv split: if_splits dest!: new_stream_rate)

lemma rate_cong:
  "options c' = options c \<Longrightarrow> vo_fps c' = vo_fps c \<Longrightarrow> guess_rate E c' = guess_rate E c"
  "vc c' = vc c \<Longrightarrow> snap_rate E c' = snap_rate E c"
  by (simp_all add: guess_rate_def snap_rate_def fun_eq_iff)

lemma guess_rate_fst:
  "fst (guess_rate E c) =
     (if fps (options c) > 0
      then av_d2q E (fps (options c)) (rate_limit E (fps (options c)))
      else if autofps (options c) \<and> vo_fps c > 0
      then av_d2q E (vo_fps c) (rate_limit E (vo_fps c))
      else \<lparr>num = 24000, den = 1\<rparr>)"
  by (simp add: guess_rate_def)

lemma negotiate_value:
  assumes "negotiate_timebase E c = Some c'"
  shows "(den (timebase c) = 0 \<longrightarrow>
            (\<exists>q. snap_rate E c (fst (guess_rate E c)) = Some q \<and>
                 timebase c' = \<lparr>num = den q, den = num q\<rparr>)) \<and>
         (den (timebase c) \<noteq> 0 \<longrightarrow> timebase c' = timebase c)"
  using assms by (auto simp: negotiate_timebase_def bind_eq_Some_conv split: if_splits)

lemma alloc_video_timebase:
  assumes "alloc_video E c = Some (r, c')" and "\<not> failed c" and "\<not> finished c"
  shows "timebase c' = timebase c"
proof (cases "vc c")
  case None
  from alloc_video_none[OF None assms] show ?thesis by auto
next
  case (Some v)
  from alloc_video_some[OF Some assms(1)] show ?thesis by (simp add: filled_video_sel)
qed

lemma alloc_audio_timebase:
  assumes "alloc_audio E c = Some (r, c')" and "\<not> failed c" and "\<not> finished c"
  shows "timebase c' = timebase c"
proof (cases "ac c")
  case None
  from alloc_audio_none[OF None assms] show ?thesis by auto
next
  case (Some v)
  from alloc_audio_some[OF Some assms(1)] show ?thesis by (simp add: filled_audio_sel)
qed

lemma alloc_stream_negotiates:
  assumes "encode_lavc_alloc_stream E c mt = Some (r, c')" and "reaches_negotiation c mt"
  shows "(den (timebase c) = 0 \<longrightarrow>
            (\<exists>q. snap_rate E c (fst (guess_rate E c)) = Some q \<and>
                 timebase c' = \<lparr>num = den q, den = num q\<rparr>)) \<and>
         (den (timebase c) \<noteq> 0 \<longrightarrow> timebase c' = timebase c)"
proof -
  from assms(2) have g: "\<not> CHECK_FAIL c" "header_written c = 0"
    and m: "mt = AVMEDIA_TYPE_VIDEO \<and> vcc c = None \<or> mt = AVMEDIA_TYPE_AUDIO \<and> acc c = None"
    by (simp_all add: reaches_negotiation_def)
  from assms(1) g obtain c2 where p: "prealloc_other c mt = Some c2"
    and rest: "(case mt of
           AVMEDIA_TYPE_VIDEO \<Rightarrow>
             if vcc c2 \<noteq> None then Some ((- 1, None, None), c2)
             else do {
               c3 \<leftarrow> ensure_vst c2;
               c4 \<leftarrow> negotiate_timebase E c3;
               alloc_video E c4 }
         | AVMEDIA_TYPE_AUDIO \<Rightarrow>
             if acc c2 \<noteq> None then Some ((- 1, None, None), c2)
             else do {
               c3 \<leftarrow> ensure_ast c2;
               c4 \<leftarrow> negotiate_timebase E c3;
               alloc_audio E c4 }
         | _ \<Rightarrow> do {
             c \<leftarrow> encode_lavc_fail E c2 ''requested invalid stream type\<newline>'' [];
             Some ((- 1, None, None), c) }) = Some (r, c')"
    by (auto simp: encode_lavc_alloc_stream_def bind_eq_Some_conv)
  have pc2: "preparing c c2" using p by (rule prealloc_preparing)
  note s2 = preparing_sel[OF pc2]
  have "\<exists>c3 c4. preparing c2 c3 \<and> timebase c3 = timebase c2 \<and> vo_fps c3 = vo_fps c2 \<and>
           negotiate_timebase E c3 = Some c4 \<and> timebase c' = timebase c4"
    using m
  proof
    assume v: "mt = AVMEDIA_TYPE_VIDEO \<and> vcc c = None"
    with rest s2 obtain c3 c4 where s: "ensure_vst c2 = Some c3"
      "negotiate_timebase E c3 = Some c4" "alloc_video E c4 = Some (r, c')"
      by (auto simp: bind_eq_Some_conv)
    have "preparing c c4"
      using pc2 ensure_vst_preparing[OF s(1)] negotiate_preparing[OF s(2)]
      by (blast intro: preparing_trans)
    from preparing_running[OF this g(1)] alloc_video_timebase[OF s(3)]
    have "timebase c' = timebase c4" by simp
    with s ensure_vst_preparing[OF s(1)] ensure_vst_rate[OF s(1)] show ?thesis by blast
  next
    assume v: "mt = AVMEDIA_TYPE_AUDIO \<and> acc c = None"
    with rest s2 obtain c3 c4 where s: "ensure_ast c2 = Some c3"
      "negotiate_timebase E c3 = Some c4" "alloc_audio E c4 = Some (r, c')"
      by (auto simp: bind_eq_Some_conv)
    have "preparing c c4"
      using pc2 ensure_ast_preparing[OF s(1)] negotiate_preparing[OF s(2)]
      by (blast intro: preparing_trans)
    from preparing_running[OF this g(1)] alloc_audio_timebase[OF s(3)]
    have "timebase c' = timebase c4" by simp
    with s ensure_ast_preparing[OF s(1)] ensure_ast_rate[OF s(1)] show ?thesis by blast
  qed
  then obtain c3 c4 where c3: "preparing c2 c3" "timebase c3 = timebase c2" "vo_fps c3 = vo_fps c2"
    "negotiate_timebase E c3 = Some c4" "timebase c' = timebase c4"
    by blast
  from c3(1) pc2 have pc3: "preparing c c3" by (blast intro: preparing_trans)
  from pc3 have o: "options c3 = options c" "vc c3 = vc c" by (simp_all add: preparing_def)
  from c3(2,3) prealloc_rate[OF p] have t: "timebase c3 = timebase c" "vo_fps c3 = vo_fps c"
    by simp_all
  from rate_cong(1)[OF o(1) t(2)] rate_cong(2)[OF o(2)]
  have "snap_rate E c3 (fst (guess_rate E c3)) = snap_rate E c (fst (guess_rate E c))" by simp
  with negotiate_value[OF c3(4)] t c3(5) show ?thesis by simp
qed

lemma alloc_stream_elsewhere:
  assumes "encode_lavc_alloc_stream E c mt = Some (r, c')" and "\<not> reaches_negotiation c mt"
  shows "timebase c' = timebase c"
proof (cases "CHECK_FAIL c \<or> header_written c \<noteq> 0")
  case True
  with assms(1) show ?thesis by (cases "CHECK_FAIL c") (auto simp: alloc_stream_guarded)
next
  case False
  then have g: "\<not> CHECK_FAIL c" "header_written c = 0" by simp_all
  from assms(1) g obtain c2 where p: "prealloc_other c mt = Some c2"
    and rest: "(case mt of
           AVMEDIA_TYPE_VIDEO \<Rightarrow>
             if vcc c2 \<noteq> None then Some ((- 1, None, None), c2)
             else do {
               c3 \<leftarrow> ensure_vst c2;
               c4 \<leftarrow> negotiate_timebase E c3;
               alloc_video E c4 }
         | AVMEDIA_TYPE_AUDIO \<Rightarrow>
             if acc c2 \<noteq> None then Some ((- 1, None, None), c2)
             else do {
               c3 \<leftarrow> ensure_ast c2;
               c4 \<leftarrow> negotiate_timebase E c3;
               alloc_audio E c4 }
         | _ \<Rightarrow> do {
             c \<leftarrow> encode_lavc_fail E c2 ''requested invalid stream type\<newline>'' [];
             Some ((- 1, None, None), c) }) = Some (r, c')"
    by (auto simp: encode_lavc_alloc_stream_def bind_eq_Some_conv)
  have pc2: "preparing c c2" using p by (rule prealloc_preparing)
  note s2 = preparing_sel[OF pc2]
  note r2 = preparing_running[OF pc2 g(1)]
  note t2 = prealloc_rate[OF p]
  have other: ?thesis
    if "encode_lavc_fail E c2 ''requested invalid stream type\<newline>'' [] = Some c'"
    using fail_torn_down[OF that] r2 t2 by simp
  from assms(2) g have n: "mt = AVMEDIA_TYPE_VIDEO \<longrightarrow> vcc c \<noteq> None"
    "mt = AVMEDIA_TYPE_AUDIO \<longrightarrow> acc c \<noteq> None"
    by (simp_all add: reaches_negotiation_def)
  show ?thesis
  proof (cases mt)
    case AVMEDIA_TYPE_VIDEO
    with rest n s2 t2 show ?thesis by auto
  next
    case AVMEDIA_TYPE_AUDIO
    with rest n s2 t2 show ?thesis by auto
  next
    case AVMEDIA_TYPE_UNKNOWN
    with rest show ?thesis by (auto simp: bind_eq_Some_conv intro: other)
  next
    case AVMEDIA_TYPE_DATA
    with rest show ?thesis by (auto simp: bind_eq_Some_conv intro: other)
  next
    case AVMEDIA_TYPE_SUBTITLE
    with rest show ?thesis by (auto simp: bind_eq_Some_conv intro: other)
  next
    case AVMEDIA_TYPE_ATTACHMENT
    with rest show ?thesis by (auto simp: bind_eq_Some_conv intro: other)
  qed
qed

lemma finish_timebase: "encode_lavc_finish E c = Some c' \<Longrightarrow> timebase c' = timebase c"
  by (cases "finished c") (auto simp: finish_finished dest: finish_sel)

lemma fail_timebase:
  assumes "encode_lavc_fail E c f a = Some c'"
  shows "timebase c' = timebase c"
proof (cases "failed c")
  case True
  with assms show ?thesis by (auto simp: fail_failed mp_msg_def)
next
  case False
  show ?thesis
  proof (cases "finished c")
    case True
    with False assms show ?thesis by (auto simp: fail_finished mp_msg_def)
  next
    case f: False
    from fail_sel[OF assms False f] show ?thesis by simp
  qed
qed

lemma start_timebase: "encode_lavc_start E c = Some (r, c') \<Longrightarrow> timebase c' = timebase c"
  by (drule start_cases) (auto dest: kept_sel(3))

lemma open_codec_timebase:
  "encode_lavc_open_codec E c p = Some (r, c') \<Longrightarrow> timebase c' = timebase c"
  by (drule open_codec_cases) (auto dest: kept_sel(3))

lemma timebase_log [simp]:
  "timebase (mp_msg l f a c) = timebase c" "timebase (ext e c) = timebase c"
  "timebase (trace_frame st pk c) = timebase c" "timebase (account_frame st pk c) = timebase c"
  by (simp_all add: mp_msg_def ext_def trace_frame_def account_frame_def split: AVMediaType.splits)

lemma write_stats_timebase:
  assumes "encode_lavc_write_stats c p = Some c'"
  shows "timebase c' = timebase c"
proof (cases "CHECK_FAIL c")
  case True
  with assms show ?thesis by (auto simp: encode_lavc_write_stats_def)
next
  case False
  with assms obtain cc where "c' = (case codec_type cc of
                AVMEDIA_TYPE_VIDEO \<Rightarrow> flush_stats (twopass_bytebuffer_v c) cc c
              | AVMEDIA_TYPE_AUDIO \<Rightarrow> flush_stats (twopass_bytebuffer_a c) cc c
              | _ \<Rightarrow> c)"
    by (auto simp: encode_lavc_write_stats_def bind_eq_Some_conv)
  then show ?thesis by (cases "codec_type cc") simp_all
qed

lemma exec_keeps_timebase:
  assumes "exec E x c = Some (r, c')" and "\<forall>m. x \<noteq> AllocStream m"
  shows "timebase c' = timebase c"
proof (cases x)
  case Start
  with assms show ?thesis by (auto dest: start_timebase)
next
  case (AllocStream mt)
  with assms show ?thesis by simp
next
  case (OpenCodec p)
  with assms show ?thesis by (auto dest: open_codec_timebase)
next
  case (WriteFrame st pk)
  with assms show ?thesis
    by (auto simp: encode_lavc_write_frame_def bind_eq_Some_conv Let_def split: if_splits)
next
  case (WriteStats p)
  with assms show ?thesis by (auto dest: write_stats_timebase)
next
  case (GetStatus n f)
  with assms show ?thesis
    by (auto simp: encode_lavc_getstatus_def bind_eq_Some_conv Let_def split: if_splits)
next
  case Discontinuity
  with assms show ?thesis by (auto simp: encode_lavc_discontinuity_def)
next
  case (ExpectStream mt)
  with assms show ?thesis
    by (auto simp: encode_lavc_expect_stream_def split: AVMediaType.splits)
next
  case (SetCsp p v)
  with assms show ?thesis
    by (auto simp: encode_lavc_set_csp_def bind_eq_Some_conv split: if_splits)
next
  case (SetCspLevels p v)
  with assms show ?thesis
    by (auto simp: encode_lavc_set_csp_levels_def bind_eq_Some_conv split: if_splits)
next
  case (GetCsp p)
  with assms show ?thesis
    by (auto simp: encode_lavc_get_csp_def bind_eq_Some_conv split: if_splits)
next
  case (GetCspLevels p)
  with assms show ?thesis
    by (auto simp: encode_lavc_get_csp_levels_def bind_eq_Some_conv split: if_splits)
next
  case Available
  with assms show ?thesis by (auto simp: encode_lavc_available_def split: if_splits)
next
  case OformatFlags
  with assms show ?thesis by (auto simp: encode_lavc_oformat_flags_def split: if_splits)
next
  case (SupportsPixfmt pf)
  with assms show ?thesis
    by (auto simp: encode_lavc_supports_pixfmt_def split: if_splits option.splits)
next
  case (GetOffset p)
  with assms show ?thesis
    by (auto simp: encode_lavc_getoffset_def bind_eq_Some_conv split: if_splits)
next
  case DidFail
  with assms show ?thesis by auto
next
  case (SetVideoFps f)
  with assms show ?thesis by (auto simp: encode_lavc_set_video_fps_def)
next
  case (SetAudioPts p)
  with assms show ?thesis by (auto simp: encode_lavc_set_audio_pts_def)
next
  case (SetMetadata md)
  with assms show ?thesis by (auto simp: encode_lavc_set_metadata_def Let_def)
next
  case Finish
  with assms show ?thesis by (auto dest: finish_timebase)
next
  case (Fail f a)
  with assms show ?thesis by (auto dest: fail_timebase)
qed

section \<open>C1: the operations on a failed session\<close>

text \<open>
  C1, as stated, fails for \<^verbatim>\<open>encode_lavc_start\<close>, which tests the header latch before the
  guard: on a session that was started and has then failed, a later call of
  \<^verbatim>\<open>encode_lavc_start\<close> returns 1, the value for success.
\<close>

theorem start_succeeds_after_fail:
  "map_option failed
     (session (plain_opts ''out.mkv'') [(plain_extern, Start), (plain_extern, Fail ''stop'' [])])
     = Some True \<and>
   map_option fst
     (Option.bind
        (session (plain_opts ''out.mkv'') [(plain_extern, Start), (plain_extern, Fail ''stop'' [])])
        (exec plain_extern Start))
     = Some (RInt 1)"
  by code_simp

text \<open>
  C1, amended: after a call of \<^verbatim>\<open>encode_lavc_fail\<close> on a session that \<^verbatim>\<open>encode_lavc_init\<close>
  and the operations can produce, and after any further operations, each operation that
  begins with the guard returns, and its result is the value of \<open>failure_sentinel\<close>: the
  value that the guard returns, and for \<^verbatim>\<open>encode_lavc_start\<close> 1 when the header has been
  written and 0 otherwise.  The byte counters, the frame counter and the four slots are
  those of the session right after the failure, before and after the call.
\<close>

theorem failed_session_answers:
  assumes "reachable c0" and "encode_lavc_fail E0 c0 f a = Some c1" and "run ops c1 = Some c"
    and "guarded x"
  shows "\<exists>c'. exec E x c = Some (failure_sentinel x c, c') \<and>
           vbytes c' = vbytes c1 \<and> abytes c' = abytes c1 \<and> frames c' = frames c1 \<and>
           vst c' = vst c1 \<and> ast c' = ast c1 \<and> vcc c' = vcc c1 \<and> acc c' = acc c1 \<and>
           vbytes c = vbytes c1 \<and> abytes c = abytes c1 \<and> frames c = frames c1 \<and>
           vst c = vst c1 \<and> ast c = ast c1 \<and> vcc c = vcc c1 \<and> acc c = acc c1"
proof -
  from assms(1) have "failed c0 \<longrightarrow> finished c0" by (auto dest: reachable_wf simp: wf_def)
  from fail_latches[OF assms(2) this] have l1: "failed c1" "finished c1" by simp_all
  from lasting_run[OF assms(3)] l1 have l: "failed c" "finished c"
    "vbytes c = vbytes c1" "abytes c = abytes c1" "frames c = frames c1"
    "vst c = vst c1" "ast c = ast c1" "vcc c = vcc c1" "acc c = acc c1"
    by (simp_all add: lasting_def)
  then have "CHECK_FAIL c" by (simp add: CHECK_FAIL_def)
  from guarded_exec[OF this assms(4), of E] l show ?thesis by simp
qed

text \<open>
  An instance: after a failure of \<open>started_session\<close> and a call of \<^verbatim>\<open>encode_lavc_start\<close>,
  writing a video packet returns -1 and the counters are the same.
\<close>

theorem failed_session_answers_witness:
  "reachable started_session \<and> guarded (WriteFrame video_stream (packet 0 100 0)) \<and>
   (\<exists>c1 c c'. encode_lavc_fail plain_extern started_session ''stop'' [] = Some c1 \<and>
      run [(plain_extern, Start)] c1 = Some c \<and>
      exec plain_extern (WriteFrame video_stream (packet 0 100 0)) c = Some (RInt (- 1), c') \<and>
      vbytes c' = vbytes c1 \<and> frames c' = frames c1 \<and> vst c' = vst c1)"
proof -
  have "map_option (\<lambda>c. ()) (Option.bind (encode_lavc_fail plain_extern started_session ''stop'' [])
          (run [(plain_extern, Start)])) = Some ()"
    by code_simp
  then obtain c1 c where r: "encode_lavc_fail plain_extern started_session ''stop'' [] = Some c1"
    "run [(plain_extern, Start)] c1 = Some c"
    by (auto simp: bind_eq_Some_conv)
  have g: "guarded (WriteFrame video_stream (packet 0 100 0))" by simp
  from failed_session_answers[OF started_session_reachable r g, of plain_extern]
    r g started_session_reachable
  show ?thesis by auto
qed

section \<open>C2: fail couples the two latches\<close>

text \<open>
  C2: on every session that \<^verbatim>\<open>encode_lavc_init\<close> and the operations can produce,
  \<^verbatim>\<open>encode_lavc_fail\<close> returns, and afterwards \<open>failed\<close> and \<open>finished\<close> are both set.  On a
  session that has already failed only the message is logged; otherwise the result is that
  of \<^verbatim>\<open>encode_lavc_finish\<close> on the session with the message logged and \<open>failed\<close> set.
\<close>

theorem fail_couples_latches:
  assumes "reachable c"
  shows "\<exists>c'. encode_lavc_fail E c f a = Some c' \<and> failed c' \<and> finished c' \<and>
           (failed c \<longrightarrow> c' = mp_msg MSGL_ERR f a c) \<and>
           (\<not> failed c \<longrightarrow>
              encode_lavc_finish E ((mp_msg MSGL_ERR f a c)\<lparr>failed := True\<rparr>) = Some c')"
proof -
  from assms have w: "wf c" by (rule reachable_wf)
  then have m: "wf_mem c" and l: "failed c \<longrightarrow> finished c" by (simp_all add: wf_def)
  from fail_returns[OF m] obtain c' where c': "encode_lavc_fail E c f a = Some c'" by blast
  note fail_latches[OF c' l]
  moreover have "c' = mp_msg MSGL_ERR f a c" if "failed c"
    using that c' by (simp add: fail_failed)
  moreover have "encode_lavc_finish E ((mp_msg MSGL_ERR f a c)\<lparr>failed := True\<rparr>) = Some c'"
    if n: "\<not> failed c"
  proof (cases "finished c")
    case True
    then have "finished ((mp_msg MSGL_ERR f a c)\<lparr>failed := True\<rparr>)" by (simp add: mp_msg_def)
    then have "encode_lavc_finish E ((mp_msg MSGL_ERR f a c)\<lparr>failed := True\<rparr>)
                 = Some ((mp_msg MSGL_ERR f a c)\<lparr>failed := True\<rparr>)"
      by (rule finish_finished)
    with n True c' show ?thesis by (simp add: fail_finished)
  next
    case False
    with n c' show ?thesis by (simp add: fail_running)
  qed
  ultimately show ?thesis using c' by blast
qed

text \<open>An instance: a new session fails, and a second failure only logs its message.\<close>

theorem fail_couples_latches_witness:
  "reachable fresh_session \<and> \<not> failed fresh_session \<and>
   (\<exists>c'. encode_lavc_fail plain_extern fresh_session ''stop'' [] = Some c' \<and>
         failed c' \<and> finished c' \<and>
         encode_lavc_fail plain_extern c' ''again'' [] = Some (mp_msg MSGL_ERR ''again'' [] c'))"
proof -
  have n: "\<not> failed fresh_session" by code_simp
  from fail_couples_latches[OF fresh_session_reachable, of plain_extern "''stop''" "[]"]
  obtain c' where c': "encode_lavc_fail plain_extern fresh_session ''stop'' [] = Some c'"
    "failed c'" "finished c'"
    by blast
  from c'(2) have "encode_lavc_fail plain_extern c' ''again'' [] = Some (mp_msg MSGL_ERR ''again'' [] c')"
    by (rule fail_failed)
  with n c' fresh_session_reachable show ?thesis by blast
qed

section \<open>C3: start is idempotent\<close>

text \<open>
  C3: let \<^verbatim>\<open>encode_lavc_start\<close> return \<open>r\<close>, and let any operations follow.  If \<open>r\<close> is 1, a
  later call returns 1 and leaves the session as it is.  Otherwise \<open>r\<close> is 0, and a later
  call returns 0 and leaves the session as it is or logs the message of the guard, which
  changes neither the external calls nor the muxer nor the header latch.
\<close>

theorem start_is_idempotent:
  assumes "encode_lavc_start E c = Some (r, c1)" and "run ops c1 = Some c2"
  shows "r = 1 \<and> encode_lavc_start E' c2 = Some (1, c2) \<or>
         r = 0 \<and> (encode_lavc_start E' c2 = Some (0, c2) \<or>
                  encode_lavc_start E' c2 = Some (0, bail_out c2)) \<and>
           io_calls (bail_out c2) = io_calls c2 \<and> avc (bail_out c2) = avc c2 \<and>
           header_written (bail_out c2) = header_written c2"
proof -
  from start_cases[OF assms(1)]
  have "r = 1 \<and> header_written c1 > 0 \<or>
        r = 0 \<and> (header_written c1 < 0 \<or> header_written c1 = 0 \<and> CHECK_FAIL c1)"
    by (auto simp: torn_down_def CHECK_FAIL_def)
  moreover note l = lasting_run[OF assms(2)]
  moreover have "encode_lavc_start E' c2 = Some (1, c2)" if "header_written c1 > 0"
  proof -
    from that l have "header_written c2 > 0" by (simp add: lasting_def)
    then show ?thesis by (rule start_guarded)
  qed
  moreover have "encode_lavc_start E' c2 = Some (0, c2)" if "header_written c1 < 0"
  proof -
    from that l have "header_written c2 < 0" by (simp add: lasting_def)
    then show ?thesis by (rule start_guarded)
  qed
  moreover have "encode_lavc_start E' c2 = Some (0, bail_out c2)"
    if "header_written c1 = 0 \<and> CHECK_FAIL c1"
  proof -
    from that l have "header_written c2 = 0" "CHECK_FAIL c2"
      by (auto simp: lasting_def CHECK_FAIL_def)
    then show ?thesis by (rule start_guarded)
  qed
  ultimately show ?thesis by auto
qed

text \<open>
  An instance: a new session is started, a discontinuity is signalled and a packet written;
  a second start returns 1.
\<close>

theorem start_is_idempotent_witness:
  "\<exists>c1 c2. encode_lavc_start plain_extern fresh_session = Some (1, c1) \<and>
      run [(plain_extern, Discontinuity), (plain_extern, WriteFrame video_stream (packet 0 100 0))] c1
        = Some c2 \<and>
      encode_lavc_start failing_writes c2 = Some (1, c2)"
proof -
  have "map_option fst (encode_lavc_start plain_extern fresh_session) = Some 1" by code_simp
  then obtain c1 where s: "encode_lavc_start plain_extern fresh_session = Some (1, c1)" by auto
  have "map_option fst (Option.bind (encode_lavc_start plain_extern fresh_session)
          (\<lambda>x. map_option (\<lambda>y. (fst x, y)) (run [(plain_extern, Discontinuity), (plain_extern, WriteFrame video_stream (packet 0 100 0))] (snd x))))
        = Some 1"
    by code_simp
  with s obtain c2 where
    r: "run [(plain_extern, Discontinuity), (plain_extern, WriteFrame video_stream (packet 0 100 0))] c1 = Some c2"
    by auto
  from start_is_idempotent[OF s r, of failing_writes] s r show ?thesis by auto
qed

section \<open>C4: the shared timebase\<close>

text \<open>
  C4, as stated, fails in two ways.  First, the timebase is not set by the first successful
  call of \<^verbatim>\<open>encode_lavc_alloc_stream\<close> but by the first call that reaches lines 571 to 602,
  which come before the test for the encoder: on a session for the file \<^verbatim>\<open>out.mp3\<close>, whose
  format has no video codec, the call for video returns -1 and has changed the timebase from
  0/0 to 1/24000.  Second, a timebase that has been set is modified later, and the two slots
  get different ones, when the negotiated rate has the numerator 0, because the denominator
  0 is what marks the timebase as not yet set: with the option \<^verbatim>\<open>oautofps\<close> and a reported
  rate of \<open>1 / 10 ^ 30\<close> frames per second, for which \<^verbatim>\<open>av_d2q\<close> gives 0/1, the call for video
  returns 0 and sets the timebase to 1/0; after a reported rate of 25 the call for audio
  returns 0 and sets the timebase to 1/25.  The stream and the codec context of the video
  slot then have the time base 1/0, those of the audio slot 1/25.
\<close>

theorem timebase_not_set_once:
  "map_option timebase (session (plain_opts ''out.mp3'') []) = Some \<lparr>num = 0, den = 0\<rparr> \<and>
   map_option fst
     (Option.bind (session (plain_opts ''out.mp3'') [])
        (exec plain_extern (AllocStream AVMEDIA_TYPE_VIDEO)))
     = Some (RAlloc (- 1) None None) \<and>
   map_option timebase
     (session (plain_opts ''out.mp3'') [(plain_extern, AllocStream AVMEDIA_TYPE_VIDEO)])
     = Some \<lparr>num = 1, den = 24000\<rparr> \<and>
   map_option fst
     (Option.bind
        (session ((plain_opts ''out.mkv'')\<lparr>autofps := True\<rparr>)
           [(plain_extern, SetVideoFps (1 / 10 ^ 30))])
        (exec plain_extern (AllocStream AVMEDIA_TYPE_VIDEO)))
     = Some (RAlloc 0 (Some 0) (Some 0)) \<and>
   map_option timebase
     (session ((plain_opts ''out.mkv'')\<lparr>autofps := True\<rparr>)
        [(plain_extern, SetVideoFps (1 / 10 ^ 30)), (plain_extern, AllocStream AVMEDIA_TYPE_VIDEO)])
     = Some \<lparr>num = 1, den = 0\<rparr> \<and>
   map_option fst
     (Option.bind
        (session ((plain_opts ''out.mkv'')\<lparr>autofps := True\<rparr>)
           [(plain_extern, SetVideoFps (1 / 10 ^ 30)), (plain_extern, AllocStream AVMEDIA_TYPE_VIDEO),
            (plain_extern, SetVideoFps 25)])
        (exec plain_extern (AllocStream AVMEDIA_TYPE_AUDIO)))
     = Some (RAlloc 0 (Some 1) (Some 1)) \<and>
   map_option timebase
     (session ((plain_opts ''out.mkv'')\<lparr>autofps := True\<rparr>)
        [(plain_extern, SetVideoFps (1 / 10 ^ 30)), (plain_extern, AllocStream AVMEDIA_TYPE_VIDEO),
         (plain_extern, SetVideoFps 25), (plain_extern, AllocStream AVMEDIA_TYPE_AUDIO)])
     = Some \<lparr>num = 1, den = 25\<rparr> \<and>
   map_option (map st_time_base \<circ> streams)
     (Option.bind
        (session ((plain_opts ''out.mkv'')\<lparr>autofps := True\<rparr>)
           [(plain_extern, SetVideoFps (1 / 10 ^ 30)), (plain_extern, AllocStream AVMEDIA_TYPE_VIDEO),
            (plain_extern, SetVideoFps 25), (plain_extern, AllocStream AVMEDIA_TYPE_AUDIO)])
        avc)
     = Some [\<lparr>num = 1, den = 0\<rparr>, \<lparr>num = 1, den = 25\<rparr>] \<and>
   map_option (map (map_option cc_time_base) \<circ> codec_mem)
     (session ((plain_opts ''out.mkv'')\<lparr>autofps := True\<rparr>)
        [(plain_extern, SetVideoFps (1 / 10 ^ 30)), (plain_extern, AllocStream AVMEDIA_TYPE_VIDEO),
         (plain_extern, SetVideoFps 25), (plain_extern, AllocStream AVMEDIA_TYPE_AUDIO)])
     = Some [Some \<lparr>num = 1, den = 0\<rparr>, Some \<lparr>num = 1, den = 25\<rparr>]"
  by code_simp

text \<open>
  C4, amended.  The timebase is changed by \<^verbatim>\<open>encode_lavc_alloc_stream\<close> only, and only by a
  call that reaches the negotiation (\<open>reaches_negotiation\<close>) while the denominator of the
  timebase is 0:
  \<^item> an operation other than \<^verbatim>\<open>encode_lavc_alloc_stream\<close> leaves the timebase as it is;
  \<^item> so does a call of \<^verbatim>\<open>encode_lavc_alloc_stream\<close> that does not reach the negotiation;
  \<^item> so does a call that reaches it while the denominator is not 0;
  \<^item> a call that reaches it while the denominator is 0 sets the timebase to the inverse of
    the negotiated rate, whatever the call returns afterwards.  The rate is the configured
    one if it is positive, else the reported one with \<^verbatim>\<open>oautofps\<close> if it is positive, else
    24000/1, each replaced by the entry of the encoder's list of frame rates that
    \<^verbatim>\<open>av_find_nearest_q_idx\<close> selects, if the video encoder has such a list.  With no rate
    configured or reported and no such list the timebase becomes 1/24000;
  \<^item> a timebase whose denominator is not 0 is the same after any operations;
  \<^item> a call of \<^verbatim>\<open>encode_lavc_alloc_stream\<close> that returns 0 returns a stream of the muxer and
    a codec context whose time bases are both the timebase of the session;
  \<^item> when such a call leaves a timebase whose denominator is not 0, then after any
    operations a later call that returns 0 returns a stream and a codec context with that
    same time base.
\<close>

theorem timebase_is_fixed:
  "(exec EA x cA = Some (rA, dA) \<and> (\<forall>m. x \<noteq> AllocStream m) \<longrightarrow> timebase dA = timebase cA) \<and>
   (encode_lavc_alloc_stream EB cB mB = Some (rB, dB) \<and> \<not> reaches_negotiation cB mB \<longrightarrow>
      timebase dB = timebase cB) \<and>
   (encode_lavc_alloc_stream EC cC mC = Some (rC, dC) \<and> reaches_negotiation cC mC \<and>
    den (timebase cC) \<noteq> 0 \<longrightarrow>
      timebase dC = timebase cC) \<and>
   (encode_lavc_alloc_stream ED cD mD = Some (rD, dD) \<and> reaches_negotiation cD mD \<and>
    den (timebase cD) = 0 \<longrightarrow>
      (let g = (if fps (options cD) > 0
                then av_d2q ED (fps (options cD)) (rate_limit ED (fps (options cD)))
                else if autofps (options cD) \<and> vo_fps cD > 0
                then av_d2q ED (vo_fps cD) (rate_limit ED (vo_fps cD))
                else \<lparr>num = 24000, den = 1\<rparr>)
       in \<exists>q. (case vc cD of
                  None \<Rightarrow> Some g
                | Some v \<Rightarrow>
                    (case supported_framerates v of
                       None \<Rightarrow> Some g
                     | Some fr \<Rightarrow> framerate_at fr (av_find_nearest_q_idx ED g fr))) = Some q \<and>
               timebase dD = \<lparr>num = den q, den = num q\<rparr>) \<and>
      (fps (options cD) \<le> 0 \<and> \<not> (autofps (options cD) \<and> vo_fps cD > 0) \<and>
       (\<forall>v. vc cD = Some v \<longrightarrow> supported_framerates v = None) \<longrightarrow>
         timebase dD = \<lparr>num = 1, den = 24000\<rparr>)) \<and>
   (run ops cE = Some dE \<and> den (timebase cE) \<noteq> 0 \<longrightarrow> timebase dE = timebase cE) \<and>
   (encode_lavc_alloc_stream EF cF mF = Some ((0, sF, kF), dF) \<longrightarrow>
      (\<exists>a i st p cc. avc dF = Some a \<and> sF = Some i \<and> stream_at a i = Some st \<and>
         st_time_base st = timebase dF \<and> kF = Some p \<and> codec_at dF p = Some cc \<and>
         cc_time_base cc = timebase dF)) \<and>
   (encode_lavc_alloc_stream EG cG mG = Some ((0, sG, kG), dG) \<and> den (timebase dG) \<noteq> 0 \<and>
    run opsG dG = Some cH \<and> encode_lavc_alloc_stream EH cH mH = Some ((0, sH, kH), dH) \<longrightarrow>
      (\<exists>a i st p cc. avc dH = Some a \<and> sH = Some i \<and> stream_at a i = Some st \<and>
         st_time_base st = timebase dG \<and> kH = Some p \<and> codec_at dH p = Some cc \<and>
         cc_time_base cc = timebase dG))"
proof (intro conjI impI)
  assume "exec EA x cA = Some (rA, dA) \<and> (\<forall>m. x \<noteq> AllocStream m)"
  then show "timebase dA = timebase cA" by (auto dest: exec_keeps_timebase)
next
  assume "encode_lavc_alloc_stream EB cB mB = Some (rB, dB) \<and> \<not> reaches_negotiation cB mB"
  then show "timebase dB = timebase cB" by (auto dest: alloc_stream_elsewhere)
next
  assume "encode_lavc_alloc_stream EC cC mC = Some (rC, dC) \<and> reaches_negotiation cC mC \<and>
    den (timebase cC) \<noteq> 0"
  then show "timebase dC = timebase cC" by (auto dest: alloc_stream_negotiates)
next
  assume h: "encode_lavc_alloc_stream ED cD mD = Some (rD, dD) \<and> reaches_negotiation cD mD \<and>
    den (timebase cD) = 0"
  then obtain q where q: "snap_rate ED cD (fst (guess_rate ED cD)) = Some q"
    "timebase dD = \<lparr>num = den q, den = num q\<rparr>"
    by (auto dest: alloc_stream_negotiates)
  then show "let g = (if fps (options cD) > 0
                then av_d2q ED (fps (options cD)) (rate_limit ED (fps (options cD)))
                else if autofps (options cD) \<and> vo_fps cD > 0
                then av_d2q ED (vo_fps cD) (rate_limit ED (vo_fps cD))
                else \<lparr>num = 24000, den = 1\<rparr>)
       in \<exists>q. (case vc cD of
                  None \<Rightarrow> Some g
                | Some v \<Rightarrow>
                    (case supported_framerates v of
                       None \<Rightarrow> Some g
                     | Some fr \<Rightarrow> framerate_at fr (av_find_nearest_q_idx ED g fr))) = Some q \<and>
               timebase dD = \<lparr>num = den q, den = num q\<rparr>"
    by (simp add: snap_rate_def guess_rate_fst Let_def)
  assume d: "fps (options cD) \<le> 0 \<and> \<not> (autofps (options cD) \<and> vo_fps cD > 0) \<and>
       (\<forall>v. vc cD = Some v \<longrightarrow> supported_framerates v = None)"
  then have "snap_rate ED cD (fst (guess_rate ED cD)) = Some \<lparr>num = 24000, den = 1\<rparr>"
    by (cases "vc cD") (auto simp: snap_rate_def guess_rate_fst)
  with q show "timebase dD = \<lparr>num = 1, den = 24000\<rparr>" by auto
next
  assume "run ops cE = Some dE \<and> den (timebase cE) \<noteq> 0"
  then show "timebase dE = timebase cE" by (auto dest: lasting_run simp: lasting_def)
next
  assume "encode_lavc_alloc_stream EF cF mF = Some ((0, sF, kF), dF)"
  from alloc_stream_success[OF this]
  show "\<exists>a i st p cc. avc dF = Some a \<and> sF = Some i \<and> stream_at a i = Some st \<and>
         st_time_base st = timebase dF \<and> kF = Some p \<and> codec_at dF p = Some cc \<and>
         cc_time_base cc = timebase dF"
    by blast
next
  assume h: "encode_lavc_alloc_stream EG cG mG = Some ((0, sG, kG), dG) \<and> den (timebase dG) \<noteq> 0 \<and>
    run opsG dG = Some cH \<and> encode_lavc_alloc_stream EH cH mH = Some ((0, sH, kH), dH)"
  then have 1: "timebase cH = timebase dG" by (auto dest: lasting_run simp: lasting_def)
  from h have a: "encode_lavc_alloc_stream EH cH mH = Some ((0, sH, kH), dH)" by simp
  from alloc_stream_success[OF a] 1 h
  show "\<exists>a i st p cc. avc dH = Some a \<and> sH = Some i \<and> stream_at a i = Some st \<and>
         st_time_base st = timebase dG \<and> kH = Some p \<and> codec_at dH p = Some cc \<and>
         cc_time_base cc = timebase dG"
    by auto
qed


text \<open>
  An instance: the call for video on \<open>fresh_session\<close> sets the timebase to 1/24000; after a
  discontinuity the call for audio reaches the negotiation, keeps the timebase and returns
  a stream and a codec context with the time base 1/24000; a second call for video, whose
  slot is taken, and a start keep the timebase.
\<close>

theorem timebase_is_fixed_witness:
  "encode_lavc_alloc_stream plain_extern fresh_session AVMEDIA_TYPE_VIDEO
     = Some ((0, Some 0, Some 0), video_allocated) \<and>
   reaches_negotiation fresh_session AVMEDIA_TYPE_VIDEO \<and> den (timebase fresh_session) = 0 \<and>
   timebase video_allocated = \<lparr>num = 1, den = 24000\<rparr> \<and>
   run [(plain_extern, Discontinuity)] video_allocated
     = Some (encode_lavc_discontinuity plain_extern video_allocated) \<and>
   reaches_negotiation (encode_lavc_discontinuity plain_extern video_allocated) AVMEDIA_TYPE_AUDIO \<and>
   encode_lavc_alloc_stream plain_extern (encode_lavc_discontinuity plain_extern video_allocated)
       AVMEDIA_TYPE_AUDIO
     = Some ((0, Some 1, Some 1), both_allocated) \<and>
   timebase both_allocated = \<lparr>num = 1, den = 24000\<rparr> \<and>
   (\<exists>a st cc. avc both_allocated = Some a \<and> stream_at a 1 = Some st \<and>
      st_time_base st = \<lparr>num = 1, den = 24000\<rparr> \<and> codec_at both_allocated 1 = Some cc \<and>
      cc_time_base cc = \<lparr>num = 1, den = 24000\<rparr>) \<and>
   \<not> reaches_negotiation both_allocated AVMEDIA_TYPE_VIDEO \<and>
   (\<exists>r d. encode_lavc_alloc_stream plain_extern both_allocated AVMEDIA_TYPE_VIDEO = Some (r, d) \<and>
      timebase d = \<lparr>num = 1, den = 24000\<rparr>) \<and>
   (\<exists>r d. exec plain_extern Start both_allocated = Some (r, d) \<and>
      timebase d = \<lparr>num = 1, den = 24000\<rparr>)"
proof -
  note T = timebase_is_fixed[where ED = plain_extern and cD = fresh_session
      and mD = AVMEDIA_TYPE_VIDEO and rD = "(0, Some 0, Some 0)" and dD = video_allocated
      and ops = "[(plain_extern, Discontinuity)]" and cE = video_allocated
      and dE = "encode_lavc_discontinuity plain_extern video_allocated"
      and EC = plain_extern and cC = "encode_lavc_discontinuity plain_extern video_allocated"
      and mC = AVMEDIA_TYPE_AUDIO and rC = "(0, Some 1, Some 1)" and dC = both_allocated
      and EG = plain_extern and cG = fresh_session and mG = AVMEDIA_TYPE_VIDEO
      and sG = "Some 0" and kG = "Some 0" and dG = video_allocated
      and opsG = "[(plain_extern, Discontinuity)]"
      and cH = "encode_lavc_discontinuity plain_extern video_allocated"
      and EH = plain_extern and mH = AVMEDIA_TYPE_AUDIO and sH = "Some 1" and kH = "Some 1"
      and dH = both_allocated
      and EB = plain_extern and cB = both_allocated and mB = AVMEDIA_TYPE_VIDEO
      and EA = plain_extern and x = Start and cA = both_allocated]
  have a1: "encode_lavc_alloc_stream plain_extern fresh_session AVMEDIA_TYPE_VIDEO
              = Some ((0, Some 0, Some 0), video_allocated)"
    by code_simp
  have h1: "reaches_negotiation fresh_session AVMEDIA_TYPE_VIDEO" "den (timebase fresh_session) = 0"
    "fps (options fresh_session) \<le> 0" "\<not> (autofps (options fresh_session) \<and> vo_fps fresh_session > 0)"
    "vc fresh_session = Some video_encoder"
    by code_simp+
  have h2: "supported_framerates video_encoder = None" by (simp add: video_encoder_def)
  have r1: "run [(plain_extern, Discontinuity)] video_allocated
              = Some (encode_lavc_discontinuity plain_extern video_allocated)"
    by simp
  have h3: "reaches_negotiation (encode_lavc_discontinuity plain_extern video_allocated)
              AVMEDIA_TYPE_AUDIO"
    by code_simp
  have a2: "encode_lavc_alloc_stream plain_extern
              (encode_lavc_discontinuity plain_extern video_allocated) AVMEDIA_TYPE_AUDIO
              = Some ((0, Some 1, Some 1), both_allocated)"
    by code_simp
  have h4: "\<not> reaches_negotiation both_allocated AVMEDIA_TYPE_VIDEO" by code_simp
  have "encode_lavc_alloc_stream plain_extern both_allocated AVMEDIA_TYPE_VIDEO \<noteq> None"
    by code_simp
  then obtain r d where a3: "encode_lavc_alloc_stream plain_extern both_allocated AVMEDIA_TYPE_VIDEO
      = Some (r, d)"
    by auto
  have "exec plain_extern Start both_allocated \<noteq> None" by code_simp
  then obtain r' d' where a4: "exec plain_extern Start both_allocated = Some (r', d')" by auto
  from T[where rB = r and dB = d and rA = r' and dA = d'] a1 h1 h2 r1 h3 a2 h4 a3 a4
  have t1: "timebase video_allocated = \<lparr>num = 1, den = 24000\<rparr>"
    and t2: "timebase (encode_lavc_discontinuity plain_extern video_allocated)
               = timebase video_allocated"
    by simp_all
  from T[where rB = r and dB = d and rA = r' and dA = d'] a1 h1 h2 r1 h3 a2 h4 a3 a4 t1 t2
  have t3: "timebase both_allocated = \<lparr>num = 1, den = 24000\<rparr>"
    and t4: "timebase d = timebase both_allocated"
    and t5: "timebase d' = timebase both_allocated"
    and t6: "\<exists>a i st p cc. avc both_allocated = Some a \<and> Some (1::nat) = Some i \<and>
        stream_at a i = Some st \<and> st_time_base st = timebase video_allocated \<and>
        Some (1::nat) = Some p \<and> codec_at both_allocated p = Some cc \<and>
        cc_time_base cc = timebase video_allocated"
    by simp_all
  from t6 t1 have t7: "\<exists>a st cc. avc both_allocated = Some a \<and> stream_at a 1 = Some st \<and>
      st_time_base st = \<lparr>num = 1, den = 24000\<rparr> \<and> codec_at both_allocated 1 = Some cc \<and>
      cc_time_base cc = \<lparr>num = 1, den = 24000\<rparr>"
    by auto
  from a3 t3 t4 have e1: "\<exists>r d. encode_lavc_alloc_stream plain_extern both_allocated
      AVMEDIA_TYPE_VIDEO = Some (r, d) \<and> timebase d = \<lparr>num = 1, den = 24000\<rparr>"
    by (intro exI[of _ r] exI[of _ d]) simp
  from a4 t3 t5 have e2: "\<exists>r d. exec plain_extern Start both_allocated = Some (r, d) \<and>
      timebase d = \<lparr>num = 1, den = 24000\<rparr>"
    by (intro exI[of _ r'] exI[of _ d']) simp
  from a1 h1(1,2) t1 r1 h3 a2 t3 t7 h4 e1 e2 show ?thesis by - (intro conjI; assumption)
qed

section \<open>C5: the order of the streams\<close>

text \<open>
  C5: let the session be one that \<^verbatim>\<open>encode_lavc_init\<close> and the operations can produce.  If
  \<open>video_first\<close> is set and \<^verbatim>\<open>encode_lavc_alloc_stream\<close> is called for audio and then for
  video, and both calls return 0, then the video stream is the stream 0 of the muxer and the
  audio stream is the stream 1, with these indices; and the same with audio and video
  exchanged when \<open>audio_first\<close> is set.
\<close>

theorem configured_first_stream_is_lower:
  assumes "reachable c"
    and "video_first c \<and> m1 = AVMEDIA_TYPE_AUDIO \<and> m2 = AVMEDIA_TYPE_VIDEO \<or>
         audio_first c \<and> m1 = AVMEDIA_TYPE_VIDEO \<and> m2 = AVMEDIA_TYPE_AUDIO"
    and "encode_lavc_alloc_stream E c m1 = Some ((0, s1, k1), c1)"
    and "encode_lavc_alloc_stream E' c1 m2 = Some ((0, s2, k2), c2)"
  shows "\<exists>a. avc c2 = Some a \<and> s2 = Some 0 \<and> s1 = Some 1 \<and> length (streams a) = 2 \<and>
           st_index (streams a ! 0) = 0 \<and> st_index (streams a ! 1) = 1 \<and>
           (m2 = AVMEDIA_TYPE_VIDEO \<longrightarrow> vst c2 = Some 0 \<and> ast c2 = Some 1) \<and>
           (m2 = AVMEDIA_TYPE_AUDIO \<longrightarrow> ast c2 = Some 0 \<and> vst c2 = Some 1)"
proof -
  from assms(1) have w: "wf c" by (rule reachable_wf)
  from assms(2) show ?thesis
  proof
    assume h: "video_first c \<and> m1 = AVMEDIA_TYPE_AUDIO \<and> m2 = AVMEDIA_TYPE_VIDEO"
    with assms(3,4) have 1: "encode_lavc_alloc_stream E c AVMEDIA_TYPE_AUDIO = Some ((0, s1, k1), c1)"
      and 2: "encode_lavc_alloc_stream E' c1 AVMEDIA_TYPE_VIDEO = Some ((0, s2, k2), c2)"
      by simp_all
    from audio_then_video_starts_empty[OF w 1 2] obtain a where a: "avc c = Some a"
      "streams a = []" "vst c = None" "ast c = None"
      by blast
    from h have vf: "video_first c" by simp
    from alloc_audio_after_prealloc[OF 1 a(1,2) vf a(3,4)] obtain a1 where
      c1: "s1 = Some 1" "vst c1 = Some 0" "ast c1 = Some 1" "avc c1 = Some a1"
      "length (streams a1) = 2" "st_index (streams a1 ! 0) = 0" "st_index (streams a1 ! 1) = 1"
      by blast
    from c1(5) have ne: "streams a1 \<noteq> []" by auto
    from alloc_video_on_existing[OF 2 c1(4) ne c1(2)] c1 h show ?thesis by auto
  next
    assume h: "audio_first c \<and> m1 = AVMEDIA_TYPE_VIDEO \<and> m2 = AVMEDIA_TYPE_AUDIO"
    with assms(3,4) have 1: "encode_lavc_alloc_stream E c AVMEDIA_TYPE_VIDEO = Some ((0, s1, k1), c1)"
      and 2: "encode_lavc_alloc_stream E' c1 AVMEDIA_TYPE_AUDIO = Some ((0, s2, k2), c2)"
      by simp_all
    from video_then_audio_starts_empty[OF w 1 2] obtain a where a: "avc c = Some a"
      "streams a = []" "vst c = None" "ast c = None"
      by blast
    from h have af: "audio_first c" by simp
    from alloc_video_after_prealloc[OF 1 a(1,2) af a(4,3)] obtain a1 where
      c1: "s1 = Some 1" "ast c1 = Some 0" "vst c1 = Some 1" "avc c1 = Some a1"
      "length (streams a1) = 2" "st_index (streams a1 ! 0) = 0" "st_index (streams a1 ! 1) = 1"
      by blast
    from c1(5) have ne: "streams a1 \<noteq> []" by auto
    from alloc_audio_on_existing[OF 2 c1(4) ne c1(2)] c1 h show ?thesis by auto
  qed
qed

text \<open>
  An instance: on a new session with the option that puts video first, audio is allocated
  before video, and video has the index 0.
\<close>

theorem configured_first_stream_is_lower_witness:
  "reachable video_first_session \<and> video_first video_first_session \<and>
   (\<exists>k1 c1 k2 c2 a.
      encode_lavc_alloc_stream plain_extern video_first_session AVMEDIA_TYPE_AUDIO
        = Some ((0, Some 1, k1), c1) \<and>
      encode_lavc_alloc_stream plain_extern c1 AVMEDIA_TYPE_VIDEO = Some ((0, Some 0, k2), c2) \<and>
      avc c2 = Some a \<and> st_index (streams a ! 0) = 0 \<and> st_index (streams a ! 1) = 1 \<and>
      vst c2 = Some 0 \<and> ast c2 = Some 1)"
proof -
  have vf: "video_first video_first_session" by code_simp
  have "map_option (fst \<circ> fst)
          (encode_lavc_alloc_stream plain_extern video_first_session AVMEDIA_TYPE_AUDIO) = Some 0"
    by code_simp
  then obtain s1 k1 c1 where 1:
    "encode_lavc_alloc_stream plain_extern video_first_session AVMEDIA_TYPE_AUDIO
       = Some ((0, s1, k1), c1)"
    by auto
  have "map_option (fst \<circ> fst)
          (Option.bind
             (encode_lavc_alloc_stream plain_extern video_first_session AVMEDIA_TYPE_AUDIO)
             (\<lambda>x. encode_lavc_alloc_stream plain_extern (snd x) AVMEDIA_TYPE_VIDEO)) = Some 0"
    by code_simp
  with 1 obtain s2 k2 c2 where 2:
    "encode_lavc_alloc_stream plain_extern c1 AVMEDIA_TYPE_VIDEO = Some ((0, s2, k2), c2)"
    by auto
  from configured_first_stream_is_lower[OF video_first_session_reachable _ 1 2] vf 1 2
    video_first_session_reachable
  show ?thesis by auto
qed

section \<open>C6: the flags that two-pass preparation reads\<close>

text \<open>
  C6 does not hold of the code: \<^verbatim>\<open>encode_2pass_prepare\<close> looks the entry \<^verbatim>\<open>flags\<close> up in
  \<^verbatim>\<open>ctx->voptions\<close> (line 483) for both slots.  With the audio option \<^verbatim>\<open>flags=+pass1\<close> and
  no video option, allocating the audio stream leaves the audio dictionary with the flag
  \<^verbatim>\<open>+pass1\<close>, but no statistics channel is opened for audio and no external call is made.
  With the video option \<^verbatim>\<open>flags=+pass1\<close> and no audio option, allocating the video and
  then the audio stream opens a statistics file for audio as well, although the audio
  dictionary has no such flag.
\<close>

theorem audio_pass1_follows_video_flags:
  "map_option aoptions
     (session ((plain_opts ''out.mkv'')\<lparr>aopts := Some [''flags=+pass1'']\<rparr>)
        [(plain_extern, AllocStream AVMEDIA_TYPE_AUDIO)])
     = Some [(''flags'', ''+pass1+global_header'')] \<and>
   map_option twopass_bytebuffer_a
     (session ((plain_opts ''out.mkv'')\<lparr>aopts := Some [''flags=+pass1'']\<rparr>)
        [(plain_extern, AllocStream AVMEDIA_TYPE_AUDIO)])
     = Some None \<and>
   map_option io_calls
     (session ((plain_opts ''out.mkv'')\<lparr>aopts := Some [''flags=+pass1'']\<rparr>)
        [(plain_extern, AllocStream AVMEDIA_TYPE_AUDIO)])
     = Some [] \<and>
   map_option aoptions
     (session ((plain_opts ''out.mkv'')\<lparr>vopts := Some [''flags=+pass1'']\<rparr>)
        [(plain_extern, AllocStream AVMEDIA_TYPE_VIDEO), (plain_extern, AllocStream AVMEDIA_TYPE_AUDIO)])
     = Some [(''flags'', ''+global_header'')] \<and>
   map_option io_calls
     (session ((plain_opts ''out.mkv'')\<lparr>vopts := Some [''flags=+pass1'']\<rparr>)
        [(plain_extern, AllocStream AVMEDIA_TYPE_VIDEO), (plain_extern, AllocStream AVMEDIA_TYPE_AUDIO)])
     = Some [OpenOutputStream ''out.mkv-vo-lavc-pass1.log'',
             OpenOutputStream ''out.mkv-ao-lavc-pass1.log'']"
  by code_simp

section \<open>C7: frame accounting\<close>

text \<open>
  C7: on a session whose header has been written and which is neither failed nor finished,
  writing three packets of 100, 200 and 50 bytes for a video stream adds 350 to the video
  byte counter and 3 to the frame counter; writing one packet of duration 48000 for an
  audio stream whose timebase is 1/48000 adds 1 to the accumulated audio seconds.  The
  counters are 64-bit and 32-bit words, the seconds are a real number.
\<close>

theorem frame_accounting:
  assumes "reachable c" and "\<not> failed c" and "\<not> finished c" and "0 < header_written c"
    and "codecpar_codec_type vs = AVMEDIA_TYPE_VIDEO"
    and "stream_index p1 = st_index vs" and "stream_index p2 = st_index vs"
    and "stream_index p3 = st_index vs"
    and "pkt_size p1 = 100" and "pkt_size p2 = 200" and "pkt_size p3 = 50"
    and "codecpar_codec_type au = AVMEDIA_TYPE_AUDIO"
    and "st_time_base au = \<lparr>num = 1, den = 48000\<rparr>"
    and "stream_index pa = st_index au" and "duration pa = 48000"
  shows "(\<exists>c3. run [(E1, WriteFrame vs p1), (E2, WriteFrame vs p2), (E3, WriteFrame vs p3)] c = Some c3 \<and>
            vbytes c3 = vbytes c + 350 \<and> frames c3 = frames c + 3) \<and>
         (\<exists>r c'. encode_lavc_write_frame E c au pa = Some (r, c') \<and>
            audioseconds c' = audioseconds c + 1)"
proof -
  from reachable_muxer[OF assms(1,3)] obtain a where a: "avc c = Some a" by blast
  from write_video_frame[OF assms(2,3) assms(6)[symmetric] assms(4) a assms(5), of E1]
  obtain c1 where c1: "exec E1 (WriteFrame vs p1) c = Some (RInt (av_interleaved_write_frame E1 a p1), c1)"
    "\<not> failed c1" "\<not> finished c1" "header_written c1 = header_written c" "avc c1 = avc c"
    "vbytes c1 = vbytes c + scast (pkt_size p1)" "frames c1 = frames c + 1"
    by blast
  from c1 a assms(4) have h1: "0 < header_written c1" "avc c1 = Some a" by simp_all
  from write_video_frame[OF c1(2,3) assms(7)[symmetric] h1 assms(5), of E2]
  obtain c2 where c2: "exec E2 (WriteFrame vs p2) c1 = Some (RInt (av_interleaved_write_frame E2 a p2), c2)"
    "\<not> failed c2" "\<not> finished c2" "header_written c2 = header_written c1" "avc c2 = avc c1"
    "vbytes c2 = vbytes c1 + scast (pkt_size p2)" "frames c2 = frames c1 + 1"
    by blast
  from c2 h1 have h2: "0 < header_written c2" "avc c2 = Some a" by simp_all
  from write_video_frame[OF c2(2,3) assms(8)[symmetric] h2 assms(5), of E3]
  obtain c3 where c3: "exec E3 (WriteFrame vs p3) c2 = Some (RInt (av_interleaved_write_frame E3 a p3), c3)"
    "vbytes c3 = vbytes c2 + scast (pkt_size p3)" "frames c3 = frames c2 + 1"
    by blast
  have r: "run [(E1, WriteFrame vs p1), (E2, WriteFrame vs p2), (E3, WriteFrame vs p3)] c = Some c3"
    using c1(1) c2(1) c3(1) by simp
  have v: "vbytes c3 = vbytes c + 350" "frames c3 = frames c + 3"
    using c1(6,7) c2(6,7) c3(2,3) assms(9-11) by simp_all
  have "audioseconds (account_frame au pa x) = audioseconds x + 1" for x
    using assms(12,13,15) by (simp add: account_frame_audio)
  with write_frame_passes[OF assms(2,3) assms(14)[symmetric] assms(4) a, of E]
  have "\<exists>r c'. encode_lavc_write_frame E c au pa = Some (r, c') \<and>
            audioseconds c' = audioseconds c + 1"
    by simp
  with r v show ?thesis by blast
qed

text \<open>
  An instance: on \<open>started_session\<close>, whose counters are 0, the video byte counter becomes
  350, the frame counter 3 and the audio seconds 1.
\<close>

theorem frame_accounting_witness:
  "reachable started_session \<and> \<not> failed started_session \<and> \<not> finished started_session \<and>
   0 < header_written started_session \<and>
   map_option streams (avc started_session) = Some [video_stream, audio_stream] \<and>
   (\<exists>c3. run [(plain_extern, WriteFrame video_stream (packet 0 100 0)),
              (plain_extern, WriteFrame video_stream (packet 0 200 0)),
              (plain_extern, WriteFrame video_stream (packet 0 50 0))] started_session = Some c3 \<and>
          vbytes c3 = 350 \<and> frames c3 = 3) \<and>
   (\<exists>r c'. encode_lavc_write_frame plain_extern started_session audio_stream (packet 1 4 48000)
              = Some (r, c') \<and> audioseconds c' = 1)"
proof -
  have h: "\<not> failed started_session" "\<not> finished started_session" "0 < header_written started_session"
    "codecpar_codec_type video_stream = AVMEDIA_TYPE_VIDEO"
    "stream_index (packet 0 100 0) = st_index video_stream"
    "stream_index (packet 0 200 0) = st_index video_stream"
    "stream_index (packet 0 50 0) = st_index video_stream"
    "pkt_size (packet 0 100 0) = 100" "pkt_size (packet 0 200 0) = 200" "pkt_size (packet 0 50 0) = 50"
    "codecpar_codec_type audio_stream = AVMEDIA_TYPE_AUDIO"
    "st_time_base audio_stream = \<lparr>num = 1, den = 48000\<rparr>"
    "stream_index (packet 1 4 48000) = st_index audio_stream" "duration (packet 1 4 48000) = 48000"
    by code_simp+
  have z: "vbytes started_session = 0" "frames started_session = 0" "audioseconds started_session = 0"
    "map_option streams (avc started_session) = Some [video_stream, audio_stream]"
    by code_simp+
  from frame_accounting[OF started_session_reachable h, of plain_extern plain_extern plain_extern plain_extern]
    z h started_session_reachable
  show ?thesis by simp
qed

section \<open>C8: the option qscale\<close>

text \<open>
  C8, as stated, fails for a long value.  With the key \<^verbatim>\<open>qscale\<close> and a value of 1012
  digits \<^verbatim>\<open>7\<close>, the value stored under \<^verbatim>\<open>global_quality\<close> is not \<^verbatim>\<open>(v)*QP2LAMBDA\<close>: the
  buffer of 1024 bytes cuts the last character off.
\<close>

theorem qscale_long_value_is_cut:
  "av_dict_get plain_extern
     (fst (snd (set_to_avdictionary plain_extern [] [] (Some ''qscale'') (replicate 1012 CHR ''7''))))
     ''global_quality''
   = Some (''('' @ replicate 1012 CHR ''7'' @ '')*QP2LAMBD'') \<and>
   ''('' @ replicate 1012 CHR ''7'' @ '')*QP2LAMBD'' \<noteq> ''('' @ replicate 1012 CHR ''7'' @ '')*QP2LAMBDA''"
  by (simp add: set_to_avdictionary_def qscale_value_def has_sign_replicate plain_extern_def
        dict_set_def dict_get_def)

text \<open>
  C8, amended: for a value \<open>v\<close> of at most 1011 bytes, an option with the key \<^verbatim>\<open>qscale\<close>,
  given with a separate key or as \<^verbatim>\<open>qscale=v\<close>, is passed to \<^verbatim>\<open>av_dict_set\<close> under the key
  \<^verbatim>\<open>global_quality\<close> with the value \<^verbatim>\<open>(v)*QP2LAMBDA\<close>, or, when \<open>v\<close> starts with \<^verbatim>\<open>+\<close> or \<^verbatim>\<open>-\<close>,
  with the sign followed by the rest of \<open>v\<close> in parentheses and \<^verbatim>\<open>*QP2LAMBDA\<close>; in the
  second case the flag \<^verbatim>\<open>AV_DICT_APPEND\<close> is passed.  The result is 1 when \<^verbatim>\<open>av_dict_set\<close>
  does not return a negative code.
\<close>

theorem qscale_becomes_global_quality:
  assumes "length v \<le> 1011"
      and "key = Some ''qscale'' \<and> val = v \<or> key = None \<and> val = ''qscale='' @ v"
  shows "set_to_avdictionary E lg dict key val =
           (let v' = (if has_sign v then take 1 v @ ''('' @ drop 1 v @ '')*QP2LAMBDA''
                      else ''('' @ v @ '')*QP2LAMBDA'');
                rd = av_dict_set E dict ''global_quality'' (Some v')
                       (if has_sign v then AV_DICT_APPEND E else 0)
            in (if fst rd \<ge> 0 then 1 else 0, snd rd,
                lg @ [(MSGL_V, ''setting value '%s' for key '%s'\<newline>'', [Str v', Str ''global_quality''])]))"
proof -
  have s: "strchr (''qscale='' @ v) CHR ''='' = Some 6"
    using strchr_append[of "CHR ''=''" "''qscale''" v] by simp
  have n: "(if has_sign v then take 1 v @ ''('' @ drop 1 v @ '')*QP2LAMBDA''
            else ''('' @ v @ '')*QP2LAMBDA'') \<noteq> []"
    by simp
  from assms(2) show ?thesis
  proof
    assume "key = Some ''qscale'' \<and> val = v"
    with assms(1) n show ?thesis
      by (simp add: set_to_avdictionary_def qscale_value_fits has_sign_moved Let_def
            split: prod.splits)
  next
    assume "key = None \<and> val = ''qscale='' @ v"
    with assms(1) n s show ?thesis
      by (simp add: set_to_avdictionary_def qscale_value_fits has_sign_moved Let_def
            split: prod.splits)
  qed
qed

text \<open>An instance: the option \<^verbatim>\<open>qscale=-3\<close> is appended to the quality 1.\<close>

theorem qscale_becomes_global_quality_witness:
  "length ''-3'' \<le> (1011::nat) \<and>
   set_to_avdictionary plain_extern [] [(''global_quality'', ''1'')] None ''qscale=-3'' =
     (1, [(''global_quality'', ''1-(3)*QP2LAMBDA'')],
      [(MSGL_V, ''setting value '%s' for key '%s'\<newline>'', [Str ''-(3)*QP2LAMBDA'', Str ''global_quality''])])"
  using qscale_becomes_global_quality[of "''-3''" None "''qscale=-3''" plain_extern "[]"
          "[(''global_quality'', ''1'')]"]
  by (simp add: has_sign_def plain_extern_def dict_set_def Let_def)

section \<open>C9: the counters are updated before the packet is written\<close>

text \<open>
  C9: a call of \<^verbatim>\<open>encode_lavc_write_frame\<close> on a session that is neither failed nor
  finished, with a packet for the given stream, after the header has been written, returns
  the code of \<^verbatim>\<open>av_interleaved_write_frame\<close>, whatever its sign.  That function is called in
  a state \<open>c2\<close> in which the byte counter of the media type of the stream has already grown
  by the size of the packet, and for video the frame counter by 1; the call itself changes
  no counter.
\<close>

theorem counters_precede_write:
  assumes "reachable c" and "\<not> failed c" and "\<not> finished c"
    and "st_index st = stream_index pk" and "0 < header_written c"
  shows "\<exists>a c2. avc c = Some a \<and>
           encode_lavc_write_frame E c st pk =
             Some (av_interleaved_write_frame E a pk, ext (AvInterleavedWriteFrame pk) c2) \<and>
           io_calls c2 = io_calls c \<and>
           (codecpar_codec_type st = AVMEDIA_TYPE_VIDEO \<longrightarrow>
              vbytes c2 = vbytes c + scast (pkt_size pk) \<and> frames c2 = frames c + 1) \<and>
           (codecpar_codec_type st = AVMEDIA_TYPE_AUDIO \<longrightarrow>
              abytes c2 = abytes c + scast (pkt_size pk)) \<and>
           vbytes (ext (AvInterleavedWriteFrame pk) c2) = vbytes c2 \<and>
           abytes (ext (AvInterleavedWriteFrame pk) c2) = abytes c2 \<and>
           frames (ext (AvInterleavedWriteFrame pk) c2) = frames c2"
proof -
  from reachable_muxer[OF assms(1,3)] obtain a where a: "avc c = Some a" by blast
  define c2 where "c2 = account_frame st pk (trace_frame st pk c)"
  have 1: "encode_lavc_write_frame E c st pk =
             Some (av_interleaved_write_frame E a pk, ext (AvInterleavedWriteFrame pk) c2)"
    using write_frame_passes[OF assms(2-5) a, of E] by (simp add: c2_def)
  have 2: "io_calls c2 = io_calls c" by (simp add: c2_def)
  have 3: "codecpar_codec_type st = AVMEDIA_TYPE_VIDEO \<longrightarrow>
             vbytes c2 = vbytes c + scast (pkt_size pk) \<and> frames c2 = frames c + 1"
    by (simp add: c2_def account_frame_video)
  have 4: "codecpar_codec_type st = AVMEDIA_TYPE_AUDIO \<longrightarrow>
             abytes c2 = abytes c + scast (pkt_size pk)"
    by (simp add: c2_def account_frame_audio)
  have 5: "vbytes (ext (AvInterleavedWriteFrame pk) c2) = vbytes c2"
    "abytes (ext (AvInterleavedWriteFrame pk) c2) = abytes c2"
    "frames (ext (AvInterleavedWriteFrame pk) c2) = frames c2"
    by simp_all
  from a 1 2 3 4 5 show ?thesis by blast
qed

text \<open>
  An instance: in an outside world in which every write fails, the write of a video packet
  of 100 bytes returns -1, and the counters have been updated.
\<close>

theorem counters_precede_write_witness:
  "reachable started_session \<and> \<not> failed started_session \<and> \<not> finished started_session \<and>
   st_index video_stream = stream_index (packet 0 100 0) \<and> 0 < header_written started_session \<and>
   (\<exists>c'. encode_lavc_write_frame failing_writes started_session video_stream (packet 0 100 0)
            = Some (- 1, c') \<and>
          vbytes c' = 100 \<and> frames c' = 1 \<and>
          io_calls c' = io_calls started_session @ [AvInterleavedWriteFrame (packet 0 100 0)])"
proof -
  have h: "\<not> failed started_session" "\<not> finished started_session"
    "st_index video_stream = stream_index (packet 0 100 0)" "0 < header_written started_session"
    by code_simp+
  have v: "codecpar_codec_type video_stream = AVMEDIA_TYPE_VIDEO" "vbytes started_session = 0"
    "frames started_session = 0" "pkt_size (packet 0 100 0) = 100"
    by code_simp+
  have f: "av_interleaved_write_frame failing_writes a p = - 1" for a p
    by (simp add: failing_writes_def)
  from counters_precede_write[OF started_session_reachable h, of failing_writes] v f h
    started_session_reachable
  show ?thesis by auto
qed

section \<open>C10: a key of 1024 bytes or more\<close>

text \<open>
  C10: a combined option string whose key part, the text before the first equals sign, is
  1024 bytes or longer is treated as malformed although it contains an equals sign: the
  warning is logged, the result is 0 and the dictionary is the same.
\<close>

theorem long_key_is_malformed:
  assumes "CHR ''='' \<notin> set k" and "1024 \<le> length k"
  shows "set_to_avdictionary E lg dict None (k @ ''='' @ rest) =
           (0, dict,
            lg @ [(MSGL_WARN, ''option '%s' does not contain an equals sign\<newline>'',
                   [Str (k @ ''='' @ rest)])])"
  using assms by (simp add: set_to_avdictionary_def strchr_append)

text \<open>An instance: a key of 1024 letters.\<close>

theorem long_key_is_malformed_witness:
  "CHR ''='' \<notin> set (replicate 1024 CHR ''k'') \<and> 1024 \<le> length (replicate 1024 CHR ''k'') \<and>
   set_to_avdictionary plain_extern [] [(''b'', ''800k'')] None (replicate 1024 CHR ''k'' @ ''='' @ ''1'') =
     (0, [(''b'', ''800k'')],
      [(MSGL_WARN, ''option '%s' does not contain an equals sign\<newline>'',
        [Str (replicate 1024 CHR ''k'' @ ''='' @ ''1'')])])"
  using long_key_is_malformed[of "replicate 1024 CHR ''k''" plain_extern "[]" "[(''b'', ''800k'')]" "''1''"]
  by simp

end
